(* ===== verification/Go_Strings.thy ===== *)
theory Go_Strings
  imports Prelude
begin

text \<open>
  The operations of Go's \<open>strings\<close>, \<open>bytes\<close> and \<open>strconv\<close> packages the program calls,
  over \<open>string\<close> (a list of bytes, as a Go string is). Case mapping and white space are
  those of ASCII text; on text with bytes above 127 Go decodes UTF-8 first, which is not
  modelled. Separators that are one byte at every call site are taken as a \<open>char\<close>.
\<close>

section \<open>Characters\<close>

definition code :: "char \<Rightarrow> nat" where
  "code c = of_char c"

definition is_space :: "char \<Rightarrow> bool" where
  "is_space c = (code c \<in> {9, 10, 11, 12, 13, 32})"

definition is_digit :: "char \<Rightarrow> bool" where
  "is_digit c = (48 \<le> code c \<and> code c \<le> 57)"

definition is_upper :: "char \<Rightarrow> bool" where
  "is_upper c = (65 \<le> code c \<and> code c \<le> 90)"

definition is_lower :: "char \<Rightarrow> bool" where
  "is_lower c = (97 \<le> code c \<and> code c \<le> 122)"

definition lower_char :: "char \<Rightarrow> char" where
  "lower_char c = (if is_upper c then char_of (code c + 32) else c)"

definition upper_char :: "char \<Rightarrow> char" where
  "upper_char c = (if is_lower c then char_of (code c - 32) else c)"

lemma code_less_256 [simp]: "code c < 256"
  by (simp add: code_def)

lemma code_char_of [simp]: "n < 256 \<Longrightarrow> code (char_of n) = n"
  by (simp add: code_def)

lemma code_eq_iff: "code c = code d \<longleftrightarrow> c = d"
  by (simp add: code_def)

lemma lower_char_idem [simp]: "lower_char (lower_char c) = lower_char c"
  by (simp add: lower_char_def is_upper_def)

text \<open>Evaluation compares codes as binary integers.\<close>

lemma int_code: "int (code c) = of_char c"
  unfolding code_def by (rule of_nat_of_char)

lemma is_space_code [code]: "is_space c = (let i = of_char c :: int in i = 32 \<or> 9 \<le> i \<and> i \<le> 13)"
  unfolding is_space_def Let_def int_code [symmetric] by auto

lemma is_digit_code [code]: "is_digit c = (let i = of_char c :: int in 48 \<le> i \<and> i \<le> 57)"
  unfolding is_digit_def Let_def int_code [symmetric] by auto

lemma is_upper_code [code]: "is_upper c = (let i = of_char c :: int in 65 \<le> i \<and> i \<le> 90)"
  unfolding is_upper_def Let_def int_code [symmetric] by auto

lemma is_lower_code [code]: "is_lower c = (let i = of_char c :: int in 97 \<le> i \<and> i \<le> 122)"
  unfolding is_lower_def Let_def int_code [symmetric] by auto

lemma char_of_int_code: "char_of (of_char c + k :: int) = char_of (code c + nat k)" if "0 \<le> k"
proof -
  have "of_char c + k = int (code c + nat k)" using that by (simp add: int_code)
  then show ?thesis by (simp only: char_of_nat)
qed

lemma lower_char_code [code]: "lower_char c = (if is_upper c then char_of (of_char c + 32 :: int) else c)"
  by (simp add: lower_char_def char_of_int_code)

section \<open>Trimming and case\<close>

definition trim_left_fun :: "(char \<Rightarrow> bool) \<Rightarrow> string \<Rightarrow> string" where
  "trim_left_fun p s = dropWhile p s"

definition trim_right_fun :: "(char \<Rightarrow> bool) \<Rightarrow> string \<Rightarrow> string" where
  "trim_right_fun p s = rev (dropWhile p (rev s))"

definition trim_fun :: "(char \<Rightarrow> bool) \<Rightarrow> string \<Rightarrow> string" where
  "trim_fun p s = trim_right_fun p (trim_left_fun p s)"

definition TrimSpace :: "string \<Rightarrow> string" where
  "TrimSpace s = trim_fun is_space s"

text \<open>\<open>strings.Trim(s, cutset)\<close> and \<open>strings.TrimRight(s, cutset)\<close>.\<close>

definition Trim :: "string \<Rightarrow> string \<Rightarrow> string" where
  "Trim s cutset = trim_fun (\<lambda>c. c \<in> set cutset) s"

definition TrimRight :: "string \<Rightarrow> string \<Rightarrow> string" where
  "TrimRight s cutset = trim_right_fun (\<lambda>c. c \<in> set cutset) s"

definition ToLower :: "string \<Rightarrow> string" where
  "ToLower s = map lower_char s"

definition ToUpper :: "string \<Rightarrow> string" where
  "ToUpper s = map upper_char s"

definition EqualFold :: "string \<Rightarrow> string \<Rightarrow> bool" where
  "EqualFold a b = (ToLower a = ToLower b)"

lemma trim_right_last: "trim_right_fun p s \<noteq> [] \<Longrightarrow> \<not> p (last (trim_right_fun p s))"
  by (metis dropWhile_eq_Nil_conv hd_dropWhile hd_rev rev_is_Nil_conv rev_rev_ident trim_right_fun_def)

lemma trim_right_idem [simp]: "trim_right_fun p (trim_right_fun p s) = trim_right_fun p s"
  by (simp add: trim_right_fun_def)

lemma set_trim_right: "set (trim_right_fun p s) \<subseteq> set s"
  by (metis dropWhile_eq_drop set_drop_subset set_rev trim_right_fun_def)

lemma trim_right_hd:
  "trim_right_fun p s \<noteq> [] \<Longrightarrow> hd (trim_right_fun p s) = hd s"
proof -
  assume ne: "trim_right_fun p s \<noteq> []"
  have "s = trim_right_fun p s @ rev (takeWhile p (rev s))"
    unfolding trim_right_fun_def
    by (metis rev_append rev_rev_ident takeWhile_dropWhile_id)
  with ne show ?thesis by (metis hd_append2)
qed

lemma trim_fun_idem [simp]: "trim_fun p (trim_fun p s) = trim_fun p s"
proof (cases "trim_fun p s = []")
  case True
  have "trim_fun p [] = []" by (simp add: trim_fun_def trim_left_fun_def trim_right_fun_def)
  with True show ?thesis by simp
next
  case False
  let ?t = "trim_fun p s"
  from False have "hd ?t = hd (dropWhile p s)"
    by (simp add: trim_fun_def trim_left_fun_def trim_right_hd)
  moreover from False have "dropWhile p s \<noteq> []"
    by (auto simp: trim_fun_def trim_left_fun_def trim_right_fun_def dest: set_dropWhileD)
  ultimately have "\<not> p (hd ?t)" by (metis hd_dropWhile)
  with False have "dropWhile p ?t = ?t" by (cases ?t) auto
  then show ?thesis
    by (metis trim_fun_def trim_left_fun_def trim_right_idem)
qed

lemma TrimSpace_idem [simp]: "TrimSpace (TrimSpace s) = TrimSpace s"
  by (simp add: TrimSpace_def)

lemma TrimSpace_Nil [simp]: "TrimSpace [] = []"
  by (simp add: TrimSpace_def trim_fun_def trim_left_fun_def trim_right_fun_def)

lemma trim_right_eq_Nil: "trim_right_fun p s = [] \<longleftrightarrow> (\<forall>c\<in>set s. p c)"
  by (simp add: trim_right_fun_def)

lemma TrimSpace_eq_Nil: "TrimSpace s = [] \<longleftrightarrow> (\<forall>c\<in>set s. is_space c)"
  by (auto simp: TrimSpace_def trim_fun_def trim_left_fun_def trim_right_eq_Nil
      dest: set_dropWhileD)
     (metis dropWhile_eq_Nil_conv hd_dropWhile list.set_sel(1))

lemma ToLower_idem [simp]: "ToLower (ToLower s) = ToLower s"
  by (simp add: ToLower_def)

lemma TrimRight_idem [simp]: "TrimRight (TrimRight s cs) cs = TrimRight s cs"
  by (simp add: TrimRight_def trim_right_fun_def)

lemma TrimRight_subset: "set (TrimRight s cs) \<subseteq> set s"
  by (auto simp: TrimRight_def trim_right_fun_def dest: set_dropWhileD)

section \<open>Prefixes, searching, replacing\<close>

definition HasPrefix :: "string \<Rightarrow> string \<Rightarrow> bool" where
  "HasPrefix s p = (take (length p) s = p)"

definition HasSuffix :: "string \<Rightarrow> string \<Rightarrow> bool" where
  "HasSuffix s p = (length p \<le> length s \<and> drop (length s - length p) s = p)"

definition TrimPrefix :: "string \<Rightarrow> string \<Rightarrow> string" where
  "TrimPrefix s p = (if HasPrefix s p then drop (length p) s else s)"

definition TrimSuffix :: "string \<Rightarrow> string \<Rightarrow> string" where
  "TrimSuffix s p = (if HasSuffix s p then take (length s - length p) s else s)"

text \<open>\<open>strings.Index\<close>: the first position of the substring, \<open>None\<close> for Go's \<open>-1\<close>.\<close>

fun Index :: "string \<Rightarrow> string \<Rightarrow> nat option" where
  "Index [] sub = (if sub = [] then Some 0 else None)"
| "Index (c # s) sub = (if HasPrefix (c # s) sub then Some 0 else map_option Suc (Index s sub))"

definition Contains :: "string \<Rightarrow> string \<Rightarrow> bool" where
  "Contains s sub = (Index s sub \<noteq> None)"

text \<open>\<open>strings.ReplaceAll\<close>; an empty \<open>old\<close> inserts \<open>new\<close> around every character.\<close>

function replace_from :: "string \<Rightarrow> string \<Rightarrow> string \<Rightarrow> string" where
  "replace_from old new s =
     (if old = [] \<or> s = [] then s
      else if HasPrefix s old then new @ replace_from old new (drop (length old) s)
      else hd s # replace_from old new (tl s))"
  by pat_completeness auto
termination
  by (relation "measure (\<lambda>(old, new, s). length s)") auto

declare replace_from.simps [simp del]

definition ReplaceAll :: "string \<Rightarrow> string \<Rightarrow> string \<Rightarrow> string" where
  "ReplaceAll s old new =
     (if old = [] then concat (map (\<lambda>c. new @ [c]) s) @ new else replace_from old new s)"

lemma HasPrefix_iff: "HasPrefix s p \<longleftrightarrow> (\<exists>t. s = p @ t)"
  by (metis HasPrefix_def append_eq_conv_conj append_take_drop_id)

lemma HasPrefix_append [simp]: "HasPrefix (p @ t) p"
  by (simp add: HasPrefix_def)

lemma HasPrefix_Cons1 [simp]: "HasPrefix s [c] \<longleftrightarrow> s \<noteq> [] \<and> hd s = c"
  by (cases s) (auto simp: HasPrefix_def)

lemma TrimPrefix_append [simp]: "TrimPrefix (p @ t) p = t"
  by (simp add: TrimPrefix_def)

lemma Index_Some:
  "Index s sub = Some i \<Longrightarrow> i + length sub \<le> length s \<and> take (length sub) (drop i s) = sub"
proof (induction s arbitrary: i)
  case Nil
  then show ?case by (simp split: if_splits)
next
  case (Cons c s)
  show ?case
  proof (cases "HasPrefix (c # s) sub")
    case True
    with Cons.prems show ?thesis by (auto simp: HasPrefix_iff dest: arg_cong [where f = length])
  next
    case False
    with Cons show ?thesis by auto
  qed
qed

lemma Index_None: "Index s sub = None \<Longrightarrow> \<not> sublist sub s"
proof (induction s)
  case Nil
  then show ?case by (simp split: if_splits)
next
  case (Cons c s)
  then show ?case
    by (auto simp: sublist_Cons_right HasPrefix_iff prefix_def split: if_splits)
qed

lemma Contains_iff: "Contains s sub \<longleftrightarrow> sublist sub s"
proof
  assume "Contains s sub"
  then obtain i where "Index s sub = Some i" by (auto simp: Contains_def)
  from Index_Some [OF this] have "sub = take (length sub) (drop i s)" by simp
  then show "sublist sub s" by (metis sublist_drop sublist_order.order.trans sublist_take)
next
  assume "sublist sub s"
  then show "Contains s sub" using Index_None by (auto simp: Contains_def)
qed

lemma replace_from_char:
  "replace_from [a] [b] s = map (\<lambda>c. if c = a then b else c) s"
proof (induction s)
  case Nil
  then show ?case by (simp add: replace_from.simps)
next
  case (Cons c s)
  then show ?case by (subst replace_from.simps) simp
qed

lemma ReplaceAll_char: "ReplaceAll s [a] [b] = map (\<lambda>c. if c = a then b else c) s"
  by (simp add: ReplaceAll_def replace_from_char)

lemma ReplaceAll_char_absent: "a \<noteq> b \<Longrightarrow> a \<notin> set (ReplaceAll s [a] [b])"
  by (auto simp: ReplaceAll_char)

lemma ReplaceAll_delete: "ReplaceAll s [a] [] = filter (\<lambda>c. c \<noteq> a) s"
proof -
  have "replace_from [a] [] s = filter (\<lambda>c. c \<noteq> a) s" for s
  proof (induction s)
    case Nil
    then show ?case by (simp add: replace_from.simps)
  next
    case (Cons c s)
    then show ?case by (subst replace_from.simps) simp
  qed
  then show ?thesis by (simp add: ReplaceAll_def)
qed

lemma ReplaceAll_delete_subset: "set (ReplaceAll s [a] []) \<subseteq> set s"
  by (auto simp: ReplaceAll_delete)

section \<open>Splitting and joining\<close>

text \<open>\<open>strings.Split(s, sep)\<close> for a one-byte separator.\<close>

fun Split :: "string \<Rightarrow> char \<Rightarrow> string list" where
  "Split [] sep = [[]]"
| "Split (c # s) sep =
     (if c = sep then [] # Split s sep
      else (case Split s sep of [] \<Rightarrow> [[c]] | w # ws \<Rightarrow> (c # w) # ws))"

fun Join :: "string list \<Rightarrow> string \<Rightarrow> string" where
  "Join [] sep = []"
| "Join [w] sep = w"
| "Join (w # v # ws) sep = w @ sep @ Join (v # ws) sep"

text \<open>\<open>strings.FieldsFunc\<close> and \<open>strings.Fields\<close>: the maximal runs of other characters.\<close>

function FieldsFunc :: "string \<Rightarrow> (char \<Rightarrow> bool) \<Rightarrow> string list" where
  "FieldsFunc s p =
     (let t = dropWhile p s in
      if t = [] then [] else takeWhile (\<lambda>c. \<not> p c) t # FieldsFunc (dropWhile (\<lambda>c. \<not> p c) t) p)"
  by pat_completeness auto
termination
proof (relation "measure (\<lambda>(s, p). length s)")
  fix s :: string and p :: "char \<Rightarrow> bool" and t
  assume t: "t = dropWhile p s" and ne: "t \<noteq> []"
  then obtain c u where u: "t = c # u" "\<not> p c"
    by (metis hd_dropWhile list.collapse)
  then have "length (dropWhile (\<lambda>c. \<not> p c) t) \<le> length u"
    by (simp add: length_dropWhile_le)
  also have "length u < length s"
    using u t length_dropWhile_le [of p s] by simp
  finally show "((dropWhile (\<lambda>c. \<not> p c) t, p), (s, p)) \<in> measure (\<lambda>(s, p). length s)"
    by simp
qed simp

declare FieldsFunc.simps [simp del]

definition Fields :: "string \<Rightarrow> string list" where
  "Fields s = FieldsFunc s is_space"

text \<open>\<open>strings.Cut(s, sep)\<close> for a one-byte separator: \<open>None\<close> when it is absent.\<close>

fun Cut :: "string \<Rightarrow> char \<Rightarrow> (string \<times> string) option" where
  "Cut [] sep = None"
| "Cut (c # s) sep =
     (if c = sep then Some ([], s) else map_option (\<lambda>(a, b). (c # a, b)) (Cut s sep))"

lemma Split_not_Nil [simp]: "Split s sep \<noteq> []"
  by (induction s) (auto split: list.splits)

lemma Join_Cons: "ws \<noteq> [] \<Longrightarrow> Join (w # ws) sep = w @ sep @ Join ws sep"
  by (cases ws) auto

lemma Join_Split [simp, go_string]: "Join (Split s sep) [sep] = s"
proof (induction s)
  case Nil
  then show ?case by simp
next
  case (Cons c s)
  then show ?case by (cases "Split s sep") (auto simp: Join_Cons, cases "tl (Split s sep)", auto)
qed

lemma Split_append_sep: "sep \<notin> set w \<Longrightarrow> Split (w @ sep # s) sep = w # Split s sep"
  by (induction w) auto

lemma Split_no_sep: "sep \<notin> set w \<Longrightarrow> Split w sep = [w]"
  by (induction w) auto

lemma Split_Join [go_string]:
  "ws \<noteq> [] \<Longrightarrow> \<forall>w\<in>set ws. sep \<notin> set w \<Longrightarrow> Split (Join ws [sep]) sep = ws"
  by (induction ws rule: list_nonempty_induct)
     (auto simp: Split_no_sep Join_Cons Split_append_sep)

lemma Split_parts: "w \<in> set (Split s sep) \<Longrightarrow> sep \<notin> set w"
proof (induction s arbitrary: w)
  case Nil
  then show ?case by simp
next
  case (Cons c s)
  then show ?case
    by (cases "Split s sep") (auto split: if_splits)
qed

lemma set_Split_subset: "w \<in> set (Split s sep) \<Longrightarrow> set w \<subseteq> set s"
proof (induction s arbitrary: w)
  case (Cons c s)
  then show ?case
    by (cases "Split s sep") (fastforce split: if_splits)+
qed simp

lemma set_Join: "set (Join ws sep) \<subseteq> (\<Union>w\<in>set ws. set w) \<union> set sep"
  by (induction ws sep rule: Join.induct) auto

section \<open>Numbers\<close>

definition digit_value :: "char \<Rightarrow> int" where
  "digit_value c = int (code c) - 48"

fun digits_value :: "int \<Rightarrow> string \<Rightarrow> int" where
  "digits_value acc [] = acc"
| "digits_value acc (c # s) = digits_value (10 * acc + digit_value c) s"

text \<open>
  \<open>strconv.Atoi\<close>: an optional sign and at least one decimal digit, in the range of
  int64; \<open>None\<close> is the error (syntax or range).
\<close>

definition atoi_digits :: "bool \<Rightarrow> string \<Rightarrow> int option" where
  "atoi_digits neg ds =
     (if ds = [] \<or> \<not> list_all is_digit ds then None
      else let v = (if neg then - digits_value 0 ds else digits_value 0 ds) in
           if - (2 ^ 63) \<le> v \<and> v < 2 ^ 63 then Some v else None)"

fun Atoi :: "string \<Rightarrow> int option" where
  "Atoi [] = None"
| "Atoi (c # s) =
     (if c = CHR ''-'' then atoi_digits True s
      else if c = CHR ''+'' then atoi_digits False s
      else atoi_digits False (c # s))"

text \<open>\<open>strconv.Itoa\<close>.\<close>

fun nat_digits :: "nat \<Rightarrow> string" where
  "nat_digits n =
     (if n < 10 then [char_of (48 + n)] else nat_digits (n div 10) @ [char_of (48 + n mod 10)])"

declare nat_digits.simps [simp del]

definition Itoa :: "int \<Rightarrow> string" where
  "Itoa i = (if i < 0 then CHR ''-'' # nat_digits (nat (- i)) else nat_digits (nat i))"

text \<open>\<open>strconv.ParseBool\<close>: \<open>None\<close> is the error.\<close>

definition ParseBool :: "string \<Rightarrow> bool option" where
  "ParseBool s =
     (if s \<in> {''1'', ''t'', ''T'', ''TRUE'', ''true'', ''True''} then Some True
      else if s \<in> {''0'', ''f'', ''F'', ''FALSE'', ''false'', ''False''} then Some False
      else None)"

lemma digits_value_append:
  "digits_value acc (s @ t) = digits_value (digits_value acc s) t"
  by (induction acc s rule: digits_value.induct) auto

lemma nat_digits_not_Nil [simp]: "nat_digits n \<noteq> []"
  by (subst nat_digits.simps) simp

lemma is_digit_char_of [simp]: "(n::nat) < 10 \<Longrightarrow> is_digit (char_of (48 + n))"
  by (simp add: is_digit_def)

lemma nat_digits_digits: "list_all is_digit (nat_digits n)"
proof (induction n rule: nat_digits.induct)
  case (1 n)
  then show ?case
    by (subst nat_digits.simps) auto
qed

lemma nat_digits_value: "digits_value 0 (nat_digits n) = int n"
proof (induction n rule: nat_digits.induct)
  case (1 n)
  show ?case
  proof (cases "n < 10")
    case True
    then show ?thesis by (subst nat_digits.simps) (simp add: digit_value_def)
  next
    case False
    with "1.IH" have "digits_value 0 (nat_digits n) = 10 * int (n div 10) + int (n mod 10)"
      by (subst nat_digits.simps) (simp add: digits_value_append digit_value_def)
    also have "\<dots> = int n" by presburger
    finally show ?thesis .
  qed
qed

lemma is_digit_not_sign: "is_digit c \<Longrightarrow> c \<noteq> CHR ''-'' \<and> c \<noteq> CHR ''+''"
  by (auto simp: is_digit_def code_def)

lemma Atoi_digits:
  "ds \<noteq> [] \<Longrightarrow> list_all is_digit ds \<Longrightarrow> Atoi ds = atoi_digits False ds"
  by (cases ds) (auto dest: is_digit_not_sign)

lemma Atoi_nat_digits: "int n < 2 ^ 63 \<Longrightarrow> Atoi (nat_digits n) = Some (int n)"
  by (simp add: Atoi_digits nat_digits_digits atoi_digits_def nat_digits_value)

lemma Atoi_Itoa [go_string]: "in_int64 i \<Longrightarrow> Atoi (Itoa i) = Some i"
  by (auto simp: Itoa_def Atoi_nat_digits atoi_digits_def nat_digits_digits nat_digits_value)

lemma Atoi_range: "Atoi s = Some v \<Longrightarrow> in_int64 v"
  by (cases s) (auto simp: atoi_digits_def Let_def split: if_splits)

lemma nat_digits_chars: "c \<in> set (nat_digits n) \<Longrightarrow> is_digit c"
  using nat_digits_digits [of n] by (simp add: list_all_iff)

section \<open>Ordering\<close>

text \<open>Go compares strings byte by byte; \<open>sort.Strings\<close>.\<close>

fun str_less :: "string \<Rightarrow> string \<Rightarrow> bool" where
  "str_less [] t = (t \<noteq> [])"
| "str_less (c # s) t =
     (case t of [] \<Rightarrow> False | d # t' \<Rightarrow> code c < code d \<or> code c = code d \<and> str_less s t')"

fun insert_string :: "string \<Rightarrow> string list \<Rightarrow> string list" where
  "insert_string x [] = [x]"
| "insert_string x (y # ys) = (if str_less y x then y # insert_string x ys else x # y # ys)"

definition sort_strings :: "string list \<Rightarrow> string list" where
  "sort_strings xs = foldr insert_string xs []"

lemma str_less_irrefl [simp]: "\<not> str_less s s"
  by (induction s) auto

lemma str_less_trans: "str_less a b \<Longrightarrow> str_less b c \<Longrightarrow> str_less a c"
proof (induction a arbitrary: b c)
  case (Cons x a)
  then show ?case by (cases b; cases c) (auto split: list.splits)
qed (auto split: list.splits elim: str_less.elims)

lemma str_less_total: "a \<noteq> b \<Longrightarrow> str_less a b \<or> str_less b a"
proof (induction a arbitrary: b)
  case (Cons x a)
  then show ?case by (cases b) (auto simp: code_eq_iff neq_iff)
qed simp

lemma set_insert_string [simp]: "set (insert_string x ys) = insert x (set ys)"
  by (induction ys) auto

lemma set_sort_strings [simp]: "set (sort_strings xs) = set xs"
  by (induction xs) (auto simp: sort_strings_def)

lemma sorted_insert_string:
  "sorted_wrt (\<lambda>a b. \<not> str_less b a) ys \<Longrightarrow> sorted_wrt (\<lambda>a b. \<not> str_less b a) (insert_string x ys)"
proof (induction ys)
  case (Cons y ys)
  show ?case
  proof (cases "str_less y x")
    case True
    then have "\<not> str_less x y" using str_less_trans str_less_irrefl by blast
    with True Cons show ?thesis by auto
  next
    case False
    have "\<not> str_less z x" if "z \<in> set ys" for z
      using Cons.prems that False str_less_trans str_less_total
      by (metis list.set_intros(1) sorted_wrt.simps(2))
    with False Cons show ?thesis by auto
  qed
qed simp

lemma sorted_sort_strings: "sorted_wrt (\<lambda>a b. \<not> str_less b a) (sort_strings xs)"
  by (induction xs) (auto simp: sort_strings_def sorted_insert_string)

lemma length_insert_string [simp]: "length (insert_string x ys) = Suc (length ys)"
  by (induction ys) auto

lemma length_sort_strings [simp]: "length (sort_strings xs) = length xs"
  by (induction xs) (auto simp: sort_strings_def)

end
