(* ===== verification/Go_Time.thy ===== *)
theory Go_Time
  imports Prelude
begin

text \<open>
  Go's \<open>time\<close> package, as far as the scheduler uses it. An instant (\<open>time.Time\<close>) is the
  number of nanoseconds since Go's zero time, 1 January of year 1, 00:00 UTC, as an
  unbounded integer; the zero value of the type is \<open>0\<close>. A \<open>time.Duration\<close> is an int64
  number of nanoseconds, an \<open>int\<close> here whose arithmetic the models wrap with \<open>wrap64\<close>
  where it can overflow. A \<open>*time.Location\<close> is the function from an instant to its
  offset from UTC in seconds: the zone data base itself is not part of the program.
\<close>

type_synonym instant = int
type_synonym duration = int
type_synonym location = "instant \<Rightarrow> int"

abbreviation (input) Nanosecond :: duration where "Nanosecond \<equiv> 1"
abbreviation (input) Millisecond :: duration where "Millisecond \<equiv> 1000000"
abbreviation (input) Second :: duration where "Second \<equiv> 1000000000"
abbreviation (input) Minute :: duration where "Minute \<equiv> 60000000000"
abbreviation (input) Hour :: duration where "Hour \<equiv> 3600000000000"
abbreviation (input) Day :: duration where "Day \<equiv> 86400000000000"

definition UTC :: location where
  "UTC = (\<lambda>_. 0)"

definition IsZero :: "instant \<Rightarrow> bool" where
  "IsZero t = (t = 0)"

text \<open>\<open>t.Truncate(d)\<close> rounds down to a multiple of \<open>d\<close> since the zero time.\<close>

definition Truncate :: "instant \<Rightarrow> duration \<Rightarrow> instant" where
  "Truncate t d = (if d \<le> 0 then t else t - t mod d)"

section \<open>Wall clock\<close>

definition local_ns :: "location \<Rightarrow> instant \<Rightarrow> int" where
  "local_ns loc t = t + loc t * Second"

definition day_number :: "location \<Rightarrow> instant \<Rightarrow> int" where
  "day_number loc t = local_ns loc t div Day"

definition ns_of_day :: "location \<Rightarrow> instant \<Rightarrow> int" where
  "ns_of_day loc t = local_ns loc t mod Day"

definition hour_of :: "location \<Rightarrow> instant \<Rightarrow> int" where
  "hour_of loc t = ns_of_day loc t div Hour"

definition minute_of :: "location \<Rightarrow> instant \<Rightarrow> int" where
  "minute_of loc t = ns_of_day loc t div Minute mod 60"

definition second_of :: "location \<Rightarrow> instant \<Rightarrow> int" where
  "second_of loc t = ns_of_day loc t div Second mod 60"

definition nanosecond_of :: "location \<Rightarrow> instant \<Rightarrow> int" where
  "nanosecond_of loc t = ns_of_day loc t mod Second"

text \<open>\<open>time.Weekday\<close>: Sunday is 0. Day 0, 1 January of year 1, was a Monday.\<close>

datatype weekday = Sunday | Monday | Tuesday | Wednesday | Thursday | Friday | Saturday

fun weekday_num :: "weekday \<Rightarrow> int" where
  "weekday_num Sunday = 0"
| "weekday_num Monday = 1"
| "weekday_num Tuesday = 2"
| "weekday_num Wednesday = 3"
| "weekday_num Thursday = 4"
| "weekday_num Friday = 5"
| "weekday_num Saturday = 6"

definition weekday_of_num :: "int \<Rightarrow> weekday" where
  "weekday_of_num n =
     (if n = 0 then Sunday else if n = 1 then Monday else if n = 2 then Tuesday
      else if n = 3 then Wednesday else if n = 4 then Thursday else if n = 5 then Friday
      else Saturday)"

definition weekday_of_day :: "int \<Rightarrow> weekday" where
  "weekday_of_day d = weekday_of_num ((d + 1) mod 7)"

definition weekday_of :: "location \<Rightarrow> instant \<Rightarrow> weekday" where
  "weekday_of loc t = weekday_of_day (day_number loc t)"

section \<open>The Gregorian calendar\<close>

definition leap :: "int \<Rightarrow> bool" where
  "leap y = (4 dvd y \<and> (\<not> 100 dvd y \<or> 400 dvd y))"

definition month_days :: "bool \<Rightarrow> int list" where
  "month_days lp = [31, if lp then 29 else 28, 31, 30, 31, 30, 31, 31, 30, 31, 30, 31]"

definition days_before_year :: "int \<Rightarrow> int" where
  "days_before_year y =
     365 * (y - 1) + (y - 1) div 4 - (y - 1) div 100 + (y - 1) div 400"

definition days_before_month :: "bool \<Rightarrow> int \<Rightarrow> int" where
  "days_before_month lp m = sum_list (take (nat (m - 1)) (month_days lp))"

text \<open>The day number of a date; the day of the month may run past the month's end, as Go's \<open>time.Date\<close> allows.\<close>

definition days_of_civil :: "int \<Rightarrow> int \<Rightarrow> int \<Rightarrow> int" where
  "days_of_civil y m d = days_before_year y + days_before_month (leap y) m + d - 1"

text \<open>The year and the day within the year (from 0), by Go's cycles of 400, 100, 4 and 1 years.\<close>

definition year_yday :: "int \<Rightarrow> int \<times> int" where
  "year_yday d =
     (let n400 = d div 146097; d1 = d mod 146097;
          n100 = min 3 (d1 div 36524); d2 = d1 - 36524 * n100;
          n4 = d2 div 1461; d3 = d2 mod 1461;
          n1 = min 3 (d3 div 365); d4 = d3 - 365 * n1
      in (400 * n400 + 100 * n100 + 4 * n4 + n1 + 1, d4))"

fun month_day :: "int list \<Rightarrow> int \<Rightarrow> int \<Rightarrow> int \<times> int" where
  "month_day [] m d = (m, d + 1)"
| "month_day [l] m d = (m, d + 1)"
| "month_day (l # l' # ls) m d = (if d < l then (m, d + 1) else month_day (l' # ls) (m + 1) (d - l))"

definition civil_of_day :: "int \<Rightarrow> int \<times> int \<times> int" where
  "civil_of_day d = (let (y, yd) = year_yday d in (y, month_day (month_days (leap y)) 1 yd))"

definition month_of :: "location \<Rightarrow> instant \<Rightarrow> int" where
  "month_of loc t = fst (snd (civil_of_day (day_number loc t)))"

definition mday_of :: "location \<Rightarrow> instant \<Rightarrow> int" where
  "mday_of loc t = snd (snd (civil_of_day (day_number loc t)))"

text \<open>
  \<open>t.AddDate(years, 0, 0)\<close>: the same wall-clock date and time that many years later. Go
  converts the wall clock back to an instant with the offset in force at the wall-clock
  reading taken as UTC, corrected once by the offset at the resulting instant.
\<close>

definition from_local :: "location \<Rightarrow> int \<Rightarrow> instant" where
  "from_local loc w =
     (if loc w = 0 then w else w - loc (w - loc w * Second) * Second)"

definition AddYears :: "location \<Rightarrow> instant \<Rightarrow> int \<Rightarrow> instant" where
  "AddYears loc t n =
     (let (y, m, d) = civil_of_day (day_number loc t)
      in from_local loc (days_of_civil (y + n) m d * Day + ns_of_day loc t))"

section \<open>Facts about the clock\<close>

lemma Truncate_le: "Truncate t d \<le> t"
  by (simp add: Truncate_def)

lemma Truncate_gt: "0 < d \<Longrightarrow> t < Truncate t d + d"
proof -
  assume "0 < d"
  then have "t mod d < d" by (rule pos_mod_bound)
  with \<open>0 < d\<close> show ?thesis by (simp add: Truncate_def)
qed

lemma Truncate_dvd: "0 < d \<Longrightarrow> d dvd Truncate t d"
  by (simp add: Truncate_def minus_mod_eq_mult_div)

lemma ns_of_day_range [go_time]: "0 \<le> ns_of_day loc t \<and> ns_of_day loc t < Day"
  by (simp add: ns_of_day_def)

lemma local_ns_split: "local_ns loc t = day_number loc t * Day + ns_of_day loc t"
  by (simp add: day_number_def ns_of_day_def)

lemma tod_split [go_time]:
  "hour_of loc t * Hour + minute_of loc t * Minute + second_of loc t * Second + nanosecond_of loc t
   = ns_of_day loc t"
proof -
  define x where "x = ns_of_day loc t"
  have "x div Hour = x div Minute div 60" "x div Minute = x div Second div 60"
    using zdiv_zmult2_eq [of 60 x Minute] zdiv_zmult2_eq [of 60 x Second] by simp_all
  moreover have "x = x div Second * Second + x mod Second"
    "x div Second = x div Second div 60 * 60 + x div Second mod 60"
    "x div Minute = x div Minute div 60 * 60 + x div Minute mod 60"
    by simp_all
  ultimately show ?thesis
    unfolding hour_of_def minute_of_def second_of_def nanosecond_of_def x_def [symmetric]
    by linarith
qed

lemma hour_of_range [go_time]: "0 \<le> hour_of loc t \<and> hour_of loc t \<le> 23"
proof -
  have "ns_of_day loc t \<le> Day - 1" "0 \<le> ns_of_day loc t"
    using ns_of_day_range [of loc t] by linarith+
  then have "ns_of_day loc t div Hour \<le> (Day - 1) div Hour" "0 \<le> ns_of_day loc t div Hour"
    using zdiv_mono1 [of "ns_of_day loc t" "Day - 1" Hour] by (auto simp: pos_imp_zdiv_nonneg_iff)
  then show ?thesis by (simp add: hour_of_def)
qed

lemma minute_of_range [go_time]: "0 \<le> minute_of loc t \<and> minute_of loc t \<le> 59"
  using pos_mod_bound [of 60 "ns_of_day loc t div Minute"] by (simp add: minute_of_def)

lemma weekday_num_range [go_time]: "0 \<le> weekday_num d \<and> weekday_num d \<le> 6"
  by (cases d) auto

lemma weekday_num_of_num: "0 \<le> n \<Longrightarrow> n \<le> 6 \<Longrightarrow> weekday_num (weekday_of_num n) = n"
  by (auto simp: weekday_of_num_def)

section \<open>Facts about the calendar\<close>

lemma year_yday_parts:
  assumes "year_yday d = (y, yd)"
  obtains a b c e where
    "y = 400 * a + 100 * b + 4 * c + e + 1"
    "d = 146097 * a + 36524 * b + 1461 * c + 365 * e + yd"
    "0 \<le> b" "b \<le> 3" "0 \<le> c" "c \<le> 24" "0 \<le> e" "e \<le> 3" "0 \<le> yd"
    "yd \<le> 364 \<or> yd = 365 \<and> e = 3 \<and> (c \<noteq> 24 \<or> b = 3)"
proof -
  define d1 where "d1 = d mod 146097"
  define b where "b = min 3 (d1 div 36524)"
  define d2 where "d2 = d1 - 36524 * b"
  define c where "c = d2 div 1461"
  define d3 where "d3 = d2 mod 1461"
  define e where "e = min 3 (d3 div 365)"
  have d1: "0 \<le> d1" "d1 < 146097" "d = 146097 * (d div 146097) + d1"
    by (simp_all add: d1_def)
  have b: "0 \<le> b" "b \<le> 3" "0 \<le> d2" "d2 < 36524 \<or> b = 3 \<and> d2 \<le> 36524"
    using d1 unfolding b_def d2_def by (auto simp: min_def)
  have c0: "0 \<le> c" "d2 = 1461 * c + d3" "0 \<le> d3" "d3 < 1461"
    using b(3) by (simp_all add: c_def d3_def pos_imp_zdiv_nonneg_iff)
  have "d2 div 1461 \<le> 36524 div 1461"
    using b(4) by (intro zdiv_mono1) auto
  then have c24: "c \<le> 24" by (simp add: c_def)
  have c: "0 \<le> c" "c \<le> 24" "d2 = 1461 * c + d3" "0 \<le> d3" "d3 < 1461"
      "c = 24 \<longrightarrow> d3 < 1460 \<or> b = 3"
    using c0 c24 b(4) by linarith+
  have e: "0 \<le> e" "e \<le> 3" "0 \<le> d3 - 365 * e" "d3 - 365 * e \<le> 364 \<or> d3 = 1460 \<and> e = 3"
    using c(4,5) unfolding e_def by (auto simp: min_def)
  from assms have y: "y = 400 * (d div 146097) + 100 * b + 4 * c + e + 1"
    and yd: "yd = d3 - 365 * e"
    by (simp_all only: year_yday_def Let_def prod.inject flip: d1_def b_def d2_def c_def d3_def e_def)
  have d: "d = 146097 * (d div 146097) + 36524 * b + 1461 * c + 365 * e + yd"
    using d1(3) c(3) yd unfolding d2_def by linarith
  have "yd \<le> 364 \<or> yd = 365 \<and> e = 3 \<and> (c \<noteq> 24 \<or> b = 3)"
    using yd e c(6) by auto
  with e yd show thesis
    by (intro that [OF y d b(1,2) c(1,2) e(1,2)]) auto
qed

lemma days_before_year_parts:
  assumes "0 \<le> b" "b \<le> 3" "0 \<le> c" "c \<le> 24" "0 \<le> e" "e \<le> (3::int)"
  shows "days_before_year (400 * a + 100 * b + 4 * c + e + 1)
         = 146097 * a + 36524 * b + 1461 * c + 365 * e"
proof -
  have "(400 * a + 100 * b + 4 * c + e) div 4 = 100 * a + 25 * b + c"
    "(400 * a + 100 * b + 4 * c + e) div 100 = 4 * a + b"
    "(400 * a + 100 * b + 4 * c + e) div 400 = a"
    using assms
    by (intro int_div_pos_eq [of _ 4 _ e] int_div_pos_eq [of _ 100 _ "4 * c + e"]
        int_div_pos_eq [of _ 400 _ "100 * b + 4 * c + e"]; simp)+
  then show ?thesis by (simp add: days_before_year_def)
qed

lemma dvd_remainder: "0 < r \<Longrightarrow> r \<le> k \<Longrightarrow> k dvd k * q + r \<longleftrightarrow> r = (k::int)"
  by (auto simp: dvd_add_right_iff dest: zdvd_imp_le)

lemma leap_parts:
  assumes "0 \<le> b" "b \<le> 3" "0 \<le> c" "c \<le> 24" "0 \<le> e" "e \<le> (3::int)"
  shows "leap (400 * a + 100 * b + 4 * c + e + 1) \<longleftrightarrow> e = 3 \<and> (c \<noteq> 24 \<or> b = 3)"
proof -
  let ?y = "400 * a + 100 * b + 4 * c + e + 1"
  have "4 dvd ?y \<longleftrightarrow> e + 1 = 4"
    using dvd_remainder [of "e + 1" 4 "100 * a + 25 * b + c"] assms by (simp add: algebra_simps)
  moreover have "100 dvd ?y \<longleftrightarrow> 4 * c + e + 1 = 100"
    using dvd_remainder [of "4 * c + e + 1" 100 "4 * a + b"] assms by (simp add: algebra_simps)
  moreover have "400 dvd ?y \<longleftrightarrow> 100 * b + 4 * c + e + 1 = 400"
    using dvd_remainder [of "100 * b + 4 * c + e + 1" 400 a] assms by (simp add: algebra_simps)
  ultimately have "leap ?y \<longleftrightarrow>
      e + 1 = 4 \<and> (4 * c + e + 1 \<noteq> 100 \<or> 100 * b + 4 * c + e + 1 = 400)"
    by (simp add: leap_def)
  also have "\<dots> \<longleftrightarrow> e = 3 \<and> (c \<noteq> 24 \<or> b = 3)" using assms by auto
  finally show ?thesis .
qed

text \<open>The year and the day within it determine the day, and the day within the year is in range.\<close>

lemma year_yday_correct:
  assumes "year_yday d = (y, yd)"
  shows "days_before_year y + yd = d \<and> 0 \<le> yd \<and> yd < (if leap y then 366 else 365)"
  using assms
proof (rule year_yday_parts)
  fix a b c e
  assume y: "y = 400 * a + 100 * b + 4 * c + e + 1"
    and d: "d = 146097 * a + 36524 * b + 1461 * c + 365 * e + yd"
    and r: "0 \<le> b" "b \<le> 3" "0 \<le> c" "c \<le> 24" "0 \<le> e" "e \<le> 3" "0 \<le> yd"
    and yd: "yd \<le> 364 \<or> yd = 365 \<and> e = 3 \<and> (c \<noteq> 24 \<or> b = 3)"
  from r have "days_before_year y = 146097 * a + 36524 * b + 1461 * c + 365 * e"
    unfolding y by (intro days_before_year_parts)
  moreover from r have "leap y \<longleftrightarrow> e = 3 \<and> (c \<noteq> 24 \<or> b = 3)"
    unfolding y by (intro leap_parts)
  ultimately show ?thesis using d r yd by auto
qed

lemma month_days_cases:
  assumes "0 \<le> yd" "yd < (if lp then 366 else 365)"
    and "month_day (month_days lp) 1 yd = (m, md)"
  shows "1 \<le> m \<and> m \<le> 12 \<and> 1 \<le> md \<and> md \<le> 31 \<and> days_before_month lp m + md - 1 = yd"
  using assms by (cases lp) (auto simp: month_days_def days_before_month_def split: if_splits)

lemma civil_of_day_correct:
  assumes "civil_of_day d = (y, m, md)"
  shows "days_of_civil y m md = d \<and> 1 \<le> m \<and> m \<le> 12 \<and> 1 \<le> md \<and> md \<le> 31"
proof -
  from assms obtain yd where y: "year_yday d = (y, yd)"
    and md: "month_day (month_days (leap y)) 1 yd = (m, md)"
    by (auto simp: civil_of_day_def Let_def split: prod.splits)
  from year_yday_correct [OF y] have yd: "days_before_year y + yd = d" "0 \<le> yd"
      "yd < (if leap y then 366 else 365)"
    by auto
  from month_days_cases [OF yd(2,3) md] yd(1) show ?thesis
    by (auto simp: days_of_civil_def)
qed

lemma month_of_range [go_time]: "1 \<le> month_of loc t \<and> month_of loc t \<le> 12"
  using civil_of_day_correct by (auto simp: month_of_def) (metis prod.collapse)+

lemma mday_of_range [go_time]: "1 \<le> mday_of loc t \<and> mday_of loc t \<le> 31"
  using civil_of_day_correct by (auto simp: mday_of_def) (metis prod.collapse)+

end
