(* ===== verification/Core_Types.thy ===== *)
theory Core_Types
  imports Go_Strings Go_Time
begin

text \<open>
  The public data types of \<open>pkg/goxidized\<close>: targets, credentials with their redacting
  secrets, results, revisions, jobs, events (types.go, secrets.go) and the classified
  errors of errors.go. A Go string type with named constants is a datatype with one
  constructor per constant, the empty string where the code tests for it, and a
  function giving the text. Go maps from string to string are maps \<open>string \<rightharpoonup> string\<close>; a
  nil map reads as the empty one.
\<close>

section \<open>Targets\<close>

record Target =
  t_ID :: string
  t_Hostname :: string
  t_IPAddress :: string
  t_Port :: int
  t_Vendor :: string
  t_Group :: string
  t_Site :: string
  t_Role :: string
  t_Tags :: "string list"
  t_Metadata :: "string \<rightharpoonup> string"
  t_JumpHost :: string
  t_CredentialRef :: string
  t_Enabled :: bool
  t_TelnetEnabled :: bool

definition empty_target :: Target where
  "empty_target = \<lparr>t_ID = [], t_Hostname = [], t_IPAddress = [], t_Port = 0, t_Vendor = [],
     t_Group = [], t_Site = [], t_Role = [], t_Tags = [], t_Metadata = Map.empty,
     t_JumpHost = [], t_CredentialRef = [], t_Enabled = False, t_TelnetEnabled = False\<rparr>"

text \<open>\<open>net.JoinHostPort\<close> brackets a host with a colon or a zone.\<close>

definition JoinHostPort :: "string \<Rightarrow> string \<Rightarrow> string" where
  "JoinHostPort host port =
     (if CHR '':'' \<in> set host \<or> CHR ''%'' \<in> set host
      then ''['' @ host @ '']:'' @ port else host @ '':'' @ port)"

definition Address :: "Target \<Rightarrow> string" where
  "Address t =
     (if t_Port t = 0 then JoinHostPort (t_IPAddress t) ''22''
      else JoinHostPort (t_IPAddress t) (Itoa (t_Port t)))"

section \<open>Secrets\<close>

definition redactedMarker :: string where
  "redactedMarker = ''[REDACTED]''"

datatype SecretString = SecretString (ss_value: string)
datatype SecretBytes = SecretBytes (sb_value: string)

definition NewSecretString :: "string \<Rightarrow> SecretString" where
  "NewSecretString v = SecretString v"

definition SecretString_String :: "SecretString \<Rightarrow> string" where
  "SecretString_String s = redactedMarker"

definition SecretString_GoString :: "SecretString \<Rightarrow> string" where
  "SecretString_GoString s = redactedMarker"

definition SecretString_Reveal :: "SecretString \<Rightarrow> string" where
  "SecretString_Reveal s = ss_value s"

definition SecretString_IsZero :: "SecretString \<Rightarrow> bool" where
  "SecretString_IsZero s = (ss_value s = [])"

text \<open>\<open>json.Marshal\<close> of the marker, which needs no escaping, is the marker in double quotes.\<close>

definition SecretString_MarshalJSON :: "SecretString \<Rightarrow> string" where
  "SecretString_MarshalJSON s = CHR 0x22 # redactedMarker @ [CHR 0x22]"

definition NewSecretBytes :: "string \<Rightarrow> SecretBytes" where
  "NewSecretBytes v = SecretBytes v"

definition SecretBytes_String :: "SecretBytes \<Rightarrow> string" where
  "SecretBytes_String s = redactedMarker"

definition SecretBytes_GoString :: "SecretBytes \<Rightarrow> string" where
  "SecretBytes_GoString s = redactedMarker"

definition SecretBytes_Reveal :: "SecretBytes \<Rightarrow> string" where
  "SecretBytes_Reveal s = sb_value s"

definition SecretBytes_IsZero :: "SecretBytes \<Rightarrow> bool" where
  "SecretBytes_IsZero s = (length (sb_value s) = 0)"

definition SecretBytes_MarshalJSON :: "SecretBytes \<Rightarrow> string" where
  "SecretBytes_MarshalJSON s = CHR 0x22 # redactedMarker @ [CHR 0x22]"

record Credentials =
  c_Username :: string
  c_Password :: SecretString
  c_PrivateKeyPEM :: SecretBytes
  c_EnableSecret :: SecretString
  c_Source :: string
  c_AuthType :: string

section \<open>Results of a collection\<close>

record ConfigResult =
  cr_TargetID :: string
  cr_FetchedAt :: instant
  cr_RawConfig :: string
  cr_Metadata :: "string \<rightharpoonup> string"
  cr_DurationMS :: int

record RedactedConfig =
  rc_TargetID :: string
  rc_Content :: string

record RedactionReport =
  rr_SecretsFound :: int
  rr_Categories :: "string list"
  rr_Fingerprints :: "string \<rightharpoonup> string"

datatype RiskLevel = RiskNone | RiskLow | RiskMedium | RiskHigh | RiskCritical

record DiffResult =
  d_TargetID :: string
  d_FromRevision :: string
  d_ToRevision :: string
  d_UnifiedDiff :: string
  d_AddedLines :: int
  d_RemovedLines :: int
  d_Risk :: RiskLevel
  d_Categories :: "string set"
  d_RuleHits :: "string set"

record CommitMeta =
  cm_JobID :: string
  cm_Trigger :: string
  cm_Actor :: string
  cm_RulesetVersion :: string
  cm_RedactionReport :: RedactionReport
  cm_Risk :: "RiskLevel option" \<comment> \<open>\<open>None\<close> is Go's zero value, the empty string\<close>
  cm_DeviceMetadata :: "string \<rightharpoonup> string"
  cm_AdditionalTrails :: "string \<rightharpoonup> string"

record Revision =
  r_ID :: string
  r_TargetID :: string
  r_Shard :: string
  r_Path :: string
  r_ContentSHA256 :: string
  r_CommitSHA :: string
  r_ParentCommit :: string
  r_CreatedAt :: instant
  r_Changed :: bool
  r_CommitTrailers :: "string \<rightharpoonup> string"

definition empty_revision :: Revision where
  "empty_revision = \<lparr>r_ID = [], r_TargetID = [], r_Shard = [], r_Path = [], r_ContentSHA256 = [],
     r_CommitSHA = [], r_ParentCommit = [], r_CreatedAt = 0, r_Changed = False,
     r_CommitTrailers = Map.empty\<rparr>"

datatype ShardStrategy =
  ShardByRegion | ShardBySite | ShardByVendor | ShardByRole | ShardByHash | ShardOther string

fun strategy_text :: "ShardStrategy \<Rightarrow> string" where
  "strategy_text ShardByRegion = ''region''"
| "strategy_text ShardBySite = ''site''"
| "strategy_text ShardByVendor = ''vendor''"
| "strategy_text ShardByRole = ''role''"
| "strategy_text ShardByHash = ''hash''"
| "strategy_text (ShardOther s) = s"

section \<open>Jobs and events\<close>

datatype JobStatus =
    StatusUnset \<comment> \<open>Go's zero value, the empty string\<close>
  | StatusQueued | StatusLeased | StatusRunning | StatusSuccessNoChange | StatusSuccessChanged
  | StatusFailedConnect | StatusFailedAuth | StatusFailedPrivilege | StatusFailedCommand
  | StatusFailedTimeout | StatusFailedNormalization | StatusFailedRedaction | StatusFailedStorage
  | StatusFailedCredentialProvider | StatusSkippedDisabled | StatusSkippedBlackout
  | StatusSkippedCircuitOpen | StatusCancelled

fun status_text :: "JobStatus \<Rightarrow> string" where
  "status_text StatusUnset = []"
| "status_text StatusQueued = ''queued''"
| "status_text StatusLeased = ''leased''"
| "status_text StatusRunning = ''running''"
| "status_text StatusSuccessNoChange = ''success_no_change''"
| "status_text StatusSuccessChanged = ''success_changed''"
| "status_text StatusFailedConnect = ''failed_connect''"
| "status_text StatusFailedAuth = ''failed_auth''"
| "status_text StatusFailedPrivilege = ''failed_privilege''"
| "status_text StatusFailedCommand = ''failed_command''"
| "status_text StatusFailedTimeout = ''failed_timeout''"
| "status_text StatusFailedNormalization = ''failed_normalization''"
| "status_text StatusFailedRedaction = ''failed_redaction''"
| "status_text StatusFailedStorage = ''failed_storage''"
| "status_text StatusFailedCredentialProvider = ''failed_credential_provider''"
| "status_text StatusSkippedDisabled = ''skipped_disabled''"
| "status_text StatusSkippedBlackout = ''skipped_blackout''"
| "status_text StatusSkippedCircuitOpen = ''skipped_circuit_open''"
| "status_text StatusCancelled = ''cancelled''"

record Job =
  j_ID :: string
  j_TargetID :: string
  j_Group :: string
  j_Trigger :: string
  j_Actor :: string
  j_Status :: JobStatus
  j_Attempt :: int
  j_QueuedAt :: instant
  j_StartedAt :: instant
  j_UpdatedAt :: instant

datatype EventType =
  EventConfigChanged | EventBackupFailed | EventDeviceUnreachableChronic | EventDriverError
  | EventCredentialProviderError | EventStorageError | EventSchedulerDegraded
  | EventHighRiskDiffDetected

record Event =
  ev_Type :: EventType
  ev_TargetID :: string
  ev_Message :: string
  ev_Diff :: string
  ev_Timestamp :: instant

record AuditEvent =
  ae_ID :: string
  ae_ActorType :: string
  ae_ActorID :: string
  ae_Action :: string
  ae_TargetID :: string
  ae_CredentialRef :: string
  ae_JobID :: string
  ae_RequestID :: string
  ae_SourceIP :: string
  ae_Outcome :: string
  ae_Metadata :: "string \<rightharpoonup> string"
  ae_CreatedAt :: instant

section \<open>Errors\<close>

datatype FailureCategory =
  FailureConnect | FailureAuth | FailurePrivilege | FailureCommand | FailureTimeout
  | FailureNormalization | FailureRedaction | FailureStorage | FailureCredentialProvider

fun category_text :: "FailureCategory \<Rightarrow> string" where
  "category_text FailureConnect = ''failed_connect''"
| "category_text FailureAuth = ''failed_auth''"
| "category_text FailurePrivilege = ''failed_privilege''"
| "category_text FailureCommand = ''failed_command''"
| "category_text FailureTimeout = ''failed_timeout''"
| "category_text FailureNormalization = ''failed_normalization''"
| "category_text FailureRedaction = ''failed_redaction''"
| "category_text FailureStorage = ''failed_storage''"
| "category_text FailureCredentialProvider = ''failed_credential_provider''"

text \<open>
  A non-nil \<open>error\<close>: the text and arguments of \<open>errors.New\<close> or \<open>fmt.Errorf\<close>, the same
  around a wrapped error (\<open>%w\<close>), a \<open>*BackupError\<close>, the result of \<open>errors.Join\<close>, and the
  two errors of a finished context. Formats keep the source's text; \<open>sprintf\<close> fills in
  the arguments in order.
\<close>

datatype go_error =
    Errorf string "string list"
  | Wrapf string "string list" go_error
  | BackupError (be_Category: FailureCategory) (be_Op: string) (be_Err: go_error)
  | Joined "go_error list"
  | Canceled
  | DeadlineExceeded

abbreviation (input) errors_New :: "string \<Rightarrow> go_error" where
  "errors_New txt \<equiv> Errorf txt []"

fun escape_char :: "char \<Rightarrow> string" where
  "escape_char c =
     (if c = CHR 0x22 then [CHR 0x5C, CHR 0x22]
      else if c = CHR 0x5C then [CHR 0x5C, CHR 0x5C]
      else if c = CHR 0x0A then [CHR 0x5C, CHR ''n'']
      else if c = CHR 0x0D then [CHR 0x5C, CHR ''r'']
      else if c = CHR 0x09 then [CHR 0x5C, CHR ''t'']
      else [c])"

definition quote_q :: "string \<Rightarrow> string" where
  "quote_q s = CHR 0x22 # concat (map escape_char s) @ [CHR 0x22]"

fun sprintf :: "string \<Rightarrow> string \<Rightarrow> string list \<Rightarrow> string" where
  "sprintf w [] as = []"
| "sprintf w [c] as = [c]"
| "sprintf w (c # v # f) as =
     (if c = CHR ''%'' then
        (if v = CHR ''w'' then w @ sprintf w f as
         else (case as of
                 [] \<Rightarrow> ''%!'' @ v # ''(MISSING)'' @ sprintf w f []
               | a # as' \<Rightarrow> (if v = CHR ''q'' then quote_q a else a) @ sprintf w f as'))
      else c # sprintf w (v # f) as)"

fun error_text :: "go_error \<Rightarrow> string" where
  "error_text (Errorf f as) = sprintf [] f as"
| "error_text (Wrapf f as e) = sprintf (error_text e) f as"
| "error_text (BackupError c op e) =
     (if op = [] then sprintf [] ''%s: %v'' [category_text c, error_text e]
      else sprintf [] ''%s %s: %v'' [category_text c, op, error_text e])"
| "error_text (Joined es) = Join (map error_text es) [CHR 0x0A]"
| "error_text Canceled = ''context canceled''"
| "error_text DeadlineExceeded = ''context deadline exceeded''"

text \<open>\<open>errors.As(err, &be)\<close>: the first \<open>*BackupError\<close> of the chain, depth first through joins.\<close>

fun as_backup :: "go_error \<Rightarrow> go_error option"
  and as_backup_list :: "go_error list \<Rightarrow> go_error option" where
  "as_backup (BackupError c op e) = Some (BackupError c op e)"
| "as_backup (Wrapf f as e) = as_backup e"
| "as_backup (Joined es) = as_backup_list es"
| "as_backup (Errorf f as) = None"
| "as_backup Canceled = None"
| "as_backup DeadlineExceeded = None"
| "as_backup_list [] = None"
| "as_backup_list (e # es) = (case as_backup e of Some b \<Rightarrow> Some b | None \<Rightarrow> as_backup_list es)"

text \<open>\<open>errors.Is(err, target)\<close> for a target that is compared by identity.\<close>

fun error_is :: "go_error \<Rightarrow> go_error \<Rightarrow> bool" where
  "error_is (BackupError c op e) t = (BackupError c op e = t \<or> error_is e t)"
| "error_is (Wrapf f as e) t = (Wrapf f as e = t \<or> error_is e t)"
| "error_is (Joined es) t = (Joined es = t \<or> (\<exists>e\<in>set es. error_is e t))"
| "error_is (Errorf f as) t = (Errorf f as = t)"
| "error_is Canceled t = (Canceled = t)"
| "error_is DeadlineExceeded t = (DeadlineExceeded = t)"

definition ClassifyError :: "go_error \<Rightarrow> FailureCategory" where
  "ClassifyError err = (case as_backup err of Some be \<Rightarrow> be_Category be | None \<Rightarrow> FailureCommand)"

fun StatusForFailure :: "FailureCategory \<Rightarrow> JobStatus" where
  "StatusForFailure FailureConnect = StatusFailedConnect"
| "StatusForFailure FailureAuth = StatusFailedAuth"
| "StatusForFailure FailurePrivilege = StatusFailedPrivilege"
| "StatusForFailure FailureTimeout = StatusFailedTimeout"
| "StatusForFailure FailureNormalization = StatusFailedNormalization"
| "StatusForFailure FailureRedaction = StatusFailedRedaction"
| "StatusForFailure FailureStorage = StatusFailedStorage"
| "StatusForFailure FailureCredentialProvider = StatusFailedCredentialProvider"
| "StatusForFailure FailureCommand = StatusFailedCommand"

record JobResult =
  jr_JobID :: string
  jr_TargetID :: string
  jr_Status :: JobStatus
  jr_Attempt :: int
  jr_Err :: "go_error option"
  jr_ErrorText :: string
  jr_StartedAt :: instant
  jr_FinishedAt :: instant
  jr_Duration :: duration
  jr_RevisionID :: string

section \<open>Facts\<close>

lemma ClassifyError_Backup [simp]: "ClassifyError (BackupError c op e) = c"
  by (simp add: ClassifyError_def)

lemma ClassifyError_Wrapf [simp]: "ClassifyError (Wrapf f as e) = ClassifyError e"
  by (simp add: ClassifyError_def)

lemma status_text_inj: "status_text a = status_text b \<Longrightarrow> a = b"
  by (cases a; cases b; simp)

lemma status_of_category: "status_text (StatusForFailure c) = category_text c"
  by (cases c) auto

text \<open>No failure is ever recorded as a success, as queued or as running.\<close>

lemma StatusForFailure_failed:
  "StatusForFailure c \<in> {StatusFailedConnect, StatusFailedAuth, StatusFailedPrivilege,
     StatusFailedCommand, StatusFailedTimeout, StatusFailedNormalization, StatusFailedRedaction,
     StatusFailedStorage, StatusFailedCredentialProvider}"
  by (cases c) auto

end
