(* ===== verification/Cron.thy ===== *)
theory Cron
  imports Core_Types
begin

text \<open>
  The five-field cron expressions of \<open>internal/scheduler/schedule.go\<close> (parseCron,
  parseCronField, cronRange, cronValue, cronSpec.next, cronSpec.matches). A parsed field
  keeps the values in the order the code inserts them; only membership is ever tested.
  The loop that fills a field adds the step as an int64, so it is written with
  \<open>wrap64\<close> and fuel; \<open>cron_fuel\<close> is shown to suffice for every field of a cron line.
\<close>

record cronField =
  cf_values :: "int list"
  cf_wildcard :: bool

record cronSpec =
  cs_minute :: cronField
  cs_hour :: cronField
  cs_dom :: cronField
  cs_month :: cronField
  cs_dow :: cronField

definition monthAliases :: "(string \<times> int) list" where
  "monthAliases =
    [(''jan'', 1), (''january'', 1), (''feb'', 2), (''february'', 2), (''mar'', 3), (''march'', 3),
     (''apr'', 4), (''april'', 4), (''may'', 5), (''jun'', 6), (''june'', 6), (''jul'', 7),
     (''july'', 7), (''aug'', 8), (''august'', 8), (''sep'', 9), (''sept'', 9), (''september'', 9),
     (''oct'', 10), (''october'', 10), (''nov'', 11), (''november'', 11), (''dec'', 12),
     (''december'', 12)]"

definition weekdayNumberAliases :: "(string \<times> int) list" where
  "weekdayNumberAliases =
    [(''sun'', 0), (''sunday'', 0), (''mon'', 1), (''monday'', 1), (''tue'', 2), (''tues'', 2),
     (''tuesday'', 2), (''wed'', 3), (''wednesday'', 3), (''thu'', 4), (''thur'', 4),
     (''thurs'', 4), (''thursday'', 4), (''fri'', 5), (''friday'', 5), (''sat'', 6),
     (''saturday'', 6)]"

section \<open>Parsing\<close>

definition cronValue :: "string \<Rightarrow> (string \<times> int) list \<Rightarrow> go_error + int" where
  "cronValue raw aliases =
     (let key = ToLower (TrimSpace raw) in
      case map_of aliases key of
        Some value \<Rightarrow> Inr value
      | None \<Rightarrow> (case Atoi key of
                  None \<Rightarrow> Inl (Errorf ''invalid value %q'' [raw])
                | Some value \<Rightarrow> Inr value))"

definition cronRange :: "string \<Rightarrow> int \<Rightarrow> int \<Rightarrow> (string \<times> int) list \<Rightarrow> go_error + int \<times> int" where
  "cronRange raw mn mx aliases =
     (if raw = ''*'' \<or> raw = [] then Inr (mn, mx)
      else if CHR ''-'' \<in> set raw then
        (let parts = Split raw (CHR ''-'') in
         if length parts \<noteq> 2 then Inl (Errorf ''invalid range %q'' [raw])
         else res_bind (cronValue (parts ! 0) aliases) (\<lambda>start.
              res_bind (cronValue (parts ! 1) aliases) (\<lambda>end.
              if start > end then Inl (Errorf ''invalid descending range %q'' [raw])
              else if start < mn \<or> end > mx
              then Inl (Errorf ''range %q outside %d-%d'' [raw, Itoa mn, Itoa mx])
              else Inr (start, end))))
      else res_bind (cronValue raw aliases) (\<lambda>value.
           if value < mn \<or> value > mx
           then Inl (Errorf ''value %d outside %d-%d'' [Itoa value, Itoa mn, Itoa mx])
           else Inr (value, value)))"

text \<open>The step of one comma-separated part and what is left of the part.\<close>

definition cronStep :: "string \<Rightarrow> go_error + string \<times> int" where
  "cronStep part =
     (let stepParts = Split part (CHR ''/'') in
      if length stepParts = 2 then
        (case Atoi (stepParts ! 1) of
           None \<Rightarrow> Inl (Errorf ''invalid step %q'' [stepParts ! 1])
         | Some parsed \<Rightarrow>
             if parsed \<le> 0 then Inl (Errorf ''invalid step %q'' [stepParts ! 1])
             else Inr (stepParts ! 0, parsed))
      else if CHR ''/'' \<in> set part then Inl (Errorf ''invalid step expression %q'' [part])
      else Inr (part, 1))"

text \<open>
  \<open>for value := start; value <= end; value += step\<close>; \<open>None\<close> when the fuel runs out.
\<close>

fun cron_fill :: "nat \<Rightarrow> int \<Rightarrow> int \<Rightarrow> int \<Rightarrow> int \<Rightarrow> int list \<Rightarrow> int list option" where
  "cron_fill 0 v e step mx acc = None"
| "cron_fill (Suc fuel) v e step mx acc =
     (if v \<le> e
      then cron_fill fuel (wrap64 (v + step)) e step mx
             (acc @ [if mx = 7 \<and> v = 7 then 0 else v])
      else Some acc)"

definition cron_fuel :: nat where
  "cron_fuel = 130"

definition cron_diverges :: go_error where
  "cron_diverges = errors_New ''cron field loop did not finish''"

fun cron_parts :: "string list \<Rightarrow> int \<Rightarrow> int \<Rightarrow> (string \<times> int) list \<Rightarrow> int list \<Rightarrow> go_error + int list" where
  "cron_parts [] mn mx aliases acc = Inr acc"
| "cron_parts (p # ps) mn mx aliases acc =
     (let part = TrimSpace p in
      if part = [] then Inl (errors_New ''empty cron field part'')
      else res_bind (cronStep part) (\<lambda>(part', step).
           res_bind (cronRange part' mn mx aliases) (\<lambda>(start, end).
           case cron_fill cron_fuel start end step mx acc of
             None \<Rightarrow> Inl cron_diverges
           | Some acc' \<Rightarrow> cron_parts ps mn mx aliases acc')))"

definition parseCronField :: "string \<Rightarrow> int \<Rightarrow> int \<Rightarrow> (string \<times> int) list \<Rightarrow> go_error + cronField" where
  "parseCronField raw mn mx aliases =
     res_bind (cron_parts (Split raw (CHR '','')) mn mx aliases [])
       (\<lambda>vs. Inr \<lparr>cf_values = vs, cf_wildcard = (raw = ''*'')\<rparr>)"

definition with_prefix :: "string \<Rightarrow> go_error + 'a \<Rightarrow> go_error + 'a" where
  "with_prefix f r = (case r of Inl e \<Rightarrow> Inl (Wrapf f [] e) | Inr a \<Rightarrow> Inr a)"

definition parseCron :: "string \<Rightarrow> go_error + cronSpec" where
  "parseCron expr =
     (let fields = Fields expr in
      if length fields \<noteq> 5 then Inl (Errorf ''cron %q must have five fields'' [expr])
      else
        res_bind (with_prefix ''cron minute: %w'' (parseCronField (fields ! 0) 0 59 [])) (\<lambda>minute.
        res_bind (with_prefix ''cron hour: %w'' (parseCronField (fields ! 1) 0 23 [])) (\<lambda>hour.
        res_bind (with_prefix ''cron day-of-month: %w'' (parseCronField (fields ! 2) 1 31 [])) (\<lambda>dom.
        res_bind (with_prefix ''cron month: %w'' (parseCronField (fields ! 3) 1 12 monthAliases)) (\<lambda>month.
        res_bind (with_prefix ''cron day-of-week: %w'' (parseCronField (fields ! 4) 0 7 weekdayNumberAliases)) (\<lambda>dow.
        Inr \<lparr>cs_minute = minute, cs_hour = hour, cs_dom = dom, cs_month = month, cs_dow = dow\<rparr>))))))"

section \<open>Matching and the next instant\<close>

definition cronField_matches :: "cronField \<Rightarrow> int \<Rightarrow> bool" where
  "cronField_matches f value = (value \<in> set (cf_values f))"

definition cronSpec_matches :: "cronSpec \<Rightarrow> location \<Rightarrow> instant \<Rightarrow> bool" where
  "cronSpec_matches c loc t =
     (if \<not> cronField_matches (cs_minute c) (minute_of loc t)
         \<or> \<not> cronField_matches (cs_hour c) (hour_of loc t)
         \<or> \<not> cronField_matches (cs_month c) (month_of loc t) then False
      else let dom = cronField_matches (cs_dom c) (mday_of loc t);
               dow = cronField_matches (cs_dow c) (weekday_num (weekday_of loc t))
           in if \<not> cf_wildcard (cs_dom c) \<and> \<not> cf_wildcard (cs_dow c) then dom \<or> dow
              else dom \<and> dow)"

text \<open>The loop of \<open>next\<close>: the instants from \<open>next\<close> to the deadline, a minute apart.\<close>

function first_minute :: "(instant \<Rightarrow> bool) \<Rightarrow> instant \<Rightarrow> instant \<Rightarrow> instant option" where
  "first_minute P t deadline =
     (if t > deadline then None else if P t then Some t
      else first_minute P (t + Minute) deadline)"
  by pat_completeness auto
termination
  by (relation "measure (\<lambda>(P, t, deadline). nat (deadline + 1 - t))") auto

declare first_minute.simps [simp del]

definition cronSpec_next :: "cronSpec \<Rightarrow> instant \<Rightarrow> location \<Rightarrow> go_error + instant" where
  "cronSpec_next c after loc =
     (let next = Truncate after Minute + Minute; deadline = AddYears loc next 5 in
      case first_minute (cronSpec_matches c loc) next deadline of
        Some t \<Rightarrow> Inr t
      | None \<Rightarrow> Inl (errors_New ''no cron match found within five years''))"

section \<open>The loops\<close>

lemma minute_grid_step:
  "t \<le> v \<and> Minute dvd v - t \<longleftrightarrow> v = t \<or> t + Minute \<le> v \<and> Minute dvd v - (t + Minute)"
proof -
  have "t + Minute \<le> v" if "t \<le> v" "Minute dvd v - t" "v \<noteq> t"
    using zdvd_imp_le [OF that(2)] that by simp
  moreover have "Minute dvd v - t \<longleftrightarrow> Minute dvd v - (t + Minute)"
    using dvd_diff_left_iff [of Minute Minute "v - t"] by (simp add: algebra_simps)
  ultimately show ?thesis by auto
qed

lemma first_minute_cases:
  "case first_minute P t deadline of
     Some u \<Rightarrow> t \<le> u \<and> u \<le> deadline \<and> Minute dvd u - t \<and> P u
       \<and> (\<forall>v. t \<le> v \<and> v < u \<and> Minute dvd v - t \<longrightarrow> \<not> P v)
   | None \<Rightarrow> (\<forall>v. t \<le> v \<and> v \<le> deadline \<and> Minute dvd v - t \<longrightarrow> \<not> P v)"
proof (induction P t deadline rule: first_minute.induct)
  case (1 P t deadline)
  have grid: "v = t \<or> t + Minute \<le> v \<and> Minute dvd v - (t + Minute)"
    if "t \<le> v" "Minute dvd v - t" for v
    using minute_grid_step that by blast
  show ?case
  proof (cases "t > deadline \<or> P t")
    case True
    then show ?thesis by (subst first_minute.simps) auto
  next
    case False
    then have IH: "case first_minute P (t + Minute) deadline of
        Some u \<Rightarrow> t + Minute \<le> u \<and> u \<le> deadline \<and> Minute dvd u - (t + Minute) \<and> P u
          \<and> (\<forall>v. t + Minute \<le> v \<and> v < u \<and> Minute dvd v - (t + Minute) \<longrightarrow> \<not> P v)
      | None \<Rightarrow> (\<forall>v. t + Minute \<le> v \<and> v \<le> deadline \<and> Minute dvd v - (t + Minute) \<longrightarrow> \<not> P v)"
      using "1.IH" by simp
    from False have eq: "first_minute P t deadline = first_minute P (t + Minute) deadline"
      by (subst first_minute.simps) simp
    show ?thesis
    proof (cases "first_minute P (t + Minute) deadline")
      case None
      then have "\<not> P v" if "t \<le> v" "v \<le> deadline" "Minute dvd v - t" for v
        using IH False grid [OF that(1,3)] that by auto
      with None eq show ?thesis by auto
    next
      case (Some u)
      with IH have u: "t + Minute \<le> u" "u \<le> deadline" "Minute dvd u - (t + Minute)" "P u" by auto
      from u(3) have "Minute dvd u - (t + Minute) + Minute" by (rule dvd_add) simp
      then have "Minute dvd u - t" by (simp add: algebra_simps)
      moreover have "\<not> P v" if "t \<le> v" "v < u" "Minute dvd v - t" for v
        using IH Some False grid [OF that(1,3)] that by auto
      ultimately show ?thesis using u Some eq by auto
    qed
  qed
qed

lemma first_minute_Some:
  "first_minute P t deadline = Some u \<Longrightarrow>
     t \<le> u \<and> u \<le> deadline \<and> Minute dvd u - t \<and> P u
     \<and> (\<forall>v. t \<le> v \<and> v < u \<and> Minute dvd v - t \<longrightarrow> \<not> P v)"
  using first_minute_cases [where P = P and t = t and deadline = deadline] by simp

lemma first_minute_None:
  "first_minute P t deadline = None \<longleftrightarrow>
     (\<forall>v. t \<le> v \<and> v \<le> deadline \<and> Minute dvd v - t \<longrightarrow> \<not> P v)"
  using first_minute_cases [where P = P and t = t and deadline = deadline]
  by (cases "first_minute P t deadline") auto

text \<open>
  The filling loop finishes. Without overflow the value grows; with a step within 59 of
  the largest int64 two iterations lower the value by twice the distance, until it
  drops below that distance and the next addition leaves the range.
\<close>

lemma cron_fill_no_overflow:
  assumes "0 < step" "e + step < 2 ^ 63" "- (2 ^ 62) \<le> v"
    and "nat (e - v + 2) \<le> fuel" "0 < fuel"
  shows "\<exists>vs. cron_fill fuel v e step mx acc = Some vs"
  using assms
proof (induction fuel arbitrary: v acc)
  case (Suc fuel)
  show ?case
  proof (cases "v \<le> e")
    case True
    with Suc.prems have "wrap64 (v + step) = v + step" by (intro wrap64_id) auto
    moreover have "\<exists>vs. cron_fill fuel (v + step) e step mx acc' = Some vs" for acc'
      using Suc.prems True by (intro Suc.IH) linarith+
    ultimately show ?thesis using True by simp
  qed simp
qed simp

lemma cron_fill_overflow:
  assumes "1 \<le> k" "k \<le> 60" "- 60 \<le> v" "v \<le> 59" "e \<le> 59" "nat (v + 60) + 4 \<le> fuel"
    and "- (2 ^ 63) + 200 \<le> e"
  shows "\<exists>vs. cron_fill fuel v e (2 ^ 63 - k) mx acc = Some vs"
  using assms
proof (induction fuel arbitrary: v acc rule: less_induct)
  case (less fuel)
  then have "3 \<le> fuel" by simp
  then obtain f2 where "fuel = 3 + f2" using le_Suc_ex by blast
  then have fuel: "fuel = Suc (Suc (Suc f2))" by simp
  show ?case
  proof (cases "v \<le> e")
    case False
    then show ?thesis by (simp add: fuel)
  next
    case True
    show ?thesis
    proof (cases "v < k")
      case True
      then have "wrap64 (v + (2 ^ 63 - k)) = v + (2 ^ 63 - k)"
        using less.prems by (intro wrap64_id) auto
      moreover have "\<not> v + (2 ^ 63 - k) \<le> e" using less.prems by simp
      ultimately show ?thesis using \<open>v \<le> e\<close> by (simp add: fuel)
    next
      case False
      have w1: "wrap64 (v + (2 ^ 63 - k)) = v - k - 2 ^ 63"
        using less.prems False by (simp add: wrap64_def)
      have w2: "wrap64 (v - k - 2 ^ 63 + (2 ^ 63 - k)) = v - 2 * k"
        using less.prems False by (subst wrap64_id) auto
      have "\<exists>vs. cron_fill (Suc f2) (v - 2 * k) e (2 ^ 63 - k) mx acc' = Some vs" for acc'
        using less.prems False fuel by (intro less.IH) auto
      moreover have "v - k - 2 ^ 63 \<le> e" using less.prems by simp
      ultimately show ?thesis using \<open>v \<le> e\<close> w1 w2 by (simp add: fuel)
    qed
  qed
qed

lemma cron_fill_terminates:
  assumes "0 < step" "step < 2 ^ 63" "0 \<le> v" "v \<le> e" "e \<le> 59"
  shows "\<exists>vs. cron_fill cron_fuel v e step mx acc = Some vs"
proof (cases "e + step < 2 ^ 63")
  case True
  then show ?thesis using assms by (intro cron_fill_no_overflow) (auto simp: cron_fuel_def)
next
  case False
  define k where "k = 2 ^ 63 - step"
  have "\<exists>vs. cron_fill cron_fuel v e (2 ^ 63 - k) mx acc = Some vs"
    using assms False by (intro cron_fill_overflow) (auto simp: k_def cron_fuel_def)
  then show ?thesis by (simp add: k_def)
qed

text \<open>Without overflow the values are the arithmetic progression from the start, 7 read as 0 on a day-of-week field.\<close>

definition progression :: "int \<Rightarrow> int \<Rightarrow> int \<Rightarrow> int set" where
  "progression s e step = {v. s \<le> v \<and> v \<le> e \<and> step dvd v - s}"

definition cron_norm :: "int \<Rightarrow> int \<Rightarrow> int" where
  "cron_norm mx v = (if mx = 7 \<and> v = 7 then 0 else v)"

lemma progression_step:
  assumes "0 < step" "s \<le> e"
  shows "progression s e step = insert s (progression (s + step) e step)"
proof -
  have "v = s \<or> s + step \<le> v \<and> step dvd v - (s + step)" if "s \<le> v" "step dvd v - s" for v
  proof (cases "v = s")
    case False
    with that have "0 < v - s" by simp
    with that(2) have "step \<le> v - s" by (rule zdvd_imp_le)
    moreover have "step dvd (v - s) - step" using that(2) by (rule dvd_diff) simp
    ultimately show ?thesis by (simp add: algebra_simps)
  qed simp
  moreover have "step dvd v - s" if "step dvd v - (s + step)" for v
    using dvd_add [OF that dvd_refl] by (simp add: algebra_simps)
  ultimately show ?thesis using assms by (auto simp: progression_def)
qed

lemma cron_fill_values:
  assumes "0 < step" "e + step < 2 ^ 63" "- (2 ^ 62) \<le> v"
    and "cron_fill fuel v e step mx acc = Some vs"
  shows "set vs = set acc \<union> cron_norm mx ` progression v e step"
  using assms
proof (induction fuel arbitrary: v acc)
  case (Suc fuel)
  show ?case
  proof (cases "v \<le> e")
    case True
    with Suc.prems have w: "wrap64 (v + step) = v + step" by (intro wrap64_id) auto
    from True w Suc.prems(4)
    have "cron_fill fuel (v + step) e step mx (acc @ [cron_norm mx v]) = Some vs"
      by (simp add: cron_norm_def)
    with Suc.prems
    have "set vs = set (acc @ [cron_norm mx v]) \<union> cron_norm mx ` progression (v + step) e step"
      by (intro Suc.IH) auto
    with progression_step [OF Suc.prems(1) True] show ?thesis by auto
  next
    case False
    with Suc.prems show ?thesis by (auto simp: progression_def)
  qed
qed simp

section \<open>What the parser accepts\<close>

lemma cronRange_bounds:
  assumes "cronRange raw mn mx al = Inr (s, e)" "mn \<le> mx"
  shows "mn \<le> s \<and> s \<le> e \<and> e \<le> mx"
  using assms by (auto simp: cronRange_def Let_def split: if_splits)

lemma cronStep_bounds:
  assumes "cronStep part = Inr (q, step)"
  shows "0 < step \<and> step < 2 ^ 63"
  using assms
  by (auto simp: cronStep_def Let_def split: if_splits option.splits dest: Atoi_range)

lemma cron_error_texts:
  "cronStep part \<noteq> Inl cron_diverges"
  "cronRange raw mn mx al \<noteq> Inl cron_diverges"
  "cronValue raw al \<noteq> Inl cron_diverges"
  by (auto simp: cronStep_def cronRange_def cronValue_def Let_def cron_diverges_def
      res_bind_Inl_iff split: if_splits option.splits)

lemma cron_parts_not_diverging:
  assumes "0 \<le> mn" "mn \<le> mx" "mx \<le> 59"
  shows "cron_parts ps mn mx al acc \<noteq> Inl cron_diverges"
proof (induction ps arbitrary: acc)
  case (Cons p ps)
  show ?case
  proof
    assume bad: "cron_parts (p # ps) mn mx al acc = Inl cron_diverges"
    then have "TrimSpace p \<noteq> []"
      by (auto simp: cron_diverges_def)
    with bad obtain q step s e where q: "cronStep (TrimSpace p) = Inr (q, step)"
      and r: "cronRange q mn mx al = Inr (s, e)"
      and f: "(case cron_fill cron_fuel s e step mx acc of None \<Rightarrow> Inl cron_diverges
               | Some acc' \<Rightarrow> cron_parts ps mn mx al acc') = Inl cron_diverges"
      by (auto simp: Let_def res_bind_Inl_iff cron_error_texts split: prod.splits)
    have "\<exists>vs. cron_fill cron_fuel s e step mx acc = Some vs"
      using cronStep_bounds [OF q] cronRange_bounds [OF r assms(2)] assms
      by (intro cron_fill_terminates) auto
    with f Cons.IH show False by auto
  qed
qed (simp add: cron_diverges_def)

lemma parseCronField_not_diverging:
  assumes "0 \<le> mn" "mn \<le> mx" "mx \<le> 59"
  shows "parseCronField raw mn mx al \<noteq> Inl cron_diverges"
  using cron_parts_not_diverging [OF assms] by (auto simp: parseCronField_def res_bind_Inl_iff)

text \<open>The values one comma-separated part stands for.\<close>

definition part_values :: "int \<Rightarrow> int \<Rightarrow> (string \<times> int) list \<Rightarrow> string \<Rightarrow> int set" where
  "part_values mn mx al p =
     (case cronStep (TrimSpace p) of
        Inl _ \<Rightarrow> {}
      | Inr (q, step) \<Rightarrow>
          (case cronRange q mn mx al of
             Inl _ \<Rightarrow> {}
           | Inr (s, e) \<Rightarrow> cron_norm mx ` progression s e step))"

definition small_step :: "string \<Rightarrow> bool" where
  "small_step p = (case cronStep (TrimSpace p) of Inl _ \<Rightarrow> True | Inr (q, step) \<Rightarrow> step \<le> 2 ^ 62)"

lemma cron_parts_values:
  assumes "0 \<le> mn" "mn \<le> mx" "mx \<le> 59" "\<forall>p\<in>set ps. small_step p"
    and "cron_parts ps mn mx al acc = Inr vs"
  shows "set vs = set acc \<union> (\<Union>p\<in>set ps. part_values mn mx al p)"
  using assms(4,5)
proof (induction ps arbitrary: acc)
  case (Cons p ps)
  from Cons.prems(2) obtain q step s e acc' where q: "cronStep (TrimSpace p) = Inr (q, step)"
    and r: "cronRange q mn mx al = Inr (s, e)"
    and f: "cron_fill cron_fuel s e step mx acc = Some acc'"
    and rest: "cron_parts ps mn mx al acc' = Inr vs"
    by (auto simp: Let_def split: prod.splits option.splits if_splits)
  have "set acc' = set acc \<union> cron_norm mx ` progression s e step"
    using cronStep_bounds [OF q] cronRange_bounds [OF r assms(2)] assms Cons.prems(1) q
    by (intro cron_fill_values [OF _ _ _ f]) (auto simp: small_step_def)
  moreover have "part_values mn mx al p = cron_norm mx ` progression s e step"
    by (simp add: part_values_def q r)
  moreover have "set vs = set acc' \<union> (\<Union>p\<in>set ps. part_values mn mx al p)"
    using Cons.prems(1) rest by (intro Cons.IH) auto
  ultimately show ?case by auto
qed simp

lemma star_values: "0 \<le> mn \<Longrightarrow> part_values mn mx al ''*'' = cron_norm mx ` {mn..mx}"
proof -
  have "TrimSpace ''*'' = ''*''" "cronStep ''*'' = Inr (''*'', 1)"
    by code_simp+
  then show ?thesis
    by (auto simp: part_values_def cronRange_def progression_def)
qed

lemma wildcard_full:
  assumes "0 \<le> mn" "mn \<le> mx" "mx \<le> 59" "parseCronField raw mn mx al = Inr f" "cf_wildcard f"
  shows "set (cf_values f) = cron_norm mx ` {mn..mx}"
proof -
  from assms(4,5) have raw: "raw = ''*''" and p: "cron_parts (Split raw (CHR '','')) mn mx al [] = Inr (cf_values f)"
    by (auto simp: parseCronField_def)
  have sp: "Split ''*'' (CHR '','') = [''*'']" "small_step ''*''" by code_simp+
  show ?thesis
    using cron_parts_values [OF assms(1-3) _ p] by (simp add: raw sp star_values assms)
qed

lemma parseCron_fields:
  assumes "parseCron expr = Inr c"
  obtains a b d e f where
    "parseCronField a 0 59 [] = Inr (cs_minute c)" "parseCronField b 0 23 [] = Inr (cs_hour c)"
    "parseCronField d 1 31 [] = Inr (cs_dom c)" "parseCronField e 1 12 monthAliases = Inr (cs_month c)"
    "parseCronField f 0 7 weekdayNumberAliases = Inr (cs_dow c)"
  using assms
  by (auto simp: parseCron_def Let_def with_prefix_def split: if_splits sum.splits)

section \<open>Properties\<close>

text \<open>
  C20: the next instant of a cron specification is the earliest whole minute strictly
  after the given instant at which the specification matches, and it lies within five
  calendar years; the search reports an error exactly when no whole minute of those
  five years matches.
\<close>

theorem cronSpec_next_earliest:
  "case cronSpec_next c after loc of
     Inr t \<Rightarrow> after < t \<and> Minute dvd t \<and> cronSpec_matches c loc t
       \<and> t \<le> AddYears loc (Truncate after Minute + Minute) 5
       \<and> (\<forall>u. after < u \<and> u < t \<and> Minute dvd u \<longrightarrow> \<not> cronSpec_matches c loc u)
   | Inl _ \<Rightarrow> (\<forall>u. after < u \<and> u \<le> AddYears loc (Truncate after Minute + Minute) 5 \<and> Minute dvd u
                \<longrightarrow> \<not> cronSpec_matches c loc u)"
proof -
  let ?s = "Truncate after Minute + Minute"
  have sd: "Minute dvd ?s" by (simp add: Truncate_dvd dvd_add)
  have gt: "after < ?s" using Truncate_gt [of Minute after] by simp
  have grid: "?s \<le> u \<and> Minute dvd u - ?s" if "after < u" "Minute dvd u" for u
  proof -
    have "Truncate after Minute < u" using Truncate_le [of after Minute] that(1) by simp
    moreover have "Minute dvd u - Truncate after Minute"
      using that(2) Truncate_dvd [of Minute after] by (simp add: dvd_diff)
    ultimately have "Minute \<le> u - Truncate after Minute" by (intro zdvd_imp_le) auto
    moreover have "Minute dvd u - ?s" using that(2) sd by (rule dvd_diff)
    ultimately show ?thesis by simp
  qed
  show ?thesis
  proof (cases "first_minute (cronSpec_matches c loc) ?s (AddYears loc ?s 5)")
    case None
    then have "\<not> cronSpec_matches c loc u" if "after < u" "u \<le> AddYears loc ?s 5" "Minute dvd u" for u
      using grid [OF that(1,3)] that(2) by (auto simp: first_minute_None)
    with None show ?thesis by (auto simp: cronSpec_next_def Let_def)
  next
    case (Some t)
    from first_minute_Some [OF Some] have t: "?s \<le> t" "Minute dvd t - ?s" by auto
    from dvd_add [OF t(2) sd] have "Minute dvd t" by simp
    with t first_minute_Some [OF Some] gt grid Some show ?thesis
      by (auto simp: cronSpec_next_def Let_def)
  qed
qed

definition every_minute :: cronSpec where
  "every_minute =
     (let f = (\<lambda>a b. \<lparr>cf_values = [a..b], cf_wildcard = True\<rparr>)
      in \<lparr>cs_minute = f 0 59, cs_hour = f 0 23, cs_dom = f 1 31, cs_month = f 1 12, cs_dow = f 0 6\<rparr>)"

theorem cronSpec_next_earliest_witness:
  "cronSpec_next every_minute 5 UTC = Inr Minute \<and> (5::int) < Minute
   \<and> cronSpec_matches every_minute UTC Minute"
proof -
  have eval: "cronSpec_next every_minute 5 UTC = Inr Minute"
    unfolding cronSpec_next_def Let_def
    by (subst first_minute.simps) code_simp
  from cronSpec_next_earliest [where c = every_minute and after = 5 and loc = UTC] show ?thesis
    unfolding eval by auto
qed

text \<open>
  Cron's day rule. For every parsed expression, a wildcard day-of-month or
  day-of-week field restricts nothing, two restricted day fields match when either one
  does, and minute, hour and month must always match.
\<close>

theorem cronSpec_matches_day_rule:
  assumes "parseCron expr = Inr c"
  shows "cronSpec_matches c loc t \<longleftrightarrow>
    cronField_matches (cs_minute c) (minute_of loc t) \<and> cronField_matches (cs_hour c) (hour_of loc t)
    \<and> cronField_matches (cs_month c) (month_of loc t)
    \<and> (if cf_wildcard (cs_dom c) \<and> cf_wildcard (cs_dow c) then True
       else if cf_wildcard (cs_dom c) then cronField_matches (cs_dow c) (weekday_num (weekday_of loc t))
       else if cf_wildcard (cs_dow c) then cronField_matches (cs_dom c) (mday_of loc t)
       else cronField_matches (cs_dom c) (mday_of loc t)
            \<or> cronField_matches (cs_dow c) (weekday_num (weekday_of loc t)))"
proof -
  from parseCron_fields [OF assms] obtain d f where
    dom: "parseCronField d 1 31 [] = Inr (cs_dom c)" and
    dow: "parseCronField f 0 7 weekdayNumberAliases = Inr (cs_dow c)" by metis
  have "cronField_matches (cs_dom c) (mday_of loc t)" if "cf_wildcard (cs_dom c)"
    using wildcard_full [OF _ _ _ dom that] mday_of_range [of loc t]
    by (auto simp: cronField_matches_def cron_norm_def)
  moreover have "cronField_matches (cs_dow c) (weekday_num (weekday_of loc t))"
    if "cf_wildcard (cs_dow c)"
  proof -
    have "weekday_num (weekday_of loc t) = cron_norm 7 (weekday_num (weekday_of loc t))"
      using weekday_num_range [of "weekday_of loc t"] by (auto simp: cron_norm_def)
    with wildcard_full [OF _ _ _ dow that] weekday_num_range [of "weekday_of loc t"]
    show ?thesis by (force simp: cronField_matches_def)
  qed
  ultimately show ?thesis by (auto simp: cronSpec_matches_def Let_def)
qed

definition monday_or_half_month :: cronSpec where
  "monday_or_half_month =
     (let f = (\<lambda>vs. \<lparr>cf_values = vs, cf_wildcard = False\<rparr>)
      in \<lparr>cs_minute = f [30], cs_hour = f [2], cs_dom = f [1, 15],
          cs_month = \<lparr>cf_values = [1..12], cf_wildcard = True\<rparr>, cs_dow = f [1]\<rparr>)"

text \<open>02:30 on day 7, a Monday, and on day 8, the ninth of January.\<close>

theorem cronSpec_matches_day_rule_witness:
  "parseCron ''30 2 1,15 * mon'' = Inr monday_or_half_month
   \<and> cronSpec_matches monday_or_half_month UTC 613800000000000
   \<and> \<not> cronSpec_matches monday_or_half_month UTC 700200000000000"
proof -
  have p: "parseCron ''30 2 1,15 * mon'' = Inr monday_or_half_month" by code_simp
  have f: "minute_of UTC 613800000000000 = 30" "hour_of UTC 613800000000000 = 2"
    "month_of UTC 613800000000000 = 1" "weekday_num (weekday_of UTC 613800000000000) = 1"
    "mday_of UTC 700200000000000 = 9" "weekday_num (weekday_of UTC 700200000000000) = 2"
    by code_simp+
  show ?thesis
    using p cronSpec_matches_day_rule [OF p, of UTC 613800000000000]
      cronSpec_matches_day_rule [OF p, of UTC 700200000000000]
    by (simp add: f monday_or_half_month_def Let_def cronField_matches_def)
qed

lemma cron_errors_plain:
  "cronStep part = Inl e \<Longrightarrow> \<exists>f as. e = Errorf f as"
  "cronValue raw al = Inl e \<Longrightarrow> \<exists>f as. e = Errorf f as"
  "cronRange raw mn mx al = Inl e \<Longrightarrow> \<exists>f as. e = Errorf f as"
  by (auto simp: cronStep_def cronRange_def cronValue_def Let_def res_bind_Inl_iff
      split: if_splits option.splits)

lemma cron_parts_errors_plain:
  "cron_parts ps mn mx al acc = Inl e \<Longrightarrow> \<exists>f as. e = Errorf f as"
proof (induction ps arbitrary: acc)
  case (Cons p ps)
  then show ?case
    by (auto simp: Let_def res_bind_Inl_iff cron_diverges_def dest: cron_errors_plain
        split: if_splits option.splits)
qed simp

lemma parseCronField_not_error:
  assumes "0 \<le> mn" "mn \<le> mx" "mx \<le> 59" "with_prefix g (parseCronField raw mn mx al) = Inl e"
  shows "\<not> error_is e cron_diverges"
proof -
  from assms(4) obtain e' where e: "e = Wrapf g [] e'" and f: "parseCronField raw mn mx al = Inl e'"
    by (auto simp: with_prefix_def split: sum.splits)
  then have "cron_parts (Split raw (CHR '','')) mn mx al [] = Inl e'"
    by (auto simp: parseCronField_def res_bind_Inl_iff)
  then obtain h as where "e' = Errorf h as" by (auto dest: cron_parts_errors_plain)
  with parseCronField_not_diverging [OF assms(1-3), of raw al] f e show ?thesis
    by (auto simp: cron_diverges_def)
qed

text \<open>
  C30: parsing a cron line always finishes: the loop that fills a field never runs out of
  its iteration bound, whatever step up to the largest int64 the line gives, so the
  divergence marker is never the error of a field.
\<close>

theorem parseCron_terminates:
  "case parseCron expr of Inl e \<Rightarrow> \<not> error_is e cron_diverges | Inr _ \<Rightarrow> True"
proof (cases "parseCron expr")
  case (Inl e)
  then have "\<not> error_is e cron_diverges"
    by (auto simp: parseCron_def Let_def res_bind_Inl_iff
        dest: parseCronField_not_error [rotated 3] split: if_splits)
       (auto simp: cron_diverges_def)
  with Inl show ?thesis by simp
qed simp

text \<open>
  A parsed field holds exactly the values its comma-separated parts stand for: part
  by part the arithmetic progression from the start of its range by its step, with 7
  read as Sunday's 0 in the day-of-week field. Steps beyond \<open>2 ^ 62\<close>, where the addition
  can overflow, are excluded.
\<close>

theorem parseCronField_values:
  assumes "0 \<le> mn" "mn \<le> mx" "mx \<le> 59" "\<forall>p\<in>set (Split raw (CHR '','')). small_step p"
    and "parseCronField raw mn mx al = Inr f"
  shows "set (cf_values f) = (\<Union>p\<in>set (Split raw (CHR '','')). part_values mn mx al p)"
  using cron_parts_values [OF assms(1-4)] assms(5) by (auto simp: parseCronField_def)

theorem parseCronField_values_witness:
  "\<exists>f. parseCronField ''10-20/5,7'' 0 59 [] = Inr f \<and> set (cf_values f) = {7, 10, 15, 20}
     \<and> set (cf_values f) = (\<Union>p\<in>set [''10-20/5'', ''7'']. part_values 0 59 [] p)"
proof -
  let ?f = "\<lparr>cf_values = [10, 15, 20, 7], cf_wildcard = False\<rparr>"
  have p: "parseCronField ''10-20/5,7'' 0 59 [] = Inr ?f" by code_simp
  have sp: "Split ''10-20/5,7'' (CHR '','') = [''10-20/5'', ''7'']" by code_simp
  have st: "\<forall>p\<in>set (Split ''10-20/5,7'' (CHR '','')). small_step p"
    unfolding sp by (simp, intro conjI; code_simp)
  have v: "set (cf_values ?f) = (\<Union>p\<in>set [''10-20/5'', ''7'']. part_values 0 59 [] p)"
    using parseCronField_values [OF _ _ _ st p] unfolding sp by simp
  show ?thesis
    using p v by (intro exI [of _ ?f]) auto
qed

text \<open>With a step within 59 of the largest int64 the addition wraps around and values outside the range of the part appear.\<close>

lemma parseCronField_step_overflow:
  "\<exists>f. parseCronField ''10-59/9223372036854775803'' 0 59 [] = Inr f \<and> 0 \<in> set (cf_values f)"
proof -
  have "parseCronField ''10-59/9223372036854775803'' 0 59 []
        = Inr \<lparr>cf_values = [10, - 9223372036854775803, 0], cf_wildcard = False\<rparr>"
    by code_simp
  then show ?thesis by simp
qed

end
