(* ===== verification/Schedule.thy ===== *)
theory Schedule
  imports Cron
begin

text \<open>
  The schedule planner of \<open>internal/scheduler/schedule.go\<close>: maintenance windows and
  blackouts with their selectors, the deterministic jitter, the parsers of clock and
  weekday values, and \<open>Planner\<close> with its base times and queue times.
\<close>

unbundle bit_operations_syntax

type_synonym JitterFunc = "string \<Rightarrow> duration \<Rightarrow> duration"

record ScheduleWindow =
  sw_Name :: string
  sw_Days :: "weekday list"
  sw_Start :: duration
  sw_End :: duration
  sw_Location :: "location option"
  sw_Groups :: "string list"
  sw_Sites :: "string list"
  sw_Vendors :: "string list"
  sw_Roles :: "string list"

record SchedulePolicy =
  sp_Interval :: duration
  sp_Cron :: string
  sp_Location :: "location option"
  sp_JitterPercent :: int
  sp_JitterMax :: duration
  sp_Jitter :: "JitterFunc option"
  sp_Windows :: "ScheduleWindow list"
  sp_Blackouts :: "ScheduleWindow list"

record ScheduleDecision =
  sd_BaseTime :: instant
  sd_JitteredTime :: instant
  sd_QueueAt :: instant
  sd_Jitter :: duration
  sd_DelayedByWindow :: bool
  sd_DelayedByBlackout :: bool

record Planner =
  p_policy :: SchedulePolicy
  p_cron :: "cronSpec option"
  p_loc :: location
  p_jitter :: JitterFunc

section \<open>Windows\<close>

fun matchesSelector :: "string list \<Rightarrow> string \<Rightarrow> bool" where
  "matchesSelector values got = (if values = [] then True else list_ex (\<lambda>value. value = got) values)"

definition appliesTo :: "ScheduleWindow \<Rightarrow> Target \<Rightarrow> bool" where
  "appliesTo w t =
     (matchesSelector (sw_Groups w) (t_Group t) \<and> matchesSelector (sw_Sites w) (t_Site t)
      \<and> matchesSelector (sw_Vendors w) (t_Vendor t) \<and> matchesSelector (sw_Roles w) (t_Role t))"

definition dayAllowed :: "ScheduleWindow \<Rightarrow> weekday \<Rightarrow> bool" where
  "dayAllowed w day = (if sw_Days w = [] then True else list_ex (\<lambda>allowed. allowed = day) (sw_Days w))"

definition previousWeekday :: "weekday \<Rightarrow> weekday" where
  "previousWeekday day = (if day = Sunday then Saturday else weekday_of_num (weekday_num day - 1))"

definition window_loc :: "ScheduleWindow \<Rightarrow> location" where
  "window_loc w = (case sw_Location w of None \<Rightarrow> UTC | Some l \<Rightarrow> l)"

definition Contains_window :: "ScheduleWindow \<Rightarrow> instant \<Rightarrow> bool" where
  "Contains_window w t =
     (let loc = window_loc w;
          tod = hour_of loc t * Hour + minute_of loc t * Minute + second_of loc t * Second
                + nanosecond_of loc t;
          day = weekday_of loc t
      in if sw_Start w = sw_End w then dayAllowed w day
         else if sw_Start w < sw_End w
         then dayAllowed w day \<and> tod \<ge> sw_Start w \<and> tod < sw_End w
         else if tod \<ge> sw_Start w then dayAllowed w day
         else if tod < sw_End w then dayAllowed w (previousWeekday day)
         else False)"

fun applicableWindows :: "ScheduleWindow list \<Rightarrow> Target \<Rightarrow> ScheduleWindow list" where
  "applicableWindows [] t = []"
| "applicableWindows (w # ws) t =
     (if appliesTo w t then w # applicableWindows ws t else applicableWindows ws t)"

definition allowedAt :: "instant \<Rightarrow> ScheduleWindow list \<Rightarrow> ScheduleWindow list \<Rightarrow> bool \<times> bool \<times> bool" where
  "allowedAt t windows blackouts =
     (if windows \<noteq> [] \<and> \<not> list_ex (\<lambda>w. Contains_window w t) windows then (False, True, False)
      else if list_ex (\<lambda>b. Contains_window b t) blackouts then (False, False, True)
      else (True, False, False))"

section \<open>Jitter\<close>

text \<open>\<open>hash/fnv\<close>'s 64-bit FNV-1a.\<close>

definition fnv64a :: "string \<Rightarrow> 64 word" where
  "fnv64a key = fold (\<lambda>c h. (h XOR of_nat (code c)) * 1099511628211) key 14695981039346656037"

definition DeterministicJitter :: "string \<Rightarrow> duration \<Rightarrow> duration" where
  "DeterministicJitter key mx = (if mx \<le> 0 then 0 else uint (fnv64a key) mod mx)"

section \<open>Clock and weekday values\<close>

definition ParseClock :: "string \<Rightarrow> go_error + duration" where
  "ParseClock value =
     (if TrimSpace value = [] then Inl (errors_New ''clock value is required'')
      else let parts = Split value (CHR '':'') in
        if length parts < 2 \<or> length parts > 3 then Inl (Errorf ''invalid clock value %q'' [value])
        else case Atoi (parts ! 0) of
          None \<Rightarrow> Inl (Errorf ''invalid hour in %q'' [value])
        | Some hour \<Rightarrow>
        (case Atoi (parts ! 1) of
          None \<Rightarrow> Inl (Errorf ''invalid minute in %q'' [value])
        | Some minute \<Rightarrow>
        (case (if length parts = 3 then Atoi (parts ! 2) else Some 0) of
          None \<Rightarrow> Inl (Errorf ''invalid second in %q'' [value])
        | Some second \<Rightarrow>
          if hour < 0 \<or> hour > 24 \<or> minute < 0 \<or> minute > 59 \<or> second < 0 \<or> second > 59
          then Inl (Errorf ''invalid clock value %q'' [value])
          else if hour = 24 \<and> (minute \<noteq> 0 \<or> second \<noteq> 0)
          then Inl (Errorf ''invalid clock value %q'' [value])
          else Inr (hour * Hour + minute * Minute + second * Second))))"

definition weekdayAliases :: "(string \<times> weekday) list" where
  "weekdayAliases =
    [(''0'', Sunday), (''7'', Sunday), (''sun'', Sunday), (''sunday'', Sunday),
     (''1'', Monday), (''mon'', Monday), (''monday'', Monday),
     (''2'', Tuesday), (''tue'', Tuesday), (''tues'', Tuesday), (''tuesday'', Tuesday),
     (''3'', Wednesday), (''wed'', Wednesday), (''wednesday'', Wednesday),
     (''4'', Thursday), (''thu'', Thursday), (''thur'', Thursday), (''thurs'', Thursday),
     (''thursday'', Thursday), (''5'', Friday), (''fri'', Friday), (''friday'', Friday),
     (''6'', Saturday), (''sat'', Saturday), (''saturday'', Saturday)]"

fun dedupe_from :: "weekday list \<Rightarrow> weekday list \<Rightarrow> weekday list" where
  "dedupe_from seen [] = []"
| "dedupe_from seen (d # ds) =
     (if d \<in> set seen then dedupe_from seen ds else d # dedupe_from (d # seen) ds)"

definition dedupeWeekdays :: "weekday list \<Rightarrow> weekday list" where
  "dedupeWeekdays ds = dedupe_from [] ds"

fun parse_weekdays :: "string list \<Rightarrow> weekday list \<Rightarrow> go_error + weekday list" where
  "parse_weekdays [] out = Inr (dedupeWeekdays out)"
| "parse_weekdays (raw # rest) out =
     (let key = ToLower (TrimSpace raw) in
      if key \<in> {'''', ''*'', ''all'', ''daily'', ''everyday''} then Inr []
      else if key \<in> {''weekday'', ''weekdays''}
      then parse_weekdays rest (out @ [Monday, Tuesday, Wednesday, Thursday, Friday])
      else if key \<in> {''weekend'', ''weekends''} then parse_weekdays rest (out @ [Saturday, Sunday])
      else case map_of weekdayAliases key of
             None \<Rightarrow> Inl (Errorf ''invalid weekday %q'' [raw])
           | Some day \<Rightarrow> parse_weekdays rest (out @ [day]))"

definition ParseWeekdays :: "string list \<Rightarrow> go_error + weekday list" where
  "ParseWeekdays values = parse_weekdays values []"

section \<open>The planner\<close>

definition window_valid :: "ScheduleWindow \<Rightarrow> bool" where
  "window_valid w = (\<not> (sw_Start w < 0 \<or> sw_Start w \<ge> 24 * Hour \<or> sw_End w < 0 \<or> sw_End w > 24 * Hour))"

fun check_windows :: "ScheduleWindow list \<Rightarrow> go_error option" where
  "check_windows [] = None"
| "check_windows (w # ws) =
     (if window_valid w then check_windows ws
      else Some (Errorf ''schedule window %q has invalid start/end'' [sw_Name w]))"

definition NewPlanner :: "SchedulePolicy \<Rightarrow> go_error + Planner" where
  "NewPlanner policy =
     (let loc = (case sp_Location policy of None \<Rightarrow> UTC | Some l \<Rightarrow> l);
          jitter = (case sp_Jitter policy of None \<Rightarrow> DeterministicJitter | Some j \<Rightarrow> j)
      in res_bind (if TrimSpace (sp_Cron policy) \<noteq> []
                   then res_bind (parseCron (sp_Cron policy)) (\<lambda>spec. Inr (Some spec))
                   else Inr None) (\<lambda>cron.
         case check_windows (sp_Windows policy @ sp_Blackouts policy) of
           Some e \<Rightarrow> Inl e
         | None \<Rightarrow> Inr \<lparr>p_policy = policy, p_cron = cron, p_loc = loc, p_jitter = jitter\<rparr>))"

definition InitialBase :: "Planner \<Rightarrow> instant \<Rightarrow> go_error + instant" where
  "InitialBase p now =
     (case p_cron p of
        Some cron \<Rightarrow> cronSpec_next cron now (p_loc p)
      | None \<Rightarrow> if sp_Interval (p_policy p) \<le> 0
                then Inl (errors_New ''scheduler interval or cron is required'')
                else Inr now)"

definition NextBase :: "Planner \<Rightarrow> instant \<Rightarrow> go_error + instant" where
  "NextBase p after =
     (case p_cron p of
        Some cron \<Rightarrow> cronSpec_next cron after (p_loc p)
      | None \<Rightarrow> if sp_Interval (p_policy p) \<le> 0
                then Inl (errors_New ''scheduler interval or cron is required'')
                else Inr (after + sp_Interval (p_policy p)))"

definition maxJitter :: "Planner \<Rightarrow> duration" where
  "maxJitter p =
     (let pol = p_policy p in
      if sp_JitterPercent pol \<le> 0 then 0
      else if sp_JitterMax pol > 0 then sp_JitterMax pol
      else if sp_Interval pol > 0 then go_div (wrap64 (sp_Interval pol * sp_JitterPercent pol)) 100
      else 0)"

text \<open>The loop of \<open>nextAllowed\<close>; \<open>None\<close> when the deadline has passed.\<close>

function next_allowed_loop ::
  "ScheduleWindow list \<Rightarrow> ScheduleWindow list \<Rightarrow> instant \<Rightarrow> instant \<Rightarrow> bool \<Rightarrow> bool \<Rightarrow> (instant \<times> bool \<times> bool) option" where
  "next_allowed_loop windows blackouts next deadline dw db =
     (if next > deadline then None
      else let (ok, wb, bb) = allowedAt next windows blackouts in
           if ok then Some (next, dw \<or> wb, db \<or> bb)
           else next_allowed_loop windows blackouts (next + Minute) deadline (dw \<or> wb) (db \<or> bb))"
  by pat_completeness auto
termination
  by (relation "measure (\<lambda>(w, b, next, deadline, dw, db). nat (deadline + 1 - next))") auto

declare next_allowed_loop.simps [simp del]

definition nextAllowed :: "Planner \<Rightarrow> instant \<Rightarrow> Target \<Rightarrow> go_error + instant \<times> bool \<times> bool" where
  "nextAllowed p candidate target =
     (let windows = applicableWindows (sp_Windows (p_policy p)) target;
          blackouts = applicableWindows (sp_Blackouts (p_policy p)) target;
          (ok, wb, bb) = allowedAt candidate windows blackouts
      in if ok then Inr (candidate, False, False)
         else let t0 = Truncate candidate Minute;
                  next = (if \<not> t0 > candidate then t0 + Minute else t0);
                  deadline = AddYears UTC candidate 1
              in case next_allowed_loop windows blackouts next deadline wb bb of
                   Some r \<Rightarrow> Inr r
                 | None \<Rightarrow> Inl (errors_New ''no allowed schedule window found within one year''))"

definition QueueTime :: "Planner \<Rightarrow> instant \<Rightarrow> Target \<Rightarrow> go_error + ScheduleDecision" where
  "QueueTime p base target =
     (let mj = maxJitter p;
          jitter = (if mj > 0 then
                      let j0 = p_jitter p (t_ID target) mj;
                          j1 = (if j0 < 0 then 0 else j0)
                      in if j1 > mj then mj else j1
                    else 0);
          jittered = base + jitter
      in res_bind (nextAllowed p jittered target) (\<lambda>(queueAt, dw, db).
           Inr \<lparr>sd_BaseTime = base, sd_JitteredTime = jittered, sd_QueueAt = queueAt,
                sd_Jitter = jitter, sd_DelayedByWindow = dw, sd_DelayedByBlackout = db\<rparr>))"

section \<open>Facts about windows\<close>

lemma previousWeekday_of_day: "previousWeekday (weekday_of_day d) = weekday_of_day (d - 1)"
proof -
  define r where "r = d mod 7"
  have r: "0 \<le> r" "r < 7" by (simp_all add: r_def)
  have "weekday_of_day d = weekday_of_num ((r + 1) mod 7)"
    unfolding weekday_of_day_def r_def by (simp only: mod_add_left_eq)
  moreover have "weekday_of_day (d - 1) = weekday_of_num r" by (simp add: weekday_of_day_def r_def)
  moreover have "previousWeekday (weekday_of_num ((r + 1) mod 7)) = weekday_of_num r"
  proof -
    have "r \<in> {0, 1, 2, 3, 4, 5, 6}" using r by auto
    then show ?thesis by (auto simp: previousWeekday_def weekday_of_num_def)
  qed
  ultimately show ?thesis by simp
qed

text \<open>
  The reading of a window: on every allowed day it opens at \<open>window_open\<close> after local
  midnight and closes before \<open>window_close\<close>, which lies in the next day when the end
  is not after the start; a window with equal ends is the whole day.
\<close>

definition window_open :: "ScheduleWindow \<Rightarrow> duration" where
  "window_open w = (if sw_Start w = sw_End w then 0 else sw_Start w)"

definition window_close :: "ScheduleWindow \<Rightarrow> duration" where
  "window_close w =
     (if sw_Start w = sw_End w then Day
      else if sw_Start w < sw_End w then sw_End w else sw_End w + Day)"

definition day_allowed_set :: "ScheduleWindow \<Rightarrow> int set" where
  "day_allowed_set w = {d. sw_Days w = [] \<or> weekday_of_day d \<in> set (sw_Days w)}"

lemma dayAllowed_iff: "dayAllowed w (weekday_of_day d) \<longleftrightarrow> d \<in> day_allowed_set w"
  by (auto simp: dayAllowed_def day_allowed_set_def list_ex_iff)

lemma Contains_window_by_day:
  "Contains_window w t =
     (let d = day_number (window_loc w) t; tod = ns_of_day (window_loc w) t
      in if sw_Start w = sw_End w then d \<in> day_allowed_set w
         else if sw_Start w < sw_End w then d \<in> day_allowed_set w \<and> sw_Start w \<le> tod \<and> tod < sw_End w
         else if sw_Start w \<le> tod then d \<in> day_allowed_set w
         else tod < sw_End w \<and> d - 1 \<in> day_allowed_set w)"
  by (auto simp: Contains_window_def Let_def tod_split weekday_of_def previousWeekday_of_day
      dayAllowed_iff)

lemma Contains_window_only_days:
  assumes "window_valid w" "window_open w \<le> d * Day + tod - k * Day" "d * Day + tod - k * Day < window_close w"
    and "0 \<le> tod" "tod < Day"
  shows "k = d \<or> k = d - 1"
proof -
  have "0 \<le> window_open w" "window_close w \<le> 2 * Day"
    using assms(1) by (auto simp: window_valid_def window_open_def window_close_def)
  with assms show ?thesis by linarith
qed

text \<open>
  C29: a window contains an instant exactly when some allowed local day has the instant's
  wall clock between the window's opening and closing, measured from that day's midnight:
  an overnight window (end not after start) belongs to the day it opens on, and equal
  ends are the whole day.
\<close>

theorem Contains_window_iff:
  assumes "window_valid w"
  shows "Contains_window w t \<longleftrightarrow>
    (\<exists>d\<in>day_allowed_set w. window_open w \<le> local_ns (window_loc w) t - d * Day
       \<and> local_ns (window_loc w) t - d * Day < window_close w)"
proof -
  define d where "d = day_number (window_loc w) t"
  define tod where "tod = ns_of_day (window_loc w) t"
  have tod: "0 \<le> tod" "tod < Day" using ns_of_day_range by (auto simp: tod_def)
  have "local_ns (window_loc w) t = d * Day + tod" by (simp add: d_def tod_def local_ns_split)
  moreover have "(\<exists>k\<in>day_allowed_set w. window_open w \<le> d * Day + tod - k * Day
        \<and> d * Day + tod - k * Day < window_close w) \<longleftrightarrow>
      d \<in> day_allowed_set w \<and> window_open w \<le> tod \<and> tod < window_close w
      \<or> d - 1 \<in> day_allowed_set w \<and> window_open w \<le> tod + Day \<and> tod + Day < window_close w"
    (is "?L \<longleftrightarrow> ?R")
  proof
    assume ?L
    then obtain k where k: "k \<in> day_allowed_set w" "window_open w \<le> d * Day + tod - k * Day"
      "d * Day + tod - k * Day < window_close w" by blast
    from Contains_window_only_days [OF assms k(2,3) tod] k show ?R
      by (elim disjE) (auto simp: algebra_simps)
  next
    assume ?R
    then show ?L
      by (elim disjE) (rule bexI [of _ d], simp, simp, rule bexI [of _ "d - 1"], simp_all add: algebra_simps)
  qed
  moreover have "Contains_window w t \<longleftrightarrow>
      d \<in> day_allowed_set w \<and> window_open w \<le> tod \<and> tod < window_close w
      \<or> d - 1 \<in> day_allowed_set w \<and> window_open w \<le> tod + Day \<and> tod + Day < window_close w"
    using assms tod
    by (auto simp: Contains_window_by_day Let_def window_valid_def window_open_def
        window_close_def simp flip: d_def tod_def)
  ultimately show ?thesis by simp
qed

text \<open>Windows open Friday 22:00 to 02:00 UTC (the days 5 and 4 are a Saturday and a Friday).\<close>

definition friday_night :: ScheduleWindow where
  "friday_night = \<lparr>sw_Name = ''friday night'', sw_Days = [Friday], sw_Start = 22 * Hour,
     sw_End = 2 * Hour, sw_Location = None, sw_Groups = [], sw_Sites = [], sw_Vendors = [],
     sw_Roles = []\<rparr>"

theorem Contains_window_iff_witness:
  "window_valid friday_night \<and> Contains_window friday_night (5 * Day + Hour)
   \<and> (\<exists>d\<in>day_allowed_set friday_night.
        window_open friday_night \<le> local_ns (window_loc friday_night) (5 * Day + Hour) - d * Day
        \<and> local_ns (window_loc friday_night) (5 * Day + Hour) - d * Day < window_close friday_night)"
proof -
  have v: "window_valid friday_night" by code_simp
  have c: "Contains_window friday_night (5 * Day + Hour)" by code_simp
  with v Contains_window_iff [OF v, of "5 * Day + Hour"] show ?thesis by blast
qed

section \<open>Facts about the planner\<close>

text \<open>When a target may run: what the planner looks for, without the search.\<close>

definition window_blocked :: "Planner \<Rightarrow> Target \<Rightarrow> instant \<Rightarrow> bool" where
  "window_blocked p tgt t =
     ((\<exists>w\<in>set (sp_Windows (p_policy p)). appliesTo w tgt)
      \<and> \<not> (\<exists>w\<in>set (sp_Windows (p_policy p)). appliesTo w tgt \<and> Contains_window w t))"

definition blacked_out :: "Planner \<Rightarrow> Target \<Rightarrow> instant \<Rightarrow> bool" where
  "blacked_out p tgt t = (\<exists>b\<in>set (sp_Blackouts (p_policy p)). appliesTo b tgt \<and> Contains_window b t)"

definition may_run :: "Planner \<Rightarrow> Target \<Rightarrow> instant \<Rightarrow> bool" where
  "may_run p tgt t = (\<not> window_blocked p tgt t \<and> \<not> blacked_out p tgt t)"

text \<open>The instants the planner considers for a jittered time: that time and the full minutes of the year after it.\<close>

definition queue_candidates :: "instant \<Rightarrow> instant set" where
  "queue_candidates t = insert t {v. t < v \<and> v \<le> AddYears UTC t 1 \<and> Minute dvd v}"

lemma applicableWindows_filter: "applicableWindows ws t = filter (\<lambda>w. appliesTo w t) ws"
  by (induction ws) auto

lemma allowedAt_planner:
  "allowedAt t (applicableWindows (sp_Windows (p_policy p)) tgt)
      (applicableWindows (sp_Blackouts (p_policy p)) tgt)
   = (may_run p tgt t, window_blocked p tgt t, \<not> window_blocked p tgt t \<and> blacked_out p tgt t)"
  by (auto simp: allowedAt_def applicableWindows_filter window_blocked_def blacked_out_def
      may_run_def list_ex_iff filter_empty_conv)

lemma next_allowed_loop_first_minute:
  assumes "\<And>t. allowedAt t ws bs = (P t, W t, B t)" "\<And>t. P t \<Longrightarrow> \<not> W t \<and> \<not> B t"
  shows "case next_allowed_loop ws bs n deadline dw db of
      None \<Rightarrow> first_minute P n deadline = None
    | Some (u, dw', db') \<Rightarrow> first_minute P n deadline = Some u
        \<and> (dw' \<longleftrightarrow> dw \<or> (\<exists>v. n \<le> v \<and> v < u \<and> Minute dvd v - n \<and> W v))
        \<and> (db' \<longleftrightarrow> db \<or> (\<exists>v. n \<le> v \<and> v < u \<and> Minute dvd v - n \<and> B v))"
proof (induction "nat (deadline + 1 - n)" arbitrary: n dw db rule: less_induct)
  case less
  show ?case
  proof (cases "n > deadline \<or> P n")
    case True
    with assms show ?thesis
      by (subst next_allowed_loop.simps, subst (1 2) first_minute.simps) auto
  next
    case False
    then have f: "first_minute P n deadline = first_minute P (n + Minute) deadline"
      by (subst first_minute.simps) simp
    from False assms(1)
    have l: "next_allowed_loop ws bs n deadline dw db
        = next_allowed_loop ws bs (n + Minute) deadline (dw \<or> W n) (db \<or> B n)"
      by (subst next_allowed_loop.simps) simp
    from False have m: "nat (deadline + 1 - (n + Minute)) < nat (deadline + 1 - n)" by simp
    show ?thesis
    proof (cases "next_allowed_loop ws bs n deadline dw db")
      case None
      with less [OF m, of "dw \<or> W n" "db \<or> B n"] l f show ?thesis by simp
    next
      case (Some r)
      obtain u dw' db' where r: "r = (u, dw', db')" by (cases r)
      with l Some have s: "next_allowed_loop ws bs (n + Minute) deadline (dw \<or> W n) (db \<or> B n)
          = Some (u, dw', db')" by simp
      from less [OF m, of "dw \<or> W n" "db \<or> B n", unfolded s]
      have u: "first_minute P (n + Minute) deadline = Some u"
        and dw: "dw' \<longleftrightarrow> (dw \<or> W n) \<or> (\<exists>v. n + Minute \<le> v \<and> v < u \<and> Minute dvd v - (n + Minute) \<and> W v)"
        and db: "db' \<longleftrightarrow> (db \<or> B n) \<or> (\<exists>v. n + Minute \<le> v \<and> v < u \<and> Minute dvd v - (n + Minute) \<and> B v)"
        by simp_all
      have "n < u" using first_minute_Some [OF u] by simp
      then have "(Q n \<or> (\<exists>v. n + Minute \<le> v \<and> v < u \<and> Minute dvd v - (n + Minute) \<and> Q v))
          \<longleftrightarrow> (\<exists>v. n \<le> v \<and> v < u \<and> Minute dvd v - n \<and> Q v)" for Q
        using minute_grid_step [of n] by (metis less_le_not_le linorder_linear diff_self dvd_0_right)
      with u dw db r Some f show ?thesis by auto
    qed
  qed
qed

lemma next_minute_grid:
  assumes "n = Truncate t Minute + Minute"
  shows "n \<le> v \<and> Minute dvd v - n \<longleftrightarrow> t < v \<and> Minute dvd v"
proof -
  have n: "t < n" "n \<le> t + Minute" "Minute dvd n"
    using Truncate_gt [of Minute t] Truncate_le [of t Minute] Truncate_dvd [of Minute t] assms
    by auto
  then have "Minute dvd v - n \<longleftrightarrow> Minute dvd v" by (simp add: dvd_diff_left_iff)
  moreover have "n \<le> v" if "t < v" "Minute dvd v"
  proof (rule ccontr)
    assume "\<not> n \<le> v"
    then have "0 < n - v" by simp
    moreover have "Minute dvd n - v" using n(3) that(2) by (rule dvd_diff)
    ultimately have "Minute \<le> n - v" by (rule zdvd_imp_le [rotated])
    with n that show False by linarith
  qed
  ultimately show ?thesis using n by auto
qed

text \<open>What \<open>nextAllowed\<close> finds: the earliest candidate at which the target may run.\<close>

lemma nextAllowed_spec:
  "case nextAllowed p t tgt of
     Inl e \<Rightarrow> e = errors_New ''no allowed schedule window found within one year''
       \<and> (\<forall>v\<in>queue_candidates t. \<not> may_run p tgt v)
   | Inr (u, dw, db) \<Rightarrow> u \<in> queue_candidates t \<and> may_run p tgt u
       \<and> (\<forall>v\<in>queue_candidates t. v < u \<longrightarrow> \<not> may_run p tgt v)
       \<and> (dw \<longleftrightarrow> (\<exists>v\<in>queue_candidates t. v < u \<and> window_blocked p tgt v))
       \<and> (db \<longleftrightarrow> (\<exists>v\<in>queue_candidates t. v < u \<and> \<not> window_blocked p tgt v \<and> blacked_out p tgt v))"
proof (cases "may_run p tgt t")
  case True
  then show ?thesis
    by (auto simp: nextAllowed_def Let_def allowedAt_planner queue_candidates_def)
next
  case False
  define n where "n = Truncate t Minute + Minute"
  define dl where "dl = AddYears UTC t 1"
  define W where "W = window_blocked p tgt"
  define B where "B v \<longleftrightarrow> \<not> window_blocked p tgt v \<and> blacked_out p tgt v" for v
  define ws where "ws = applicableWindows (sp_Windows (p_policy p)) tgt"
  define bs where "bs = applicableWindows (sp_Blackouts (p_policy p)) tgt"
  have al: "allowedAt v ws bs = (may_run p tgt v, W v, B v)" for v
    by (simp add: allowedAt_planner ws_def bs_def W_def B_def)
  have ex: "\<not> W v \<and> \<not> B v" if "may_run p tgt v" for v
    using that by (simp add: may_run_def W_def B_def)
  have "Truncate t Minute \<le> t" by (rule Truncate_le)
  with False have na: "nextAllowed p t tgt =
      (case next_allowed_loop ws bs n dl (W t) (B t) of Some r \<Rightarrow> Inr r
       | None \<Rightarrow> Inl (errors_New ''no allowed schedule window found within one year''))"
    unfolding nextAllowed_def
    by (simp add: Let_def al n_def [symmetric] dl_def [symmetric] flip: ws_def bs_def)
  note grid = next_minute_grid [OF n_def]
  note loop = next_allowed_loop_first_minute [of ws bs "may_run p tgt" W B n dl "W t" "B t", OF al ex]
  have cand: "v \<in> queue_candidates t \<longleftrightarrow> v = t \<or> v \<le> dl \<and> n \<le> v \<and> Minute dvd v - n" for v
    using grid [of v] by (auto simp: queue_candidates_def dl_def)
  show ?thesis
  proof (cases "next_allowed_loop ws bs n dl (W t) (B t)")
    case None
    with loop have "first_minute (may_run p tgt) n dl = None" by simp
    with False None na show ?thesis by (auto simp: cand first_minute_None)
  next
    case (Some r)
    obtain u dw db where r: "r = (u, dw, db)" by (cases r)
    from loop [unfolded Some r] have u: "first_minute (may_run p tgt) n dl = Some u"
      and dw: "dw \<longleftrightarrow> W t \<or> (\<exists>v. n \<le> v \<and> v < u \<and> Minute dvd v - n \<and> W v)"
      and db: "db \<longleftrightarrow> B t \<or> (\<exists>v. n \<le> v \<and> v < u \<and> Minute dvd v - n \<and> B v)"
      by simp_all
    note fm = first_minute_Some [OF u]
    with grid have tu: "t < u" by auto
    have "(Q t \<or> (\<exists>v. n \<le> v \<and> v < u \<and> Minute dvd v - n \<and> Q v))
        \<longleftrightarrow> (\<exists>v\<in>queue_candidates t. v < u \<and> Q v)" for Q
      using tu fm by (auto simp: cand)
    from this [of W] this [of B] dw db fm False Some r na show ?thesis
      by (auto simp: cand W_def B_def)
  qed
qed

lemma QueueTime_spec:
  "case QueueTime p base tgt of
     Inl e \<Rightarrow> e = errors_New ''no allowed schedule window found within one year''
       \<and> (\<exists>j. 0 \<le> j \<and> j \<le> max 0 (maxJitter p)
            \<and> (\<forall>v\<in>queue_candidates (base + j). \<not> may_run p tgt v))
   | Inr d \<Rightarrow> sd_BaseTime d = base \<and> 0 \<le> sd_Jitter d \<and> sd_Jitter d \<le> max 0 (maxJitter p)
       \<and> sd_JitteredTime d = base + sd_Jitter d
       \<and> sd_QueueAt d \<in> queue_candidates (sd_JitteredTime d) \<and> may_run p tgt (sd_QueueAt d)
       \<and> (\<forall>v\<in>queue_candidates (sd_JitteredTime d). v < sd_QueueAt d \<longrightarrow> \<not> may_run p tgt v)
       \<and> (sd_DelayedByWindow d \<longleftrightarrow>
            (\<exists>v\<in>queue_candidates (sd_JitteredTime d). v < sd_QueueAt d \<and> window_blocked p tgt v))
       \<and> (sd_DelayedByBlackout d \<longleftrightarrow>
            (\<exists>v\<in>queue_candidates (sd_JitteredTime d).
               v < sd_QueueAt d \<and> \<not> window_blocked p tgt v \<and> blacked_out p tgt v))"
proof -
  define j where "j = (if maxJitter p > 0 then
      let j0 = p_jitter p (t_ID tgt) (maxJitter p); j1 = (if j0 < 0 then 0 else j0)
      in if j1 > maxJitter p then maxJitter p else j1 else 0)"
  have j: "0 \<le> j" "j \<le> max 0 (maxJitter p)" by (auto simp: j_def Let_def)
  have q: "QueueTime p base tgt = res_bind (nextAllowed p (base + j) tgt) (\<lambda>(queueAt, dw, db).
      Inr \<lparr>sd_BaseTime = base, sd_JitteredTime = base + j, sd_QueueAt = queueAt,
           sd_Jitter = j, sd_DelayedByWindow = dw, sd_DelayedByBlackout = db\<rparr>)"
    by (simp add: QueueTime_def j_def Let_def)
  show ?thesis
  proof (cases "nextAllowed p (base + j) tgt")
    case (Inl e)
    with nextAllowed_spec [where p = p and t = "base + j" and tgt = tgt] j q show ?thesis by auto
  next
    case (Inr r)
    obtain u dw db where "r = (u, dw, db)" by (cases r)
    with Inr nextAllowed_spec [where p = p and t = "base + j" and tgt = tgt] j q show ?thesis by simp
  qed
qed

text \<open>
  C11: the queue time of a target is the earliest instant at or after its jittered time
  (that time itself, then the full minutes of one year) at which the target may run: in
  one of the windows that apply to it, if any do, and in none of its blackouts. The
  jitter is never negative and never above the policy's bound, the delay flags tell
  which kind of rule rejected an earlier instant, and the only error is that no instant
  of the year is allowed.
\<close>

theorem QueueTime_earliest_allowed:
  "case QueueTime p base tgt of
     Inl e \<Rightarrow> e = errors_New ''no allowed schedule window found within one year''
       \<and> (\<exists>j. 0 \<le> j \<and> j \<le> max 0 (maxJitter p)
            \<and> (\<forall>v\<in>queue_candidates (base + j). \<not> may_run p tgt v))
   | Inr d \<Rightarrow> sd_BaseTime d = base \<and> 0 \<le> sd_Jitter d \<and> sd_Jitter d \<le> max 0 (maxJitter p)
       \<and> sd_JitteredTime d = base + sd_Jitter d
       \<and> sd_QueueAt d \<in> queue_candidates (sd_JitteredTime d) \<and> may_run p tgt (sd_QueueAt d)
       \<and> (\<forall>v\<in>queue_candidates (sd_JitteredTime d). v < sd_QueueAt d \<longrightarrow> \<not> may_run p tgt v)
       \<and> (sd_DelayedByWindow d \<longleftrightarrow>
            (\<exists>v\<in>queue_candidates (sd_JitteredTime d). v < sd_QueueAt d \<and> window_blocked p tgt v))
       \<and> (sd_DelayedByBlackout d \<longleftrightarrow>
            (\<exists>v\<in>queue_candidates (sd_JitteredTime d).
               v < sd_QueueAt d \<and> \<not> window_blocked p tgt v \<and> blacked_out p tgt v))"
  by (rule QueueTime_spec)

definition night_planner :: Planner where
  "night_planner = \<lparr>p_policy = \<lparr>sp_Interval = Hour, sp_Cron = '''', sp_Location = None,
       sp_JitterPercent = 0, sp_JitterMax = 0, sp_Jitter = None, sp_Windows = [friday_night],
       sp_Blackouts = []\<rparr>,
     p_cron = None, p_loc = UTC, p_jitter = DeterministicJitter\<rparr>"

theorem QueueTime_earliest_allowed_witness:
  "\<exists>d. QueueTime night_planner (4 * Day + 22 * Hour - 90 * Second) empty_target = Inr d
     \<and> sd_QueueAt d = 4 * Day + 22 * Hour \<and> sd_DelayedByWindow d
     \<and> (\<forall>v\<in>queue_candidates (sd_JitteredTime d). v < sd_QueueAt d
          \<longrightarrow> \<not> may_run night_planner empty_target v)"
proof -
  let ?d = "\<lparr>sd_BaseTime = 4 * Day + 22 * Hour - 90 * Second,
     sd_JitteredTime = 4 * Day + 22 * Hour - 90 * Second, sd_QueueAt = 4 * Day + 22 * Hour,
     sd_Jitter = 0, sd_DelayedByWindow = True, sd_DelayedByBlackout = False\<rparr>"
  have "QueueTime night_planner (4 * Day + 22 * Hour - 90 * Second) empty_target = Inr ?d"
    by code_simp
  with QueueTime_earliest_allowed [where p = night_planner
      and base = "4 * Day + 22 * Hour - 90 * Second" and tgt = empty_target]
  show ?thesis by (intro exI [of _ ?d]) simp
qed

lemma DeterministicJitter_range: "0 < mx \<Longrightarrow> 0 \<le> DeterministicJitter k mx \<and> DeterministicJitter k mx < mx"
  by (simp add: DeterministicJitter_def)

text \<open> with the default jitter a target's delay depends only on its identifier, not on the
  base time, is below the bound and, when the bound is a percentage of the interval that
  an int64 can hold, below that share of the interval.
\<close>

theorem QueueTime_deterministic_jitter:
  assumes "NewPlanner pol = Inr p" "sp_Jitter pol = None"
    and "QueueTime p base tgt = Inr d" "QueueTime p base' tgt' = Inr d'" "t_ID tgt = t_ID tgt'"
    and "0 < sp_JitterPercent pol" "sp_JitterMax pol \<le> 0" "0 < sp_Interval pol"
    and "sp_Interval pol * sp_JitterPercent pol < 2 ^ 63"
  shows "sd_Jitter d = sd_Jitter d'
     \<and> 100 * sd_Jitter d \<le> sp_Interval pol * sp_JitterPercent pol"
proof -
  let ?x = "sp_Interval pol * sp_JitterPercent pol"
  from assms(1,2) have p: "p_policy p = pol" "p_jitter p = DeterministicJitter"
    by (auto simp: NewPlanner_def Let_def split: option.splits)
  have x0: "0 \<le> ?x" using assms(6,8) by simp
  with assms(9) have "wrap64 ?x = ?x" by (intro wrap64_id) auto
  with assms(6-8) x0 p have mj: "maxJitter p = ?x div 100"
    by (simp add: maxJitter_def Let_def go_div_nonneg)
  have j: "sd_Jitter e = DeterministicJitter (t_ID tg) (maxJitter p)"
    if "QueueTime p b tg = Inr e" for b tg e
  proof (cases "0 < maxJitter p")
    case True
    with that p DeterministicJitter_range [OF True, of "t_ID tg"] show ?thesis
      by (auto simp: QueueTime_def Let_def split: if_splits)
  next
    case False
    with that show ?thesis by (auto simp: QueueTime_def Let_def DeterministicJitter_def)
  qed
  have "DeterministicJitter (t_ID tgt) (maxJitter p) \<le> maxJitter p"
  proof (cases "0 < maxJitter p")
    case True
    from DeterministicJitter_range [OF True, of "t_ID tgt"] show ?thesis by simp
  next
    case False
    with x0 show ?thesis by (simp add: DeterministicJitter_def mj pos_imp_zdiv_nonneg_iff)
  qed
  then have "100 * DeterministicJitter (t_ID tgt) (maxJitter p) \<le> ?x" unfolding mj by linarith
  with j [OF assms(3)] j [OF assms(4)] assms(5) show ?thesis by simp
qed

definition jitter_policy :: SchedulePolicy where
  "jitter_policy = \<lparr>sp_Interval = Hour, sp_Cron = '''', sp_Location = None,
       sp_JitterPercent = 10, sp_JitterMax = 0, sp_Jitter = None, sp_Windows = [],
       sp_Blackouts = []\<rparr>"

definition jitter_planner :: Planner where
  "jitter_planner = \<lparr>p_policy = jitter_policy, p_cron = None, p_loc = UTC,
     p_jitter = DeterministicJitter\<rparr>"

definition jitter_decision :: "instant \<Rightarrow> ScheduleDecision" where
  "jitter_decision t = \<lparr>sd_BaseTime = t, sd_JitteredTime = t + 317986612680,
     sd_QueueAt = t + 317986612680, sd_Jitter = 317986612680, sd_DelayedByWindow = False,
     sd_DelayedByBlackout = False\<rparr>"

theorem QueueTime_deterministic_jitter_witness:
  "NewPlanner jitter_policy = Inr jitter_planner
   \<and> QueueTime jitter_planner 0 (empty_target\<lparr>t_ID := ''core-1''\<rparr>) = Inr (jitter_decision 0)
   \<and> QueueTime jitter_planner Day (empty_target\<lparr>t_ID := ''core-1''\<rparr>) = Inr (jitter_decision Day)
   \<and> 100 * sd_Jitter (jitter_decision 0) \<le> Hour * 10"
proof -
  have n: "NewPlanner jitter_policy = Inr jitter_planner"
    using TrimSpace_eq_Nil [of "[]"] by (simp add: NewPlanner_def jitter_policy_def jitter_planner_def)
  have q: "QueueTime jitter_planner 0 (empty_target\<lparr>t_ID := ''core-1''\<rparr>) = Inr (jitter_decision 0)"
    "QueueTime jitter_planner Day (empty_target\<lparr>t_ID := ''core-1''\<rparr>) = Inr (jitter_decision Day)"
    by code_simp+
  from QueueTime_deterministic_jitter [OF n _ q refl]
  have "100 * sd_Jitter (jitter_decision 0) \<le> Hour * 10" by (simp add: jitter_policy_def)
  with n q show ?thesis by blast
qed

lemma NextBase_spec:
  assumes "NextBase p after = Inr t" "InitialBase p now = Inr u"
  shows "after < t \<and> now \<le> u
    \<and> (case p_cron p of None \<Rightarrow> t = after + sp_Interval (p_policy p)
       | Some c \<Rightarrow> Minute dvd t \<and> cronSpec_matches c (p_loc p) t \<and> cronSpec_matches c (p_loc p) u)"
proof (cases "p_cron p")
  case None
  with assms show ?thesis by (auto simp: NextBase_def InitialBase_def split: if_splits)
next
  case (Some c)
  have later: "a < v \<and> Minute dvd v \<and> cronSpec_matches c (p_loc p) v"
    if "cronSpec_next c a (p_loc p) = Inr v" for a v
  proof -
    from that have "first_minute (cronSpec_matches c (p_loc p)) (Truncate a Minute + Minute)
        (AddYears (p_loc p) (Truncate a Minute + Minute) 5) = Some v"
      by (auto simp: cronSpec_next_def Let_def split: option.splits)
    from first_minute_Some [OF this] next_minute_grid [OF refl, of a v] show ?thesis by auto
  qed
  from Some assms show ?thesis
    using later [of after t] later [of now u] by (auto simp: NextBase_def InitialBase_def)
qed

text \<open>
  The schedule moves forward. A next base time is strictly later than the time it
  follows, by exactly the interval without a cron line and by at least the rest of the
  minute with one; an initial base is never in the past.
\<close>

theorem NextBase_progress:
  assumes "NextBase p after = Inr t" "InitialBase p now = Inr u"
  shows "after < t \<and> now \<le> u
    \<and> (case p_cron p of None \<Rightarrow> t = after + sp_Interval (p_policy p)
       | Some c \<Rightarrow> Minute dvd t \<and> cronSpec_matches c (p_loc p) t \<and> cronSpec_matches c (p_loc p) u)"
  using assms by (rule NextBase_spec)

theorem NextBase_progress_witness:
  "NextBase night_planner 5 = Inr (5 + Hour) \<and> InitialBase night_planner 5 = Inr 5
   \<and> (5::int) < 5 + Hour"
proof -
  have n: "NextBase night_planner 5 = Inr (5 + Hour)" "InitialBase night_planner 5 = Inr 5"
    by code_simp+
  from NextBase_progress [OF n] n show ?thesis by blast
qed

section \<open>Facts about the value parsers\<close>

text \<open>The text of a clock value, hours, minutes and seconds.\<close>

definition clock_text :: "duration \<Rightarrow> string" where
  "clock_text d =
     Join [Itoa (d div Hour), Itoa (d div Minute mod 60), Itoa (d div Second mod 60)] '':''"

lemma Itoa_no_colon: "0 \<le> i \<Longrightarrow> CHR '':'' \<notin> set (Itoa i)"
  using nat_digits_chars by (fastforce simp: Itoa_def is_digit_def code_def)

lemma clock_parts:
  assumes "0 \<le> d" "Second dvd d"
  shows "d = d div Hour * Hour + d div Minute mod 60 * Minute + d div Second mod 60 * Second"
proof -
  define s where "s = d div Second"
  have d: "d div Second = s" "d = Second * s"
    using dvd_mult_div_cancel [OF assms(2)] by (simp_all add: s_def)
  define q r u w where parts: "q = s div 60" "r = s mod 60" "u = q div 60" "w = q mod 60"
  have "d div Hour = d div Second div 60 div 60" "d div Minute = d div Second div 60"
    using zdiv_zmult2_eq [of 60 d Minute] zdiv_zmult2_eq [of 60 d Second] by simp_all
  then have "d div Hour = u" "d div Minute mod 60 = w" "d div Second mod 60 = r"
    by (simp_all only: d(1) parts)
  moreover have "s = q * 60 + r" "q = u * 60 + w" by (simp_all add: parts)
  then have "d = u * Hour + w * Minute + r * Second" unfolding d(2) by (simp add: algebra_simps)
  ultimately show ?thesis by (simp only:)
qed

text \<open>The range checks at the end of \<open>ParseClock\<close>.\<close>

definition clock_of :: "string \<Rightarrow> int \<Rightarrow> int \<Rightarrow> int \<Rightarrow> go_error + duration" where
  "clock_of value hour minute second =
     (if hour < 0 \<or> hour > 24 \<or> minute < 0 \<or> minute > 59 \<or> second < 0 \<or> second > 59
      then Inl (Errorf ''invalid clock value %q'' [value])
      else if hour = 24 \<and> (minute \<noteq> 0 \<or> second \<noteq> 0)
      then Inl (Errorf ''invalid clock value %q'' [value])
      else Inr (hour * Hour + minute * Minute + second * Second))"

lemma ParseClock_accepted:
  assumes "ParseClock v = Inr d"
  obtains h m s where "ParseClock v = clock_of v h m s"
proof -
  let ?parts = "Split v (CHR '':'')"
  from assms have t: "TrimSpace v \<noteq> []" "\<not> (length ?parts < 2 \<or> length ?parts > 3)"
    by (auto simp: ParseClock_def Let_def split: if_splits)
  with assms obtain h where h: "Atoi (?parts ! 0) = Some h"
    by (cases "Atoi (?parts ! 0)") (auto simp: ParseClock_def Let_def)
  with assms t obtain m where m: "Atoi (?parts ! 1) = Some m"
    by (cases "Atoi (?parts ! 1)") (auto simp: ParseClock_def Let_def)
  with assms t h obtain s where s: "(if length ?parts = 3 then Atoi (?parts ! 2) else Some 0) = Some s"
    by (cases "if length ?parts = 3 then Atoi (?parts ! 2) else Some 0")
       (simp_all add: ParseClock_def Let_def)
  show thesis
    by (rule that [of h m s]) (simp only: ParseClock_def Let_def t h m s clock_of_def if_False option.case)
qed

text \<open>
  A clock value that parses is a whole number of seconds between midnight and 24:00
  inclusive, and every such number of seconds is the value of its hours:minutes:seconds
  text, so the parser reaches every clock time and rejects everything else.
\<close>

theorem ParseClock_range_roundtrip:
  "(ParseClock v = Inr d \<longrightarrow> 0 \<le> d \<and> d \<le> 24 * Hour \<and> Second dvd d)
   \<and> (0 \<le> d \<and> d \<le> 24 * Hour \<and> Second dvd d \<longrightarrow> ParseClock (clock_text d) = Inr d)"
proof (intro conjI impI; (elim conjE)?)
  assume "ParseClock v = Inr d"
  moreover from this obtain h m s where "ParseClock v = clock_of v h m s"
    by (rule ParseClock_accepted)
  ultimately have "clock_of v h m s = Inr d" by simp
  then have d: "d = h * Hour + m * Minute + s * Second"
    and r: "0 \<le> h" "h \<le> 24" "0 \<le> m" "m \<le> 59" "0 \<le> s" "s \<le> 59" "h = 24 \<longrightarrow> m = 0 \<and> s = 0"
    by (simp_all add: clock_of_def split: if_splits)
  then show "0 \<le> d" "d \<le> 24 * Hour" by linarith+
  have "d = Second * (h * 3600 + m * 60 + s)" by (simp add: d)
  then show "Second dvd d" by (rule dvdI)
next
  assume d: "0 \<le> d" "d \<le> 24 * Hour" "Second dvd d"
  define h where "h = d div Hour"
  define m where "m = d div Minute mod 60"
  define s where "s = d div Second mod 60"
  have r: "0 \<le> h" "0 \<le> m" "m \<le> 59" "0 \<le> s" "s \<le> 59"
    using d(1) pos_mod_bound [of 60 "d div Minute"] pos_mod_bound [of 60 "d div Second"]
    by (auto simp: h_def m_def s_def pos_imp_zdiv_nonneg_iff)
  have eq: "d = h * Hour + m * Minute + s * Second"
    using clock_parts [OF d(1,3)] by (simp add: h_def m_def s_def)
  with d(2) r have h: "h \<le> 24" "h = 24 \<longrightarrow> m = 0 \<and> s = 0" by linarith+
  have sp: "Split (clock_text d) (CHR '':'') = [Itoa h, Itoa m, Itoa s]"
    unfolding clock_text_def h_def [symmetric] m_def [symmetric] s_def [symmetric]
    using r by (intro Split_Join) (auto simp: Itoa_no_colon)
  have "CHR '':'' \<in> set (clock_text d)" by (simp add: clock_text_def)
  then have "TrimSpace (clock_text d) \<noteq> []"
    by (auto simp: TrimSpace_eq_Nil intro!: bexI [of _ "CHR '':''"]) (simp add: is_space_def code_def)
  moreover have "Atoi (Itoa h) = Some h" "Atoi (Itoa m) = Some m" "Atoi (Itoa s) = Some s"
    using r h by (auto intro!: Atoi_Itoa)
  ultimately show "ParseClock (clock_text d) = Inr d"
    using r h sp by (simp add: ParseClock_def eq)
qed

theorem ParseClock_range_roundtrip_witness:
  "ParseClock ''22:30'' = Inr (22 * Hour + 30 * Minute)
   \<and> ParseClock (clock_text (22 * Hour + 30 * Minute)) = Inr (22 * Hour + 30 * Minute)
   \<and> clock_text (22 * Hour + 30 * Minute) = ''22:30:0''"
proof -
  have p: "ParseClock ''22:30'' = Inr (22 * Hour + 30 * Minute)" by code_simp
  have t: "clock_text (22 * Hour + 30 * Minute) = ''22:30:0''" by code_simp
  from ParseClock_range_roundtrip [where v = "''22:30''" and d = "22 * Hour + 30 * Minute"] p t
  show ?thesis by auto
qed

lemma dedupe_from_facts:
  "distinct (dedupe_from seen ds) \<and> set (dedupe_from seen ds) = set ds - set seen"
  by (induction ds arbitrary: seen) auto

text \<open>The days one entry of a day list names; \<open>None\<close> is every day.\<close>

definition day_entry :: "string \<Rightarrow> weekday set option" where
  "day_entry raw =
     (let key = ToLower (TrimSpace raw) in
      if key \<in> {'''', ''*'', ''all'', ''daily'', ''everyday''} then None
      else if key \<in> {''weekday'', ''weekdays''}
      then Some {Monday, Tuesday, Wednesday, Thursday, Friday}
      else if key \<in> {''weekend'', ''weekends''} then Some {Saturday, Sunday}
      else case map_of weekdayAliases key of None \<Rightarrow> Some {} | Some d \<Rightarrow> Some {d})"

lemma parse_weekdays_meaning:
  assumes "parse_weekdays vs out = Inr ds"
  shows "distinct ds \<and>
    (if None \<in> day_entry ` set vs then ds = []
     else set ds = set out \<union> (\<Union>v\<in>set vs. the (day_entry v)))"
  using assms
proof (induction vs arbitrary: out)
  case Nil
  then show ?case using dedupe_from_facts [of "[]" out] by (auto simp: dedupeWeekdays_def)
next
  case (Cons raw vs)
  show ?case
  proof (cases "day_entry raw")
    case None
    with Cons.prems show ?thesis
      by (auto simp: day_entry_def Let_def split: if_splits option.splits)
  next
    case (Some days)
    with Cons.prems obtain out' where "parse_weekdays vs out' = Inr ds" "set out' = set out \<union> days"
      by (auto simp: day_entry_def Let_def split: if_splits option.splits)
    from Cons.IH [OF this(1)] this(2) Some show ?thesis by (auto simp: image_iff)
  qed
qed

text \<open> parsing the days of a window gives each day once, the days its entries name; the
  empty list, which the window reads as every day, results when an entry means every day.
\<close>

theorem ParseWeekdays_meaning:
  assumes "ParseWeekdays vs = Inr ds"
  shows "distinct ds \<and>
    (if None \<in> day_entry ` set vs then ds = [] else set ds = (\<Union>v\<in>set vs. the (day_entry v)))"
  using parse_weekdays_meaning [of vs "[]" ds] assms by (simp add: ParseWeekdays_def)

theorem ParseWeekdays_meaning_witness:
  "ParseWeekdays [''weekend'', '' Sat'', ''mon''] = Inr [Saturday, Sunday, Monday]
   \<and> set [Saturday, Sunday, Monday]
     = (\<Union>v\<in>set [''weekend'', '' Sat'', ''mon'']. the (day_entry v))"
proof -
  have p: "ParseWeekdays [''weekend'', '' Sat'', ''mon''] = Inr [Saturday, Sunday, Monday]"
    by code_simp
  have n: "None \<notin> day_entry ` set [''weekend'', '' Sat'', ''mon'']" by code_simp
  from ParseWeekdays_meaning [OF p] n p show ?thesis by (simp only: if_False)
qed

end
