(* ===== verification/Lease_Store.thy ===== *)
theory Lease_Store
  imports Core_Types
begin

text \<open>
  Worker leases: \<open>WorkerLease\<close>, its validation and the \<open>LeaseStore\<close> interface of
  \<open>internal/scheduler/lease.go\<close>, the contract of that interface as a locale with the
  exclusion property every client relies on, and the PostgreSQL implementation of
  \<open>internal/metadata/postgres/store.go\<close>, whose three SQL statements are translated on a
  table keyed by the target, as an interpretation of the locale. The data base itself
  enters in two ways: a statement may fail before or after it took effect
  (\<open>db_outcome\<close>), and an instant is stored at the precision of the column (\<open>ts\<close>).
\<close>

record WorkerLease =
  wl_TargetID :: string
  wl_WorkerID :: string
  wl_JobID :: string
  wl_Now :: instant
  wl_ExpiresAt :: instant

definition lease_Validate :: "WorkerLease \<Rightarrow> go_error option" where
  "lease_Validate l =
     (if wl_TargetID l = [] then Some (errors_New ''lease target id is required'')
      else if wl_WorkerID l = [] then Some (errors_New ''lease worker id is required'')
      else if wl_JobID l = [] then Some (errors_New ''lease job id is required'')
      else if IsZero (wl_Now l) then Some (errors_New ''lease now is required'')
      else if IsZero (wl_ExpiresAt l) \<or> \<not> wl_ExpiresAt l > wl_Now l
      then Some (errors_New ''lease expires_at must be after now'')
      else None)"

text \<open>
  How a statement sent to the data base ends: normally, with an error before it took
  effect, or with an error (a lost connection) after it took effect.
\<close>

datatype db_outcome = DbOk | DbFailed go_error | DbLost go_error

text \<open>The interface, over the state \<open>'db\<close> of the store.\<close>

record 'db LeaseStore =
  ls_TryAcquireLease :: "db_outcome \<Rightarrow> WorkerLease \<Rightarrow> 'db \<Rightarrow> (bool \<times> go_error option) \<times> 'db"
  ls_RenewLease :: "db_outcome \<Rightarrow> WorkerLease \<Rightarrow> 'db \<Rightarrow> (bool \<times> go_error option) \<times> 'db"
  ls_ReleaseLease :: "db_outcome \<Rightarrow> WorkerLease \<Rightarrow> 'db \<Rightarrow> go_error option \<times> 'db"

section \<open>The PostgreSQL implementation\<close>

record lease_row =
  row_worker_id :: string
  row_job_id :: string
  row_expires_at :: instant
  row_updated_at :: instant

type_synonym lease_table = "string \<Rightarrow> lease_row option"

definition owns_row :: "WorkerLease \<Rightarrow> lease_row \<Rightarrow> bool" where
  "owns_row l r = (row_worker_id r = wl_WorkerID l \<and> row_job_id r = wl_JobID l)"

text \<open>The \<open>INSERT ... ON CONFLICT DO UPDATE ... WHERE ... RETURNING\<close>: whether a row is returned, and the table.\<close>

definition sql_upsert_lease :: "(instant \<Rightarrow> instant) \<Rightarrow> WorkerLease \<Rightarrow> lease_table \<Rightarrow> bool \<times> lease_table" where
  "sql_upsert_lease ts l tbl =
     (let row = \<lparr>row_worker_id = wl_WorkerID l, row_job_id = wl_JobID l,
                 row_expires_at = ts (wl_ExpiresAt l), row_updated_at = ts (wl_Now l)\<rparr>;
          granted = (case tbl (wl_TargetID l) of
                       None \<Rightarrow> True
                     | Some r \<Rightarrow> row_expires_at r \<le> ts (wl_Now l) \<or> owns_row l r)
      in (granted, if granted then tbl(wl_TargetID l := Some row) else tbl))"

definition sql_update_lease :: "(instant \<Rightarrow> instant) \<Rightarrow> WorkerLease \<Rightarrow> lease_table \<Rightarrow> nat \<times> lease_table" where
  "sql_update_lease ts l tbl =
     (case tbl (wl_TargetID l) of
        None \<Rightarrow> (0, tbl)
      | Some r \<Rightarrow>
          if owns_row l r \<and> row_expires_at r > ts (wl_Now l)
          then (1, tbl(wl_TargetID l := Some (r\<lparr>row_expires_at := ts (wl_ExpiresAt l),
                                                row_updated_at := ts (wl_Now l)\<rparr>)))
          else (0, tbl))"

definition sql_delete_lease :: "WorkerLease \<Rightarrow> lease_table \<Rightarrow> lease_table" where
  "sql_delete_lease l tbl =
     (case tbl (wl_TargetID l) of
        None \<Rightarrow> tbl
      | Some r \<Rightarrow> if owns_row l r then tbl(wl_TargetID l := None) else tbl)"

definition TryAcquireLease ::
  "(instant \<Rightarrow> instant) \<Rightarrow> db_outcome \<Rightarrow> WorkerLease \<Rightarrow> lease_table \<Rightarrow> (bool \<times> go_error option) \<times> lease_table" where
  "TryAcquireLease ts out l tbl =
     (case lease_Validate l of
        Some e \<Rightarrow> ((False, Some e), tbl)
      | None \<Rightarrow>
          (case out of
             DbFailed e \<Rightarrow> ((False, Some e), tbl)
           | DbLost e \<Rightarrow> ((False, Some e), snd (sql_upsert_lease ts l tbl))
           | DbOk \<Rightarrow> (let (granted, tbl') = sql_upsert_lease ts l tbl in ((granted, None), tbl'))))"

definition RenewLease ::
  "(instant \<Rightarrow> instant) \<Rightarrow> db_outcome \<Rightarrow> WorkerLease \<Rightarrow> lease_table \<Rightarrow> (bool \<times> go_error option) \<times> lease_table" where
  "RenewLease ts out l tbl =
     (case lease_Validate l of
        Some e \<Rightarrow> ((False, Some e), tbl)
      | None \<Rightarrow>
          (case out of
             DbFailed e \<Rightarrow> ((False, Some e), tbl)
           | DbLost e \<Rightarrow> ((False, Some e), snd (sql_update_lease ts l tbl))
           | DbOk \<Rightarrow> (let (n, tbl') = sql_update_lease ts l tbl in ((n = 1, None), tbl'))))"

definition ReleaseLease ::
  "db_outcome \<Rightarrow> WorkerLease \<Rightarrow> lease_table \<Rightarrow> go_error option \<times> lease_table" where
  "ReleaseLease out l tbl =
     (if wl_TargetID l = [] \<or> wl_WorkerID l = [] \<or> wl_JobID l = []
      then (Some (errors_New ''lease target id, worker id, and job id are required''), tbl)
      else case out of
             DbFailed e \<Rightarrow> (Some e, tbl)
           | DbLost e \<Rightarrow> (Some e, sql_delete_lease l tbl)
           | DbOk \<Rightarrow> (None, sql_delete_lease l tbl))"

definition pg_LeaseStore :: "(instant \<Rightarrow> instant) \<Rightarrow> lease_table LeaseStore" where
  "pg_LeaseStore ts = \<lparr>ls_TryAcquireLease = TryAcquireLease ts, ls_RenewLease = RenewLease ts,
     ls_ReleaseLease = ReleaseLease\<rparr>"

section \<open>The contract of a lease store\<close>

text \<open>
  \<open>holder db t\<close> is the worker, the job and the expiry recorded for the target, \<open>ts\<close> the
  instant as the store compares it. The laws: an operation concerns its own target only;
  nobody but the worker and job that hold an unexpired lease changes it; a granted
  lease is the recorded one; a refusal without an error means that somebody else holds it.
\<close>

datatype lease_op =
  OpAcquire db_outcome WorkerLease
| OpRenew db_outcome WorkerLease
| OpRelease db_outcome WorkerLease

fun op_lease :: "lease_op \<Rightarrow> WorkerLease" where
  "op_lease (OpAcquire out l) = l"
| "op_lease (OpRenew out l) = l"
| "op_lease (OpRelease out l) = l"

definition run_op :: "'db LeaseStore \<Rightarrow> lease_op \<Rightarrow> 'db \<Rightarrow> 'db" where
  "run_op S op db =
     (case op of
        OpAcquire out l \<Rightarrow> snd (ls_TryAcquireLease S out l db)
      | OpRenew out l \<Rightarrow> snd (ls_RenewLease S out l db)
      | OpRelease out l \<Rightarrow> snd (ls_ReleaseLease S out l db))"

text \<open>An operation of another worker or job, or of another target; an acquisition by it comes before the expiry.\<close>

definition foreign_op :: "(instant \<Rightarrow> instant) \<Rightarrow> string \<Rightarrow> string \<Rightarrow> string \<Rightarrow> instant \<Rightarrow> lease_op \<Rightarrow> bool" where
  "foreign_op ts t w j expiry op =
     (wl_TargetID (op_lease op) \<noteq> t
      \<or> (wl_WorkerID (op_lease op) \<noteq> w \<or> wl_JobID (op_lease op) \<noteq> j)
        \<and> (case op of OpAcquire out l \<Rightarrow> ts (wl_Now l) < expiry | _ \<Rightarrow> True))"

locale lease_contract =
  fixes S :: "'db LeaseStore"
    and holder :: "'db \<Rightarrow> string \<Rightarrow> (string \<times> string \<times> instant) option"
    and ts :: "instant \<Rightarrow> instant"
  assumes foreign_keeps:
      "holder db t = Some (w, j, e) \<Longrightarrow> foreign_op ts t w j e op \<Longrightarrow> holder (run_op S op db) t = Some (w, j, e)"
    and granted_held:
      "ls_TryAcquireLease S out l db = ((True, err), db') \<Longrightarrow>
       holder db' (wl_TargetID l) = Some (wl_WorkerID l, wl_JobID l, ts (wl_ExpiresAt l))"
    and granted_free:
      "ls_TryAcquireLease S out l db = ((True, err), db') \<Longrightarrow>
       holder db (wl_TargetID l) = Some (w, j, e) \<Longrightarrow>
       e \<le> ts (wl_Now l) \<or> w = wl_WorkerID l \<and> j = wl_JobID l"
    and refused_held:
      "ls_TryAcquireLease S out l db = ((False, None), db') \<Longrightarrow>
       db' = db \<and> (\<exists>w j e. holder db (wl_TargetID l) = Some (w, j, e) \<and> ts (wl_Now l) < e
          \<and> (w \<noteq> wl_WorkerID l \<or> j \<noteq> wl_JobID l))"
    and renewed_held:
      "ls_RenewLease S out l db = ((True, err), db') \<Longrightarrow>
       holder db' (wl_TargetID l) = Some (wl_WorkerID l, wl_JobID l, ts (wl_ExpiresAt l))"
    and released_free:
      "ls_ReleaseLease S out l db = (None, db') \<Longrightarrow>
       holder db (wl_TargetID l) = Some (wl_WorkerID l, wl_JobID l, e) \<Longrightarrow>
       holder db' (wl_TargetID l) = None"
begin

lemma foreign_ops_keep:
  assumes "holder db t = Some (w, j, e)" "\<forall>op\<in>set ops. foreign_op ts t w j e op"
  shows "holder (fold (run_op S) ops db) t = Some (w, j, e)"
  using assms
proof (induction ops arbitrary: db)
  case (Cons op ops)
  then have "holder (run_op S op db) t = Some (w, j, e)" by (intro foreign_keeps) auto
  with Cons show ?case by auto
qed simp

lemma exclusion:
  assumes "ls_TryAcquireLease S out l db = ((True, err), db1)"
    and "\<forall>op\<in>set ops. foreign_op ts (wl_TargetID l) (wl_WorkerID l) (wl_JobID l) (ts (wl_ExpiresAt l)) op"
    and "ls_TryAcquireLease S out' l' (fold (run_op S) ops db1) = ((True, err'), db2)"
    and "wl_TargetID l' = wl_TargetID l" "wl_WorkerID l' \<noteq> wl_WorkerID l \<or> wl_JobID l' \<noteq> wl_JobID l"
  shows "ts (wl_ExpiresAt l) \<le> ts (wl_Now l')"
proof -
  from granted_held [OF assms(1)] assms(2)
  have "holder (fold (run_op S) ops db1) (wl_TargetID l)
      = Some (wl_WorkerID l, wl_JobID l, ts (wl_ExpiresAt l))"
    by (intro foreign_ops_keep)
  with granted_free [OF assms(3)] assms(4,5) show ?thesis by auto
qed

lemma reacquire_after_release:
  assumes "ls_TryAcquireLease S out l db = ((True, err), db1)"
    and "\<forall>op\<in>set ops. foreign_op ts (wl_TargetID l) (wl_WorkerID l) (wl_JobID l) (ts (wl_ExpiresAt l)) op"
    and "ls_ReleaseLease S out2 l (fold (run_op S) ops db1) = (None, db2)"
    and "wl_TargetID l' = wl_TargetID l"
    and "ls_TryAcquireLease S out3 l' db2 = ((ok, None), db3)"
  shows ok
proof (rule ccontr)
  from granted_held [OF assms(1)] assms(2)
  have "holder (fold (run_op S) ops db1) (wl_TargetID l)
      = Some (wl_WorkerID l, wl_JobID l, ts (wl_ExpiresAt l))"
    by (intro foreign_ops_keep)
  with released_free [OF assms(3)] have "holder db2 (wl_TargetID l) = None" by simp
  moreover assume "\<not> ok"
  with assms(5) have "ls_TryAcquireLease S out3 l' db2 = ((False, None), db3)" by simp
  from refused_held [OF this] assms(4) have "holder db2 (wl_TargetID l) \<noteq> None" by auto
  ultimately show False by simp
qed

end

section \<open>The PostgreSQL table keeps the contract\<close>

definition pg_holder :: "lease_table \<Rightarrow> string \<Rightarrow> (string \<times> string \<times> instant) option" where
  "pg_holder tbl t = map_option (\<lambda>r. (row_worker_id r, row_job_id r, row_expires_at r)) (tbl t)"

lemmas lease_sql = sql_upsert_lease_def sql_update_lease_def sql_delete_lease_def owns_row_def Let_def

lemmas lease_ops = TryAcquireLease_def RenewLease_def ReleaseLease_def

lemma pg_foreign_keeps:
  assumes "pg_holder tbl t = Some (w, j, e)" "foreign_op ts t w j e op"
  shows "pg_holder (run_op (pg_LeaseStore ts) op tbl) t = Some (w, j, e)"
  using assms
  by (cases op)
     (auto simp: run_op_def pg_LeaseStore_def lease_ops lease_sql pg_holder_def foreign_op_def
       split: option.splits db_outcome.splits if_splits)

interpretation pg_lease: lease_contract "pg_LeaseStore ts" pg_holder ts for ts
proof
  show "pg_holder (run_op (pg_LeaseStore ts) op db) t = Some (w, j, e)"
    if "pg_holder db t = Some (w, j, e)" "foreign_op ts t w j e op" for db t w j e op
    using that by (rule pg_foreign_keeps)
qed (auto simp: pg_LeaseStore_def lease_ops lease_sql pg_holder_def
      split: option.splits db_outcome.splits if_splits)

text \<open>
  C8: a granted lease excludes everybody else until it expires. After an acquisition was
  granted, whatever acquisitions, renewals and releases other workers and jobs send in
  between, with lost connections and failed statements among them, the next grant of the
  same target to another worker or job comes no earlier than the recorded expiry.
\<close>

theorem lease_exclusion:
  assumes "TryAcquireLease ts out l tbl = ((True, err), tbl1)"
    and "\<forall>op\<in>set ops. foreign_op ts (wl_TargetID l) (wl_WorkerID l) (wl_JobID l) (ts (wl_ExpiresAt l)) op"
    and "TryAcquireLease ts out' l' (fold (run_op (pg_LeaseStore ts)) ops tbl1) = ((True, err'), tbl2)"
    and "wl_TargetID l' = wl_TargetID l" "wl_WorkerID l' \<noteq> wl_WorkerID l \<or> wl_JobID l' \<noteq> wl_JobID l"
  shows "ts (wl_ExpiresAt l) \<le> ts (wl_Now l')"
  using pg_lease.exclusion [where ts = ts and out = out and l = l and ops = ops] assms
  by (simp add: pg_LeaseStore_def)

text \<open>Two workers, timestamps cut to microseconds.\<close>

definition pg_micro :: "instant \<Rightarrow> instant" where
  "pg_micro t = Truncate t 1000"

definition lease_of :: "string \<Rightarrow> string \<Rightarrow> instant \<Rightarrow> instant \<Rightarrow> WorkerLease" where
  "lease_of w j now expires =
     \<lparr>wl_TargetID = ''r1'', wl_WorkerID = w, wl_JobID = j, wl_Now = now, wl_ExpiresAt = expires\<rparr>"

definition contention :: "lease_op list" where
  "contention = [OpAcquire DbOk (lease_of ''b'' ''job-2'' 5000 15000),
     OpRelease DbOk (lease_of ''b'' ''job-2'' 5000 15000),
     OpAcquire (DbLost Canceled) (lease_of ''b'' ''job-3'' 9000 19000)]"

definition table_after_contention :: lease_table where
  "table_after_contention = fold (run_op (pg_LeaseStore pg_micro)) contention
     (snd (TryAcquireLease pg_micro DbOk (lease_of ''a'' ''job-1'' 1500 10900) (\<lambda>_. None)))"

theorem lease_exclusion_witness:
  "(\<exists>tbl1. TryAcquireLease pg_micro DbOk (lease_of ''a'' ''job-1'' 1500 10900) (\<lambda>_. None) = ((True, None), tbl1))
   \<and> (\<exists>tbl2. TryAcquireLease pg_micro DbOk (lease_of ''b'' ''job-4'' 10500 20500) table_after_contention
              = ((True, None), tbl2))
   \<and> pg_micro 10900 \<le> pg_micro 10500"
proof -
  let ?l = "lease_of ''a'' ''job-1'' 1500 10900"
  let ?l' = "lease_of ''b'' ''job-4'' 10500 20500"
  define t1 where "t1 = snd (TryAcquireLease pg_micro DbOk ?l (\<lambda>_. None))"
  have f1: "fst (TryAcquireLease pg_micro DbOk ?l (\<lambda>_. None)) = (True, None)" by code_simp
  then have a: "TryAcquireLease pg_micro DbOk ?l (\<lambda>_. None) = ((True, None), t1)"
    unfolding t1_def by (metis prod.collapse)
  have f2: "fst (TryAcquireLease pg_micro DbOk ?l' table_after_contention) = (True, None)" by code_simp
  define t2 where "t2 = snd (TryAcquireLease pg_micro DbOk ?l' table_after_contention)"
  have b: "TryAcquireLease pg_micro DbOk ?l' table_after_contention = ((True, None), t2)"
    unfolding t2_def using f2 by (metis prod.collapse)
  have f: "\<forall>op\<in>set contention. foreign_op pg_micro (wl_TargetID ?l) (wl_WorkerID ?l) (wl_JobID ?l)
      (pg_micro (wl_ExpiresAt ?l)) op" by code_simp
  have s: "table_after_contention = fold (run_op (pg_LeaseStore pg_micro)) contention t1"
    by (simp add: table_after_contention_def t1_def)
  have "pg_micro (wl_ExpiresAt ?l) \<le> pg_micro (wl_Now ?l')"
    by (rule lease_exclusion [OF a f b [unfolded s]]) (simp_all add: lease_of_def)
  then have "pg_micro 10900 \<le> pg_micro 10500" by (simp add: lease_of_def)
  with a b show ?thesis by blast
qed

text \<open>
  A release hands the target over. Once the holder has released its lease, an
  acquisition by anybody that reaches the data base is granted, however far away the
  released lease's expiry was.
\<close>

theorem lease_handover:
  assumes "TryAcquireLease ts out l tbl = ((True, err), tbl1)"
    and "\<forall>op\<in>set ops. foreign_op ts (wl_TargetID l) (wl_WorkerID l) (wl_JobID l) (ts (wl_ExpiresAt l)) op"
    and "ReleaseLease out2 l (fold (run_op (pg_LeaseStore ts)) ops tbl1) = (None, tbl2)"
    and "wl_TargetID l' = wl_TargetID l"
    and "TryAcquireLease ts out3 l' tbl2 = ((ok, None), tbl3)"
  shows "ok \<and> pg_holder tbl3 (wl_TargetID l) = Some (wl_WorkerID l', wl_JobID l', ts (wl_ExpiresAt l'))"
proof -
  have ok: ok
    using pg_lease.reacquire_after_release [where ts = ts and out = out and l = l and ops = ops] assms
    by (simp add: pg_LeaseStore_def)
  with assms(5) have "ls_TryAcquireLease (pg_LeaseStore ts) out3 l' tbl2 = ((True, None), tbl3)"
    by (simp add: pg_LeaseStore_def)
  from pg_lease.granted_held [OF this] ok assms(4) show ?thesis by simp
qed

theorem lease_handover_witness:
  "\<exists>tbl1 tbl2 tbl3.
     TryAcquireLease pg_micro DbOk (lease_of ''a'' ''job-1'' 1500 900000) (\<lambda>_. None) = ((True, None), tbl1)
     \<and> ReleaseLease DbOk (lease_of ''a'' ''job-1'' 1500 900000)
          (fold (run_op (pg_LeaseStore pg_micro)) contention tbl1) = (None, tbl2)
     \<and> TryAcquireLease pg_micro DbOk (lease_of ''b'' ''job-4'' 12000 20000) tbl2 = ((True, None), tbl3)
     \<and> pg_holder tbl3 ''r1'' = Some (''b'', ''job-4'', 20000)"
proof -
  let ?l = "lease_of ''a'' ''job-1'' 1500 900000"
  let ?l' = "lease_of ''b'' ''job-4'' 12000 20000"
  let ?T = "TryAcquireLease pg_micro DbOk ?l (\<lambda>_. None)"
  let ?R = "ReleaseLease DbOk ?l (fold (run_op (pg_LeaseStore pg_micro)) contention (snd ?T))"
  let ?A = "TryAcquireLease pg_micro DbOk ?l' (snd ?R)"
  have "fst ?T = (True, None)" "fst ?R = None" "fst ?A = (True, None)" by code_simp+
  then have s: "?T = ((True, None), snd ?T)" "?R = (None, snd ?R)" "?A = ((True, None), snd ?A)"
    by (metis prod.collapse)+
  have f: "\<forall>op\<in>set contention. foreign_op pg_micro (wl_TargetID ?l) (wl_WorkerID ?l) (wl_JobID ?l)
      (pg_micro (wl_ExpiresAt ?l)) op" by code_simp
  have "pg_holder (snd ?A) (wl_TargetID ?l) = Some (wl_WorkerID ?l', wl_JobID ?l', pg_micro (wl_ExpiresAt ?l'))"
    using lease_handover [OF s(1) f s(2) _ s(3)] by (simp add: lease_of_def)
  moreover have "pg_micro 20000 = 20000" by code_simp
  ultimately have "pg_holder (snd ?A) ''r1'' = Some (''b'', ''job-4'', 20000)"
    by (simp add: lease_of_def)
  with s show ?thesis by blast
qed

text \<open> a renewal that reaches the data base succeeds exactly when the same worker and job
  still hold an unexpired lease, so a worker whose lease lapsed or was taken over learns
  it; a successful renewal moves the expiry of that lease and an unsuccessful one changes
  nothing.
\<close>

theorem RenewLease_exact:
  assumes "lease_Validate l = None" "RenewLease ts DbOk l tbl = ((ok, err), tbl')"
  shows "err = None
    \<and> (ok \<longleftrightarrow> (\<exists>e. pg_holder tbl (wl_TargetID l) = Some (wl_WorkerID l, wl_JobID l, e) \<and> ts (wl_Now l) < e))
    \<and> (pg_holder tbl' = (if ok then (pg_holder tbl)(wl_TargetID l := Some (wl_WorkerID l, wl_JobID l, ts (wl_ExpiresAt l)))
                         else pg_holder tbl))"
  using assms
  by (auto simp: RenewLease_def lease_sql pg_holder_def split: option.splits if_splits
      intro!: ext)

theorem RenewLease_exact_witness:
  "\<exists>tbl'. RenewLease pg_micro DbOk (lease_of ''a'' ''job-1'' 9000 30000) table_after_contention = ((True, None), tbl')
     \<and> pg_holder tbl' ''r1'' = Some (''a'', ''job-1'', 30000)"
proof -
  let ?l = "lease_of ''a'' ''job-1'' 9000 30000"
  let ?R = "RenewLease pg_micro DbOk ?l table_after_contention"
  have f: "fst ?R = (True, None)" by code_simp
  then have s: "?R = ((True, None), snd ?R)" by (metis prod.collapse)
  have v: "lease_Validate ?l = None" by code_simp
  from RenewLease_exact [OF v s]
  have "pg_holder (snd ?R) (wl_TargetID ?l) = Some (wl_WorkerID ?l, wl_JobID ?l, pg_micro (wl_ExpiresAt ?l))"
    by simp
  moreover have "pg_micro 30000 = 30000" by code_simp
  ultimately have "pg_holder (snd ?R) ''r1'' = Some (''a'', ''job-1'', 30000)" by (simp add: lease_of_def)
  with s show ?thesis by blast
qed

end
