(* ===== verification/Manager.thy ===== *)
theory Manager
  imports Complex_Main Lease_Store "HOL-Library.Multiset"
begin

text \<open>
  The job manager of \<open>internal/scheduler/manager.go\<close>. \<open>Config\<close>, \<open>normalize\<close>, \<open>backoff\<close>
  and the circuit breaker are functions. The goroutines (callers of \<open>Enqueue\<close>, the timers
  it and \<open>run\<close> start, the workers and the lease renewer) are threads whose states are the
  places between two operations on shared state: a critical section of the mutex, a
  channel operation, a call to the lease store. \<open>thread_step\<close> executes one such operation,
  with what the environment decides (clock readings, cancellation, the limiter, the
  handler's result, the data base) given by a \<open>choice\<close>; \<open>None\<close> means that the thread is
  blocked. The step relation interleaves the threads arbitrarily.
\<close>

section \<open>Configuration\<close>

record Request =
  rq_Job :: Job
  rq_Target :: Target

text \<open>The connection rate is a rational number; the not-a-number and infinite values of a float64 are left out.\<close>

record 'db Config =
  cfg_QueueSize :: int
  cfg_MaxGlobalConcurrency :: int
  cfg_MaxPerVendorConcurrency :: int
  cfg_MaxPerGroupConcurrency :: int
  cfg_MaxPerSiteConcurrency :: int
  cfg_MaxNewConnectionsPerSecond :: rat
  cfg_MaxAttempts :: int
  cfg_BackoffInitial :: duration
  cfg_BackoffMax :: duration
  cfg_CircuitFailureThreshold :: int
  cfg_CircuitOpenDuration :: duration
  cfg_WorkerID :: string
  cfg_LeaseStore :: "'db LeaseStore option"
  cfg_LeaseTTL :: duration
  cfg_LeaseRenewInterval :: duration

definition defaultWorkerID :: "string option \<Rightarrow> int \<Rightarrow> string" where
  "defaultWorkerID hostname pid =
     (let host = (case hostname of None \<Rightarrow> ''worker'' | Some h \<Rightarrow> if h = [] then ''worker'' else h)
      in host @ ''-'' @ Itoa pid)"

definition or_default :: "int \<Rightarrow> int \<Rightarrow> int" where
  "or_default v d = (if v \<le> 0 then d else v)"

definition normalize :: "string option \<Rightarrow> int \<Rightarrow> 'db Config \<Rightarrow> 'db Config" where
  "normalize hostname pid cfg =
     (let global = or_default (cfg_MaxGlobalConcurrency cfg) 1;
          ttl = or_default (cfg_LeaseTTL cfg) (15 * Minute)
      in cfg\<lparr>cfg_QueueSize := or_default (cfg_QueueSize cfg) 10000,
             cfg_MaxGlobalConcurrency := global,
             cfg_MaxPerVendorConcurrency := or_default (cfg_MaxPerVendorConcurrency cfg) global,
             cfg_MaxPerGroupConcurrency := or_default (cfg_MaxPerGroupConcurrency cfg) global,
             cfg_MaxPerSiteConcurrency := or_default (cfg_MaxPerSiteConcurrency cfg) global,
             cfg_MaxNewConnectionsPerSecond :=
               (if cfg_MaxNewConnectionsPerSecond cfg \<le> 0 then 1 else cfg_MaxNewConnectionsPerSecond cfg),
             cfg_MaxAttempts := or_default (cfg_MaxAttempts cfg) 1,
             cfg_BackoffInitial := or_default (cfg_BackoffInitial cfg) Second,
             cfg_BackoffMax := or_default (cfg_BackoffMax cfg) Minute,
             cfg_CircuitFailureThreshold := or_default (cfg_CircuitFailureThreshold cfg) 5,
             cfg_CircuitOpenDuration := or_default (cfg_CircuitOpenDuration cfg) (30 * Minute),
             cfg_WorkerID := (if cfg_WorkerID cfg = [] then defaultWorkerID hostname pid else cfg_WorkerID cfg),
             cfg_LeaseTTL := ttl,
             cfg_LeaseRenewInterval :=
               (if cfg_LeaseRenewInterval cfg \<le> 0 then or_default (go_div ttl 3) Minute
                else cfg_LeaseRenewInterval cfg)\<rparr>)"

text \<open>The loop of \<open>backoff\<close>, \<open>n\<close> iterations left.\<close>

fun backoff_loop :: "nat \<Rightarrow> duration \<Rightarrow> duration \<Rightarrow> duration" where
  "backoff_loop 0 d mx = d"
| "backoff_loop (Suc n) d mx =
     (let d' = wrap64 (d * 2) in if d' \<ge> mx then mx else backoff_loop n d' mx)"

definition backoff :: "'db Config \<Rightarrow> int \<Rightarrow> duration" where
  "backoff cfg attempt = backoff_loop (nat (attempt - 1)) (cfg_BackoffInitial cfg) (cfg_BackoffMax cfg)"

definition isSuccess :: "JobStatus \<Rightarrow> bool" where
  "isSuccess status = (status = StatusSuccessChanged \<or> status = StatusSuccessNoChange)"

definition ErrCircuitOpen :: go_error where "ErrCircuitOpen = errors_New ''circuit open''"
definition ErrDuplicateActive :: go_error where "ErrDuplicateActive = errors_New ''target already has an active job''"
definition ErrLeaseHeld :: go_error where "ErrLeaseHeld = errors_New ''target lease is held''"

section \<open>State\<close>

record circuit =
  ci_failures :: int
  ci_openUntil :: instant

text \<open>
  The manager's state. A semaphore is a buffered channel of which only the number of
  tokens matters; \<open>m_vendor\<close>, \<open>m_group\<close> and \<open>m_site\<close> map a key to the number of tokens in
  its channel.
\<close>

record Mgr =
  m_queue :: "Request list"
  m_global :: nat
  m_vendor :: "string \<rightharpoonup> nat"
  m_group :: "string \<rightharpoonup> nat"
  m_site :: "string \<rightharpoonup> nat"
  m_active :: "string set"
  m_cb :: "string \<rightharpoonup> circuit"
  m_leased :: "string \<rightharpoonup> WorkerLease"

definition New_mgr :: Mgr where
  "New_mgr = \<lparr>m_queue = [], m_global = 0, m_vendor = Map.empty, m_group = Map.empty,
     m_site = Map.empty, m_active = {}, m_cb = Map.empty, m_leased = Map.empty\<rparr>"

section \<open>Semaphores\<close>

datatype sem_id = SGlobal | SVendor string | SGroup string | SSite string

definition sem_key :: "string \<Rightarrow> string" where
  "sem_key key = (if key = [] then ''default'' else key)"

fun sem_len :: "Mgr \<Rightarrow> sem_id \<Rightarrow> nat" where
  "sem_len m SGlobal = m_global m"
| "sem_len m (SVendor k) = (case m_vendor m k of None \<Rightarrow> 0 | Some n \<Rightarrow> n)"
| "sem_len m (SGroup k) = (case m_group m k of None \<Rightarrow> 0 | Some n \<Rightarrow> n)"
| "sem_len m (SSite k) = (case m_site m k of None \<Rightarrow> 0 | Some n \<Rightarrow> n)"

fun sem_put :: "Mgr \<Rightarrow> sem_id \<Rightarrow> nat \<Rightarrow> Mgr" where
  "sem_put m SGlobal n = m\<lparr>m_global := n\<rparr>"
| "sem_put m (SVendor k) n = m\<lparr>m_vendor := (m_vendor m)(k \<mapsto> n)\<rparr>"
| "sem_put m (SGroup k) n = m\<lparr>m_group := (m_group m)(k \<mapsto> n)\<rparr>"
| "sem_put m (SSite k) n = m\<lparr>m_site := (m_site m)(k \<mapsto> n)\<rparr>"

fun sem_cap :: "'db Config \<Rightarrow> sem_id \<Rightarrow> nat" where
  "sem_cap cfg SGlobal = nat (cfg_MaxGlobalConcurrency cfg)"
| "sem_cap cfg (SVendor k) = nat (cfg_MaxPerVendorConcurrency cfg)"
| "sem_cap cfg (SGroup k) = nat (cfg_MaxPerGroupConcurrency cfg)"
| "sem_cap cfg (SSite k) = nat (cfg_MaxPerSiteConcurrency cfg)"

text \<open>The channels \<open>acquire\<close> sends to, in its order; \<open>release\<close> receives in the opposite order.\<close>

definition sem_keys :: "Target \<Rightarrow> sem_id list" where
  "sem_keys t = [SGlobal, SVendor (sem_key (t_Vendor t)), SGroup (sem_key (t_Group t)), SSite (sem_key (t_Site t))]"

text \<open>\<open>sem\<close> creates a missing channel.\<close>

definition sem_make :: "Mgr \<Rightarrow> sem_id \<Rightarrow> Mgr" where
  "sem_make m s = sem_put m s (sem_len m s)"

definition sem_make_all :: "Mgr \<Rightarrow> Target \<Rightarrow> Mgr" where
  "sem_make_all m t = fold (\<lambda>s m. sem_make m s) (sem_keys t) m"

section \<open>Critical sections\<close>

definition prepare :: "string \<Rightarrow> instant \<Rightarrow> Request \<Rightarrow> go_error + Request" where
  "prepare newID now req =
     (let t = rq_Target req; j = rq_Job req in
      if t_ID t = [] then Inl (errors_New ''target id is required'')
      else Inr (req\<lparr>rq_Job := j\<lparr>
        j_TargetID := (if j_TargetID j = [] then t_ID t else j_TargetID j),
        j_Group := (if j_Group j = [] then t_Group t else j_Group j),
        j_Status := (if j_Status j = StatusUnset then StatusQueued else j_Status j),
        j_Attempt := (if j_Attempt j = 0 then 1 else j_Attempt j),
        j_ID := (if j_ID j = [] then newID else j_ID j),
        j_QueuedAt := (if IsZero (j_QueuedAt j) then now else j_QueuedAt j)\<rparr>\<rparr>))"

definition circuit_of :: "Mgr \<Rightarrow> string \<Rightarrow> circuit" where
  "circuit_of m t = (case m_cb m t of None \<Rightarrow> \<lparr>ci_failures = 0, ci_openUntil = 0\<rparr> | Some c \<Rightarrow> c)"

text \<open>\<open>Format(time.RFC3339)\<close> of an instant in UTC.\<close>

definition pad2 :: "int \<Rightarrow> string" where
  "pad2 n = (if n < 10 then ''0'' @ Itoa n else Itoa n)"

definition format_rfc3339 :: "instant \<Rightarrow> string" where
  "format_rfc3339 t =
     (let (y, mo, d) = civil_of_day (day_number UTC t)
      in replicate (4 - length (Itoa y)) (CHR ''0'') @ Itoa y @ ''-'' @ pad2 mo @ ''-'' @ pad2 d @ ''T''
         @ pad2 (hour_of UTC t) @ '':'' @ pad2 (minute_of UTC t) @ '':'' @ pad2 (second_of UTC t) @ ''Z'')"

text \<open>The first critical section of \<open>reserve\<close>.\<close>

definition reserve_check :: "instant \<Rightarrow> Request \<Rightarrow> Mgr \<Rightarrow> go_error + Mgr" where
  "reserve_check now req m =
     (let id = t_ID (rq_Target req); c = circuit_of m id in
      if id \<in> m_active m then Inl (Wrapf ''%w: target %s'' [id] ErrDuplicateActive)
      else if now < ci_openUntil c
      then Inl (Wrapf ''%w: target %s circuit open until %s'' [id, format_rfc3339 (ci_openUntil c)] ErrCircuitOpen)
      else Inr (m\<lparr>m_active := insert id (m_active m)\<rparr>))"

definition reserve_lease :: "'db Config \<Rightarrow> instant \<Rightarrow> Request \<Rightarrow> WorkerLease" where
  "reserve_lease cfg now req =
     \<lparr>wl_TargetID = t_ID (rq_Target req), wl_WorkerID = cfg_WorkerID cfg,
      wl_JobID = j_ID (rq_Job req), wl_Now = now, wl_ExpiresAt = now + cfg_LeaseTTL cfg\<rparr>"

definition storeLease :: "WorkerLease \<Rightarrow> Mgr \<Rightarrow> Mgr" where
  "storeLease l m = m\<lparr>m_leased := (m_leased m)(wl_TargetID l \<mapsto> l)\<rparr>"

definition clearActive :: "string \<Rightarrow> Mgr \<Rightarrow> Mgr" where
  "clearActive tid m = m\<lparr>m_active := m_active m - {tid}\<rparr>"

definition recordSuccess :: "string \<Rightarrow> Mgr \<Rightarrow> Mgr" where
  "recordSuccess tid m = m\<lparr>m_cb := (m_cb m)(tid := None)\<rparr>"

definition recordFailure :: "'db Config \<Rightarrow> instant \<Rightarrow> string \<Rightarrow> Mgr \<Rightarrow> Mgr" where
  "recordFailure cfg now tid m =
     (let c = circuit_of m tid;
          c1 = c\<lparr>ci_failures := wrap64 (ci_failures c + 1)\<rparr>;
          c2 = (if ci_failures c1 \<ge> cfg_CircuitFailureThreshold cfg
                then c1\<lparr>ci_openUntil := now + cfg_CircuitOpenDuration cfg\<rparr> else c1)
      in m\<lparr>m_cb := (m_cb m)(tid \<mapsto> c2)\<rparr>)"

definition takeLease :: "string \<Rightarrow> Mgr \<Rightarrow> WorkerLease option \<times> Mgr" where
  "takeLease tid m =
     (case m_leased m tid of
        None \<Rightarrow> (None, m)
      | Some l \<Rightarrow> (Some l, m\<lparr>m_leased := (m_leased m)(tid := None)\<rparr>))"

text \<open>\<open>snapshotLeases\<close> returns the leases in some order: \<open>order\<close> is one that Go's map iteration may take.\<close>

definition snapshotLeases :: "string list \<Rightarrow> Mgr \<Rightarrow> WorkerLease list" where
  "snapshotLeases order m = List.map_filter (m_leased m) order"

definition renewed_lease :: "'db Config \<Rightarrow> instant \<Rightarrow> WorkerLease \<Rightarrow> WorkerLease" where
  "renewed_lease cfg now l = l\<lparr>wl_Now := now, wl_ExpiresAt := now + cfg_LeaseTTL cfg\<rparr>"

definition storeRenewed :: "WorkerLease \<Rightarrow> Mgr \<Rightarrow> Mgr" where
  "storeRenewed l m =
     (case m_leased m (wl_TargetID l) of
        None \<Rightarrow> m
      | Some cur \<Rightarrow> if wl_JobID cur = wl_JobID l \<and> wl_WorkerID cur = wl_WorkerID l
                    then storeLease l m else m)"

text \<open>The request of the next attempt after a failed one.\<close>

definition retry_request :: "'db Config \<Rightarrow> instant \<Rightarrow> Request \<Rightarrow> Request" where
  "retry_request cfg now req =
     (let j = rq_Job req in
      req\<lparr>rq_Job := j\<lparr>j_Attempt := wrap64 (j_Attempt j + 1), j_ID := [],
                        j_QueuedAt := now + backoff cfg (j_Attempt j)\<rparr>\<rparr>)"

section \<open>Threads\<close>

text \<open>
  The places of a goroutine. \<open>T_Timer\<close> waits for a delayed or repeated job (the flag: the
  queue time is set again when the timer fires); \<open>T_Enqueue\<close> to \<open>T_Send\<close> are inside
  \<open>Enqueue\<close>, \<open>T_Returned\<close> has returned from it; \<open>T_TakeLease\<close> to \<open>T_ClearActive\<close> are inside
  \<open>releaseReservation\<close>, after which a worker (the flag) takes the next job and a caller
  returns an error; \<open>T_Acquire\<close> to \<open>T_Release\<close> are inside \<open>run\<close>, the number counting the
  semaphores held; the last three are the lease renewer.
\<close>

datatype thread =
    T_Timer bool Request
  | T_Enqueue Request
  | T_Reserve Request
  | T_TryLease instant Request
  | T_StoreLease WorkerLease Request
  | T_Unreserve go_error Request
  | T_Send Request
  | T_Returned "go_error option"
  | T_TakeLease bool Request
  | T_ReleaseLease bool WorkerLease Request
  | T_ClearActive bool Request
  | T_Idle
  | T_Acquire nat Request
  | T_Unwind nat Request
  | T_Limit Request
  | T_Handle Request
  | T_Record JobResult Request
  | T_Release nat Request
  | T_Renewer
  | T_Renewing instant "WorkerLease list"
  | T_StoreRenewed instant WorkerLease "WorkerLease list"

record choice =
  ch_now :: instant
  ch_now' :: instant
  ch_cancel :: bool
  ch_jobID :: string
  ch_db :: db_outcome
  ch_limiter :: bool
  ch_result :: JobResult
  ch_order :: "string list"

type_synonym 'db effect = "(thread list \<times> Mgr \<times> 'db) option"

text \<open>\<open>Enqueue\<close> up to the reservation: \<open>prepare\<close>, then the delay of a job queued for later.\<close>

definition step_Enqueue :: "choice \<Rightarrow> Request \<Rightarrow> Mgr \<Rightarrow> 'db \<Rightarrow> 'db effect" where
  "step_Enqueue ch req m db =
     (case prepare (ch_jobID ch) (ch_now ch) req of
        Inl e \<Rightarrow> Some ([T_Returned (Some e)], m, db)
      | Inr req' \<Rightarrow>
          if j_QueuedAt (rq_Job req') - ch_now' ch > 0
          then Some ([T_Returned None, T_Timer True req'], m, db)
          else Some ([T_Reserve req'], m, db))"

definition step_Timer :: "choice \<Rightarrow> bool \<Rightarrow> Request \<Rightarrow> Mgr \<Rightarrow> 'db \<Rightarrow> 'db effect" where
  "step_Timer ch delayed req m db =
     (if ch_cancel ch then Some ([], m, db)
      else Some ([T_Enqueue (if delayed then req\<lparr>rq_Job := (rq_Job req)\<lparr>j_QueuedAt := ch_now ch\<rparr>\<rparr> else req)], m, db))"

definition step_Reserve :: "'db Config \<Rightarrow> choice \<Rightarrow> Request \<Rightarrow> Mgr \<Rightarrow> 'db \<Rightarrow> 'db effect" where
  "step_Reserve cfg ch req m db =
     (case reserve_check (ch_now ch) req m of
        Inl e \<Rightarrow> Some ([T_Returned (Some e)], m, db)
      | Inr m' \<Rightarrow> Some ([case cfg_LeaseStore cfg of None \<Rightarrow> T_Send req | Some _ \<Rightarrow> T_TryLease (ch_now ch) req], m', db))"

definition step_TryLease :: "'db Config \<Rightarrow> choice \<Rightarrow> instant \<Rightarrow> Request \<Rightarrow> Mgr \<Rightarrow> 'db \<Rightarrow> 'db effect" where
  "step_TryLease cfg ch now req m db =
     (case cfg_LeaseStore cfg of
        None \<Rightarrow> None
      | Some S \<Rightarrow>
          (let l = reserve_lease cfg now req;
               ((ok, err), db') = ls_TryAcquireLease S (ch_db ch) l db
           in Some ([case err of
                       Some e \<Rightarrow> T_Unreserve e req
                     | None \<Rightarrow> if ok then T_StoreLease l req
                               else T_Unreserve (Wrapf ''%w: target %s'' [t_ID (rq_Target req)] ErrLeaseHeld) req],
                    m, db')))"

definition step_Send :: "'db Config \<Rightarrow> choice \<Rightarrow> Request \<Rightarrow> Mgr \<Rightarrow> 'db \<Rightarrow> 'db effect" where
  "step_Send cfg ch req m db =
     (if ch_cancel ch then Some ([T_TakeLease False req], m, db)
      else if length (m_queue m) < nat (cfg_QueueSize cfg)
      then Some ([T_Returned None], m\<lparr>m_queue := m_queue m @ [req]\<rparr>, db)
      else None)"

text \<open>\<open>releaseReservation\<close>.\<close>

definition step_TakeLease :: "'db Config \<Rightarrow> bool \<Rightarrow> Request \<Rightarrow> Mgr \<Rightarrow> 'db \<Rightarrow> 'db effect" where
  "step_TakeLease cfg worker req m db =
     (case cfg_LeaseStore cfg of
        None \<Rightarrow> Some ([T_ClearActive worker req], m, db)
      | Some _ \<Rightarrow>
          (case takeLease (t_ID (rq_Target req)) m of
             (None, m') \<Rightarrow> Some ([T_ClearActive worker req], m', db)
           | (Some l, m') \<Rightarrow> Some ([T_ReleaseLease worker l req], m', db)))"

definition step_ReleaseLease :: "'db Config \<Rightarrow> choice \<Rightarrow> bool \<Rightarrow> WorkerLease \<Rightarrow> Request \<Rightarrow> Mgr \<Rightarrow> 'db \<Rightarrow> 'db effect" where
  "step_ReleaseLease cfg ch worker l req m db =
     (case cfg_LeaseStore cfg of
        None \<Rightarrow> None
      | Some S \<Rightarrow> Some ([T_ClearActive worker req], m, snd (ls_ReleaseLease S (ch_db ch) l db)))"

definition step_ClearActive :: "bool \<Rightarrow> Request \<Rightarrow> Mgr \<Rightarrow> 'db \<Rightarrow> 'db effect" where
  "step_ClearActive worker req m db =
     Some ([if worker then T_Idle else T_Returned (Some Canceled)], clearActive (t_ID (rq_Target req)) m, db)"

text \<open>\<open>worker\<close> and \<open>run\<close>.\<close>

definition step_Idle :: "choice \<Rightarrow> Mgr \<Rightarrow> 'db \<Rightarrow> 'db effect" where
  "step_Idle ch m db =
     (if ch_cancel ch then Some ([], m, db)
      else case m_queue m of
             [] \<Rightarrow> None
           | req # rest \<Rightarrow> Some ([T_Acquire 0 req], sem_make_all (m\<lparr>m_queue := rest\<rparr>) (rq_Target req), db))"

definition step_Acquire :: "'db Config \<Rightarrow> choice \<Rightarrow> nat \<Rightarrow> Request \<Rightarrow> Mgr \<Rightarrow> 'db \<Rightarrow> 'db effect" where
  "step_Acquire cfg ch n req m db =
     (if n \<ge> 4 then Some ([T_Limit req], m, db)
      else let s = sem_keys (rq_Target req) ! n in
           if ch_cancel ch then Some ([T_Unwind n req], m, db)
           else if sem_len m s < sem_cap cfg s
           then Some ([T_Acquire (n + 1) req], sem_put m s (sem_len m s + 1), db)
           else None)"

text \<open>The receive that gives a token back; \<open>release\<close> does not wait on an empty channel, the unwinding of \<open>acquire\<close> does.\<close>

definition step_Unwind :: "nat \<Rightarrow> Request \<Rightarrow> Mgr \<Rightarrow> 'db \<Rightarrow> 'db effect" where
  "step_Unwind n req m db =
     (case n of
        0 \<Rightarrow> Some ([T_TakeLease True req], m, db)
      | Suc k \<Rightarrow> let s = sem_keys (rq_Target req) ! k in
                 if sem_len m s > 0 then Some ([T_Unwind k req], sem_put m s (sem_len m s - 1), db)
                 else None)"

definition step_Release :: "nat \<Rightarrow> Request \<Rightarrow> Mgr \<Rightarrow> 'db \<Rightarrow> 'db effect" where
  "step_Release n req m db =
     (case n of
        0 \<Rightarrow> Some ([T_TakeLease True req], m, db)
      | Suc k \<Rightarrow> let s = sem_keys (rq_Target req) ! k in
                 Some ([T_Release k req], if sem_len m s > 0 then sem_put m s (sem_len m s - 1) else m, db))"

definition step_Record :: "'db Config \<Rightarrow> choice \<Rightarrow> JobResult \<Rightarrow> Request \<Rightarrow> Mgr \<Rightarrow> 'db \<Rightarrow> 'db effect" where
  "step_Record cfg ch res req m db =
     (let tid = t_ID (rq_Target req) in
      if isSuccess (jr_Status res) then Some ([T_Release 4 req], recordSuccess tid m, db)
      else Some (T_Release 4 req
                 # (if j_Attempt (rq_Job req) < cfg_MaxAttempts cfg
                    then [T_Timer False (retry_request cfg (ch_now' ch) req)] else []),
                 recordFailure cfg (ch_now ch) tid m, db))"

text \<open>\<open>renewLeases\<close>, one lease at a time.\<close>

definition step_Renewer :: "choice \<Rightarrow> Mgr \<Rightarrow> 'db \<Rightarrow> 'db effect" where
  "step_Renewer ch m db =
     (if ch_cancel ch then Some ([], m, db)
      else Some ([T_Renewing (ch_now ch) (snapshotLeases (ch_order ch) m)], m, db))"

definition step_Renewing :: "'db Config \<Rightarrow> choice \<Rightarrow> instant \<Rightarrow> WorkerLease list \<Rightarrow> Mgr \<Rightarrow> 'db \<Rightarrow> 'db effect" where
  "step_Renewing cfg ch now ls m db =
     (case ls of
        [] \<Rightarrow> Some ([T_Renewer], m, db)
      | l # rest \<Rightarrow>
          (case cfg_LeaseStore cfg of
             None \<Rightarrow> None
           | Some S \<Rightarrow>
               (let l' = renewed_lease cfg now l;
                    ((ok, err), db') = ls_RenewLease S (ch_db ch) l' db
                in Some ([if err = None \<and> ok then T_StoreRenewed now l' rest else T_Renewing now rest], m, db'))))"

fun thread_step :: "'db Config \<Rightarrow> choice \<Rightarrow> thread \<Rightarrow> Mgr \<Rightarrow> 'db \<Rightarrow> 'db effect" where
  "thread_step cfg ch (T_Timer delayed req) m db = step_Timer ch delayed req m db"
| "thread_step cfg ch (T_Enqueue req) m db = step_Enqueue ch req m db"
| "thread_step cfg ch (T_Reserve req) m db = step_Reserve cfg ch req m db"
| "thread_step cfg ch (T_TryLease now req) m db = step_TryLease cfg ch now req m db"
| "thread_step cfg ch (T_StoreLease l req) m db = Some ([T_Send req], storeLease l m, db)"
| "thread_step cfg ch (T_Unreserve e req) m db =
     Some ([T_Returned (Some e)], clearActive (t_ID (rq_Target req)) m, db)"
| "thread_step cfg ch (T_Send req) m db = step_Send cfg ch req m db"
| "thread_step cfg ch (T_Returned e) m db = None"
| "thread_step cfg ch (T_TakeLease worker req) m db = step_TakeLease cfg worker req m db"
| "thread_step cfg ch (T_ReleaseLease worker l req) m db = step_ReleaseLease cfg ch worker l req m db"
| "thread_step cfg ch (T_ClearActive worker req) m db = step_ClearActive worker req m db"
| "thread_step cfg ch T_Idle m db = step_Idle ch m db"
| "thread_step cfg ch (T_Acquire n req) m db = step_Acquire cfg ch n req m db"
| "thread_step cfg ch (T_Unwind n req) m db = step_Unwind n req m db"
| "thread_step cfg ch (T_Limit req) m db = Some ([if ch_limiter ch then T_Handle req else T_Release 4 req], m, db)"
| "thread_step cfg ch (T_Handle req) m db = Some ([T_Record (ch_result ch) req], m, db)"
| "thread_step cfg ch (T_Record res req) m db = step_Record cfg ch res req m db"
| "thread_step cfg ch (T_Release n req) m db = step_Release n req m db"
| "thread_step cfg ch T_Renewer m db = step_Renewer ch m db"
| "thread_step cfg ch (T_Renewing now ls) m db = step_Renewing cfg ch now ls m db"
| "thread_step cfg ch (T_StoreRenewed now l rest) m db = Some ([T_Renewing now rest], storeRenewed l m, db)"

section \<open>The step relation\<close>

record 'db World =
  w_threads :: "thread multiset"
  w_mgr :: Mgr
  w_db :: 'db

text \<open>\<open>New\<close> followed by \<open>Start\<close> with \<open>n\<close> workers; the renewer runs only with a lease store.\<close>

definition Start :: "'db Config \<Rightarrow> int \<Rightarrow> 'db \<Rightarrow> 'db World" where
  "Start cfg workers db =
     \<lparr>w_threads = replicate_mset (nat (if workers \<le> 0 then cfg_MaxGlobalConcurrency cfg else workers)) T_Idle
        + (case cfg_LeaseStore cfg of None \<Rightarrow> {#} | Some _ \<Rightarrow> {#T_Renewer#}),
      w_mgr = New_mgr, w_db = db\<rparr>"

text \<open>
  \<open>call\<close>: somebody calls \<open>Enqueue\<close>; \<open>exec\<close>: a thread executes its next operation; \<open>other\<close>:
  other processes change the data base. The renewer's snapshot lists every lease once.
\<close>

inductive step :: "'db Config \<Rightarrow> 'db World \<Rightarrow> 'db World \<Rightarrow> bool" for cfg where
  call: "w_threads w = T \<Longrightarrow> step cfg w (w\<lparr>w_threads := add_mset (T_Enqueue req) T\<rparr>)"
| exec: "w_threads w = add_mset th T \<Longrightarrow> thread_step cfg ch th (w_mgr w) (w_db w) = Some (ths, m', db') \<Longrightarrow>
         (th = T_Renewer \<longrightarrow> distinct (ch_order ch) \<and> set (ch_order ch) = dom (m_leased (w_mgr w))) \<Longrightarrow>
         step cfg w \<lparr>w_threads = mset ths + T, w_mgr = m', w_db = db'\<rparr>"
| other: "step cfg w (w\<lparr>w_db := db'\<rparr>)"

inductive reachable :: "'db Config \<Rightarrow> int \<Rightarrow> 'db \<Rightarrow> 'db World \<Rightarrow> bool" for cfg n db0 where
  init: "reachable cfg n db0 (Start cfg n db0)"
| step: "reachable cfg n db0 w \<Longrightarrow> step cfg w w' \<Longrightarrow> reachable cfg n db0 w'"

inductive_cases stepE: "step cfg w w'"

section \<open>Ownership of targets\<close>

text \<open>The request whose target a thread has reserved.\<close>

fun owned :: "thread \<Rightarrow> Request list" where
  "owned (T_TryLease now r) = [r]"
| "owned (T_StoreLease l r) = [r]"
| "owned (T_Unreserve e r) = [r]"
| "owned (T_Send r) = [r]"
| "owned (T_TakeLease b r) = [r]"
| "owned (T_ReleaseLease b l r) = [r]"
| "owned (T_ClearActive b r) = [r]"
| "owned (T_Acquire n r) = [r]"
| "owned (T_Unwind n r) = [r]"
| "owned (T_Limit r) = [r]"
| "owned (T_Handle r) = [r]"
| "owned (T_Record res r) = [r]"
| "owned (T_Release n r) = [r]"
| "owned th = []"

abbreviation rid :: "Request \<Rightarrow> string" where
  "rid r \<equiv> t_ID (rq_Target r)"

definition msum :: "('a \<Rightarrow> 'b list) \<Rightarrow> 'a multiset \<Rightarrow> 'b multiset" where
  "msum f T = \<Sum>\<^sub># (image_mset (\<lambda>x. mset (f x)) T)"

lemma msum_simps [simp]:
  "msum f {#} = {#}" "msum f (add_mset x T) = mset (f x) + msum f T" "msum f (T + U) = msum f T + msum f U"
  by (simp_all add: msum_def)

lemma msum_mset [simp]: "msum f (mset xs) = mset (concat (map f xs))"
  by (induction xs) auto

lemma msum_replicate: "f x = [] \<Longrightarrow> msum f (replicate_mset n x) = {#}"
  by (induction n) auto

lemma in_msum: "x \<in># T \<Longrightarrow> y \<in> set (f x) \<Longrightarrow> y \<in># msum f T"
  by (auto dest!: multi_member_split)

lemma msum_memberD: "y \<in># msum f T \<Longrightarrow> \<exists>x. x \<in># T \<and> y \<in> set (f x)"
  by (auto simp: msum_def)

text \<open>Every reserved request: those of the threads and those waiting in the queue.\<close>

definition requests :: "thread multiset \<Rightarrow> Mgr \<Rightarrow> Request multiset" where
  "requests T m = msum owned T + mset (m_queue m)"

lemmas step_defs =
  step_Timer_def step_Enqueue_def step_Reserve_def step_TryLease_def step_Send_def
  step_TakeLease_def step_ReleaseLease_def step_ClearActive_def step_Idle_def step_Acquire_def
  step_Unwind_def step_Release_def step_Record_def step_Renewer_def step_Renewing_def
  reserve_check_def storeLease_def clearActive_def recordSuccess_def recordFailure_def
  takeLease_def storeRenewed_def Let_def

lemma sem_put_frame [simp]:
  "m_queue (sem_put m s n) = m_queue m" "m_active (sem_put m s n) = m_active m"
  "m_leased (sem_put m s n) = m_leased m" "m_cb (sem_put m s n) = m_cb m"
  by (cases s; simp)+

lemma sem_make_frame [simp]:
  "m_queue (sem_make m s) = m_queue m" "m_active (sem_make m s) = m_active m"
  "m_leased (sem_make m s) = m_leased m" "m_cb (sem_make m s) = m_cb m"
  by (simp_all add: sem_make_def)

lemma sem_make_all_frame [simp]:
  "m_queue (sem_make_all m t) = m_queue m" "m_active (sem_make_all m t) = m_active m"
  "m_leased (sem_make_all m t) = m_leased m" "m_cb (sem_make_all m t) = m_cb m"
  by (simp_all add: sem_make_all_def sem_keys_def)

text \<open>
  What a step does to the reserved requests: nothing (it moves them between threads and
  the queue), a reservation of a target that was not active, or the end of one.
\<close>

lemma thread_step_requests:
  assumes "thread_step cfg ch th m db = Some (ths, m', db')"
  shows "requests (mset ths) m' = requests {#th#} m \<and> m_active m' = m_active m
    \<or> (\<exists>r. rid r \<notin> m_active m \<and> requests (mset ths) m' = add_mset r (requests {#th#} m)
        \<and> m_active m' = insert (rid r) (m_active m))
    \<or> (\<exists>r. requests {#th#} m = add_mset r (requests (mset ths) m') \<and> m_active m' = m_active m - {rid r})"
  using assms
  by (cases th)
     (auto simp: step_defs requests_def split: if_splits option.splits sum.splits list.splits nat.splits prod.splits)

lemma thread_step_queue:
  assumes "thread_step cfg ch th m db = Some (ths, m', db')" "length (m_queue m) \<le> nat (cfg_QueueSize cfg)"
  shows "length (m_queue m') \<le> nat (cfg_QueueSize cfg)"
  using assms
  by (cases th)
     (auto simp: step_defs split: if_splits option.splits sum.splits list.splits nat.splits prod.splits)

definition active_inv :: "'db Config \<Rightarrow> 'db World \<Rightarrow> bool" where
  "active_inv cfg w =
     (finite (m_active (w_mgr w))
      \<and> image_mset rid (requests (w_threads w) (w_mgr w)) = mset_set (m_active (w_mgr w))
      \<and> length (m_queue (w_mgr w)) \<le> nat (cfg_QueueSize cfg))"

lemma active_inv_init: "active_inv cfg (Start cfg n db)"
  by (auto simp: active_inv_def Start_def New_mgr_def requests_def msum_replicate split: option.splits)

lemma mset_set_remove_one:
  assumes "finite A" "add_mset x M = mset_set A"
  shows "M = mset_set (A - {x})"
proof -
  from assms have "x \<in> A" by (metis finite_set_mset_mset_set union_single_eq_member)
  with assms have "mset_set (A - {x}) = mset_set A - {#x#}" by (simp add: mset_set_Diff)
  with assms(2) show ?thesis by (metis add_mset_remove_trivial)
qed

lemma requests_split: "requests (mset ths + T) m' = requests (mset ths) m' + msum owned T"
  "requests (add_mset th T) m = requests {#th#} m + msum owned T"
  by (simp_all add: requests_def)

lemma active_inv_step:
  assumes "step cfg w w'" "active_inv cfg w"
  shows "active_inv cfg w'"
  using assms(1)
proof cases
  case (exec th T ch ths m' db')
  from assms(2) exec(2) have inv: "finite (m_active (w_mgr w))"
    "image_mset rid (requests {#th#} (w_mgr w) + msum owned T) = mset_set (m_active (w_mgr w))"
    by (simp_all add: active_inv_def requests_split(2) [of th T])
  have q: "length (m_queue m') \<le> nat (cfg_QueueSize cfg)"
    using thread_step_queue [OF exec(3)] assms(2) by (simp add: active_inv_def)
  from thread_step_requests [OF exec(3)] inv
  have "finite (m_active m') \<and> image_mset rid (requests (mset ths) m' + msum owned T) = mset_set (m_active m')"
  proof (elim disjE exE conjE)
    fix r
    assume "requests {#th#} (w_mgr w) = add_mset r (requests (mset ths) m')"
      "m_active m' = m_active (w_mgr w) - {rid r}"
    with inv mset_set_remove_one [OF inv(1),
        of "rid r" "image_mset rid (requests (mset ths) m' + msum owned T)"]
    show ?thesis by simp
  qed simp_all
  with q exec(1) show ?thesis by (simp add: active_inv_def requests_split(1))
qed (use assms(2) in \<open>auto simp: active_inv_def requests_def\<close>)

lemma reachable_active_inv: "reachable cfg n db0 w \<Longrightarrow> active_inv cfg w"
  by (induction rule: reachable.induct) (auto intro: active_inv_init active_inv_step)

section \<open>Semaphores held\<close>

fun held :: "thread \<Rightarrow> sem_id list" where
  "held (T_Acquire n r) = take n (sem_keys (rq_Target r))"
| "held (T_Unwind n r) = take n (sem_keys (rq_Target r))"
| "held (T_Limit r) = sem_keys (rq_Target r)"
| "held (T_Handle r) = sem_keys (rq_Target r)"
| "held (T_Record res r) = sem_keys (rq_Target r)"
| "held (T_Release n r) = take n (sem_keys (rq_Target r))"
| "held th = []"

fun thread_wf :: "thread \<Rightarrow> bool" where
  "thread_wf (T_Acquire n r) = (n \<le> 4)"
| "thread_wf (T_Unwind n r) = (n \<le> 4)"
| "thread_wf (T_Release n r) = (n \<le> 4)"
| "thread_wf th = True"

lemma sem_len_put [simp]: "sem_len (sem_put m s n) s' = (if s' = s then n else sem_len m s')"
  by (cases s; cases s') auto

lemma sem_len_make [simp]: "sem_len (sem_make m s) = sem_len m"
  by (rule ext) (simp add: sem_make_def)

lemma sem_len_make_all [simp]: "sem_len (sem_make_all m t) = sem_len m"
  by (simp add: sem_make_all_def sem_keys_def)

lemma sem_len_frame [simp]:
  "sem_len (m\<lparr>m_queue := q\<rparr>) = sem_len m" "sem_len (m\<lparr>m_active := a\<rparr>) = sem_len m"
  "sem_len (m\<lparr>m_leased := l\<rparr>) = sem_len m" "sem_len (m\<lparr>m_cb := c\<rparr>) = sem_len m"
  by (rule ext, rename_tac s, case_tac s; simp)+

lemma length_sem_keys [simp]: "length (sem_keys t) = 4"
  by (simp add: sem_keys_def)

lemma take_sem_keys: "n < 4 \<Longrightarrow> take (Suc n) (sem_keys t) = take n (sem_keys t) @ [sem_keys t ! n]"
  by (simp add: take_Suc_conv_app_nth)

text \<open>
  A step that sends to or receives from a semaphore changes the tokens by one and the
  held semaphores of the thread by the same one.
\<close>

definition sem_effect :: "thread \<Rightarrow> Mgr \<Rightarrow> thread list \<Rightarrow> Mgr \<Rightarrow> bool" where
  "sem_effect th m ths m' =
     (\<forall>s. sem_len m' s + count (mset (held th)) s = sem_len m s + count (msum held (mset ths)) s)"

lemma sem_effect_same:
  "sem_len m' = sem_len m \<Longrightarrow> msum held (mset ths) = mset (held th) \<Longrightarrow> sem_effect th m ths m'"
  by (simp add: sem_effect_def)

lemma sem_effect_Acquire:
  assumes "step_Acquire cfg ch n r m db = Some (ths, m', db')" "n \<le> 4"
  shows "sem_effect (T_Acquire n r) m ths m'"
  using assms
  by (cases "n < 4") (auto simp: step_Acquire_def sem_effect_def Let_def take_sem_keys split: if_splits)

lemma sem_effect_Unwind:
  assumes "step_Unwind n r m db = Some (ths, m', db')" "n \<le> 4"
  shows "sem_effect (T_Unwind n r) m ths m'"
  using assms
  by (cases n) (auto simp: step_Unwind_def sem_effect_def Let_def take_sem_keys split: if_splits)

lemma sem_effect_Release:
  assumes "step_Release n r m db = Some (ths, m', db')" "n \<le> 4"
    and "\<And>s. s \<in> set (held (T_Release n r)) \<Longrightarrow> 0 < sem_len m s"
  shows "sem_effect (T_Release n r) m ths m'"
  using assms
  by (cases n) (auto simp: step_Release_def sem_effect_def Let_def take_sem_keys split: if_splits)

lemma thread_step_sem:
  assumes "thread_step cfg ch th m db = Some (ths, m', db')" "thread_wf th"
    and "\<And>s. s \<in> set (held th) \<Longrightarrow> 0 < sem_len m s"
  shows "sem_effect th m ths m'"
proof (cases th)
  case (T_Acquire n r)
  then show ?thesis using assms by (auto intro: sem_effect_Acquire)
next
  case (T_Unwind n r)
  then show ?thesis using assms by (auto intro: sem_effect_Unwind)
next
  case (T_Release n r)
  have "sem_effect (T_Release n r) m ths m'"
    by (rule sem_effect_Release) (use assms T_Release in auto)
  then show ?thesis by (simp only: T_Release)
qed (use assms in \<open>auto intro!: sem_effect_same simp: step_defs
       split: if_splits option.splits sum.splits list.splits prod.splits\<close>)

lemma thread_step_cap:
  assumes "thread_step cfg ch th m db = Some (ths, m', db')" "\<And>s. sem_len m s \<le> sem_cap cfg s"
  shows "sem_len m' s \<le> sem_cap cfg s"
  using assms
  by (cases th)
     (auto simp: step_defs intro: Suc_leI order.trans [OF diff_le_self assms(2)]
       split: if_splits option.splits sum.splits list.splits nat.splits prod.splits)

lemma thread_step_wf:
  assumes "thread_step cfg ch th m db = Some (ths, m', db')" "thread_wf th"
  shows "\<forall>th'\<in>set ths. thread_wf th'"
  using assms
  by (cases th)
     (auto simp: step_defs split: if_splits option.splits sum.splits list.splits nat.splits prod.splits)

definition sem_inv :: "'db Config \<Rightarrow> 'db World \<Rightarrow> bool" where
  "sem_inv cfg w =
     ((\<forall>th\<in>#w_threads w. thread_wf th)
      \<and> (\<forall>s. sem_len (w_mgr w) s = count (msum held (w_threads w)) s)
      \<and> (\<forall>s. sem_len (w_mgr w) s \<le> sem_cap cfg s))"

lemma New_mgr_sem [simp]: "sem_len New_mgr s = 0"
  by (cases s) (simp_all add: New_mgr_def)

lemma sem_inv_init: "sem_inv cfg (Start cfg n db)"
  by (auto simp: sem_inv_def Start_def msum_replicate in_replicate_mset split: option.splits)

lemma sem_inv_step:
  assumes "step cfg w w'" "sem_inv cfg w"
  shows "sem_inv cfg w'"
  using assms(1)
proof cases
  case (exec th T ch ths m' db')
  have wf: "thread_wf th" using assms(2) exec(2) by (simp add: sem_inv_def)
  have pos: "0 < sem_len (w_mgr w) s" if "s \<in> set (held th)" for s
    using assms(2) exec(2) that by (auto simp: sem_inv_def)
  from thread_step_sem [OF exec(3) wf pos]
  have e1: "sem_len m' s + count (mset (held th)) s = sem_len (w_mgr w) s + count (msum held (mset ths)) s" for s
    by (simp add: sem_effect_def)
  have e2: "sem_len (w_mgr w) s = count (mset (held th)) s + count (msum held T) s" for s
    using assms(2) exec(2) by (simp add: sem_inv_def)
  have "sem_len m' s = count (msum held (mset ths)) s + count (msum held T) s" for s
    using e1 [of s] e2 [of s] by linarith
  moreover have "sem_len m' s \<le> sem_cap cfg s" for s
    by (rule thread_step_cap [OF exec(3)]) (use assms(2) in \<open>unfold sem_inv_def, blast\<close>)
  moreover have "\<forall>th\<in>#mset ths + T. thread_wf th"
    using thread_step_wf [OF exec(3) wf] assms(2) exec(2) by (auto simp: sem_inv_def)
  ultimately show ?thesis using exec(1) by (simp add: sem_inv_def)
qed (use assms(2) in \<open>auto simp: sem_inv_def\<close>)

lemma reachable_sem_inv: "reachable cfg n db0 w \<Longrightarrow> sem_inv cfg w"
  by (induction rule: reachable.induct) (auto intro: sem_inv_init sem_inv_step)

section \<open>Leases held\<close>

text \<open>The request of a thread that is past the reservation and has not begun to give it back.\<close>

fun leased_by :: "thread \<Rightarrow> Request list" where
  "leased_by (T_Send r) = [r]"
| "leased_by (T_TakeLease b r) = [r]"
| "leased_by (T_Acquire n r) = [r]"
| "leased_by (T_Unwind n r) = [r]"
| "leased_by (T_Limit r) = [r]"
| "leased_by (T_Handle r) = [r]"
| "leased_by (T_Record res r) = [r]"
| "leased_by (T_Release n r) = [r]"
| "leased_by th = []"

definition leased_requests :: "thread multiset \<Rightarrow> Mgr \<Rightarrow> Request multiset" where
  "leased_requests T m = msum leased_by T + mset (m_queue m)"

definition lease_for :: "'db Config \<Rightarrow> Request \<Rightarrow> WorkerLease \<Rightarrow> bool" where
  "lease_for cfg r l =
     (wl_TargetID l = rid r \<and> wl_WorkerID l = cfg_WorkerID cfg \<and> wl_JobID l = j_ID (rq_Job r))"

fun thread_lease_ok :: "'db Config \<Rightarrow> thread \<Rightarrow> bool" where
  "thread_lease_ok cfg (T_StoreLease l r) = lease_for cfg r l"
| "thread_lease_ok cfg (T_ReleaseLease b l r) = lease_for cfg r l"
| "thread_lease_ok cfg th = True"

lemma leased_requests_owned: "leased_requests T m \<subseteq># requests T m"
proof -
  have "mset (leased_by th) \<subseteq># mset (owned th)" for th by (cases th) auto
  then have "msum leased_by T \<subseteq># msum owned T"
    by (induction T) (auto intro: subset_mset.add_mono)
  then show ?thesis by (simp add: leased_requests_def requests_def)
qed

lemma leased_requests_split:
  "leased_requests (mset ths + T) m' = leased_requests (mset ths) m' + msum leased_by T"
  "leased_requests (add_mset th T) m = leased_requests {#th#} m + msum leased_by T"
  by (simp_all add: leased_requests_def)

text \<open>
  What a step does to the recorded leases: nothing, the lease of a request that enters
  the leased stages, the removal of one that leaves them, or a renewal.
\<close>

definition lease_stored :: "thread \<Rightarrow> Mgr \<Rightarrow> thread list \<Rightarrow> Mgr \<Rightarrow> bool" where
  "lease_stored th m ths m' =
     (\<exists>l r. th = T_StoreLease l r \<and> ths = [T_Send r] \<and> m' = storeLease l m)"

definition lease_taken :: "thread \<Rightarrow> Mgr \<Rightarrow> thread list \<Rightarrow> Mgr \<Rightarrow> bool" where
  "lease_taken th m ths m' =
     (\<exists>b l r. th = T_TakeLease b r \<and> m_leased m (rid r) = Some l
        \<and> ths = [T_ReleaseLease b l r] \<and> m' = m\<lparr>m_leased := (m_leased m)(rid r := None)\<rparr>)"

definition lease_renewed :: "thread \<Rightarrow> Mgr \<Rightarrow> thread list \<Rightarrow> Mgr \<Rightarrow> bool" where
  "lease_renewed th m ths m' =
     (\<exists>now l ls. th = T_StoreRenewed now l ls \<and> ths = [T_Renewing now ls] \<and> m' = storeRenewed l m)"

lemma thread_step_leases:
  assumes "thread_step cfg ch th m db = Some (ths, m', db')" "cfg_LeaseStore cfg = Some S"
    and "\<forall>r\<in>set (leased_by th). m_leased m (rid r) \<noteq> None"
  shows "lease_stored th m ths m' \<or> lease_taken th m ths m' \<or> lease_renewed th m ths m'
    \<or> leased_requests (mset ths) m' = leased_requests {#th#} m \<and> m_leased m' = m_leased m"
proof (cases th)
  case (T_StoreLease l r)
  with assms show ?thesis by (simp add: lease_stored_def)
next
  case (T_TakeLease b r)
  with assms show ?thesis by (auto simp: lease_taken_def step_TakeLease_def takeLease_def)
next
  case (T_StoreRenewed now l ls)
  with assms show ?thesis by (simp add: lease_renewed_def)
qed (use assms in \<open>auto simp: step_defs leased_requests_def
       split: if_splits option.splits sum.splits list.splits nat.splits prod.splits\<close>)

lemma thread_step_lease_ok:
  assumes "thread_step cfg ch th m db = Some (ths, m', db')"
    and "\<forall>r\<in>set (leased_by th). \<forall>l. m_leased m (rid r) = Some l \<longrightarrow> lease_for cfg r l"
  shows "\<forall>th'\<in>set ths. thread_lease_ok cfg th'"
  using assms
  by (cases th)
     (auto simp: step_defs reserve_lease_def lease_for_def
       split: if_splits option.splits sum.splits list.splits nat.splits prod.splits)

definition lease_inv :: "'db Config \<Rightarrow> 'db World \<Rightarrow> bool" where
  "lease_inv cfg w =
     ((\<forall>th\<in>#w_threads w. thread_lease_ok cfg th)
      \<and> (\<forall>r\<in>#leased_requests (w_threads w) (w_mgr w).
           \<exists>l. m_leased (w_mgr w) (rid r) = Some l \<and> lease_for cfg r l)
      \<and> dom (m_leased (w_mgr w)) = rid ` set_mset (leased_requests (w_threads w) (w_mgr w)))"

lemma lease_inv_init: "lease_inv cfg (Start cfg n db)"
  by (auto simp: lease_inv_def Start_def New_mgr_def leased_requests_def msum_replicate in_replicate_mset
      split: option.splits)

lemma active_inv_distinct:
  assumes "active_inv cfg w" "w_threads w = add_mset th T" "r \<in> set (owned th)"
    and "r' \<in># msum owned T + mset (m_queue (w_mgr w))"
  shows "rid r' \<noteq> rid r"
proof
  assume eq: "rid r' = rid r"
  have "owned th = [r]" using assms(3) by (cases th) auto
  define M where "M = image_mset rid (msum owned T + mset (m_queue (w_mgr w)))"
  from \<open>owned th = [r]\<close> assms(1,2) have "mset_set (m_active (w_mgr w)) = add_mset (rid r) M"
    and fin: "finite (m_active (w_mgr w))"
    by (simp_all add: active_inv_def requests_def M_def)
  then have "count (mset_set (m_active (w_mgr w))) (rid r) = Suc (count M (rid r))" by simp
  moreover have "rid r' \<in># M" unfolding M_def set_image_mset using assms(4) by (rule imageI)
  with eq have "rid r \<in># M" by simp
  then have "count M (rid r) \<noteq> 0" by (simp add: count_eq_zero_iff)
  ultimately show False using fin by (simp add: count_mset_set' count_eq_zero_iff split: if_splits)
qed

lemma active_inv_distinct_leased:
  assumes "active_inv cfg w" "w_threads w = add_mset th T" "r \<in> set (owned th)"
    and "r' \<in># msum leased_by T + mset (m_queue (w_mgr w))"
  shows "rid r' \<noteq> rid r"
proof (rule active_inv_distinct [OF assms(1-3)])
  have "msum leased_by T + mset (m_queue (w_mgr w)) \<subseteq># msum owned T + mset (m_queue (w_mgr w))"
    using leased_requests_owned [of T "w_mgr w"] by (simp add: leased_requests_def requests_def)
  with assms(4) show "r' \<in># msum owned T + mset (m_queue (w_mgr w))"
    by (rule mset_subset_eqD [rotated])
qed

text \<open>The recorded leases against the leased requests, in one predicate a step can be checked against.\<close>

definition leases_match :: "'db Config \<Rightarrow> Request multiset \<Rightarrow> Mgr \<Rightarrow> bool" where
  "leases_match cfg L m =
     ((\<forall>r\<in>#L. \<exists>l. m_leased m (rid r) = Some l \<and> lease_for cfg r l) \<and> dom (m_leased m) = rid ` set_mset L)"

lemma leases_match_store:
  assumes "leases_match cfg L m" "lease_for cfg r l" "\<And>r'. r' \<in># L \<Longrightarrow> rid r' \<noteq> rid r"
  shows "leases_match cfg (add_mset r L) (storeLease l m)"
proof -
  from assms(2) have "wl_TargetID l = rid r" by (simp add: lease_for_def)
  with assms show ?thesis by (auto simp: leases_match_def storeLease_def)
qed

lemma leases_match_take:
  assumes "leases_match cfg (add_mset r L) m" "\<And>r'. r' \<in># L \<Longrightarrow> rid r' \<noteq> rid r"
  shows "leases_match cfg L (m\<lparr>m_leased := (m_leased m)(rid r := None)\<rparr>)"
proof -
  have "rid r \<notin> rid ` set_mset L" using assms(2) by (auto dest: sym)
  with assms show ?thesis by (auto simp: leases_match_def)
qed

lemma leases_match_renew:
  assumes "leases_match cfg L m"
  shows "leases_match cfg L (storeRenewed l m)"
proof (cases "m_leased m (wl_TargetID l)")
  case (Some cur)
  then have "wl_TargetID l \<in> dom (m_leased m)" by blast
  with assms Some show ?thesis
    by (auto simp: leases_match_def storeRenewed_def storeLease_def lease_for_def)
qed (use assms in \<open>simp add: storeRenewed_def\<close>)

lemma leases_match_step:
  assumes "thread_step cfg ch th (w_mgr w) (w_db w) = Some (ths, m', db')" "cfg_LeaseStore cfg = Some S"
    and "w_threads w = add_mset th T" "active_inv cfg w" "thread_lease_ok cfg th"
    and "leases_match cfg (leased_requests (add_mset th T) (w_mgr w)) (w_mgr w)"
  shows "leases_match cfg (leased_requests (mset ths + T) m') m'"
proof -
  let ?R = "msum leased_by T + mset (m_queue (w_mgr w))"
  have "\<forall>r\<in>set (leased_by th). m_leased (w_mgr w) (rid r) \<noteq> None"
    using assms(6) by (auto simp: leases_match_def leased_requests_def)
  from thread_step_leases [OF assms(1,2) this]
  consider "lease_stored th (w_mgr w) ths m'" | "lease_taken th (w_mgr w) ths m'"
    | "lease_renewed th (w_mgr w) ths m'"
    | "leased_requests (mset ths) m' = leased_requests {#th#} (w_mgr w)" "m_leased m' = m_leased (w_mgr w)"
    by blast
  then show ?thesis
  proof cases
    case 1
    then obtain l r where th: "th = T_StoreLease l r" "ths = [T_Send r]" "m' = storeLease l (w_mgr w)"
      by (auto simp: lease_stored_def)
    have "leases_match cfg (add_mset r ?R) (storeLease l (w_mgr w))"
    proof (rule leases_match_store)
      show "rid r' \<noteq> rid r" if "r' \<in># ?R" for r'
        using active_inv_distinct_leased [OF assms(4,3) _ that, of r] th by simp
    qed (use assms(5,6) th in \<open>auto simp: leased_requests_def\<close>)
    with th show ?thesis by (simp add: leased_requests_def storeLease_def)
  next
    case 2
    then obtain b l r where th: "th = T_TakeLease b r" "ths = [T_ReleaseLease b l r]"
      "m' = (w_mgr w)\<lparr>m_leased := (m_leased (w_mgr w))(rid r := None)\<rparr>"
      by (auto simp: lease_taken_def)
    have "leases_match cfg ?R ((w_mgr w)\<lparr>m_leased := (m_leased (w_mgr w))(rid r := None)\<rparr>)"
    proof (rule leases_match_take)
      show "rid r' \<noteq> rid r" if "r' \<in># ?R" for r'
        using active_inv_distinct_leased [OF assms(4,3) _ that, of r] th by simp
    qed (use assms(6) th in \<open>simp add: leased_requests_def\<close>)
    with th show ?thesis by (simp add: leased_requests_def)
  next
    case 3
    then obtain now l ls where th: "th = T_StoreRenewed now l ls" "ths = [T_Renewing now ls]"
      "m' = storeRenewed l (w_mgr w)" by (auto simp: lease_renewed_def)
    have "m_queue (storeRenewed l (w_mgr w)) = m_queue (w_mgr w)"
      by (simp add: storeRenewed_def storeLease_def split: option.splits)
    with leases_match_renew [OF assms(6), of l] th show ?thesis by (simp add: leased_requests_def)
  next
    case 4
    then have "leased_requests (mset ths + T) m' = leased_requests (add_mset th T) (w_mgr w)"
      by (simp add: leased_requests_split(1) leased_requests_split(2) [of th T])
    with assms(6) 4(2) show ?thesis by (simp add: leases_match_def)
  qed
qed

lemma lease_inv_step:
  assumes "step cfg w w'" "lease_inv cfg w" "active_inv cfg w" "cfg_LeaseStore cfg = Some S"
  shows "lease_inv cfg w'"
  using assms(1)
proof cases
  case (exec th T ch ths m' db')
  from assms(2) exec(2) have ok: "thread_lease_ok cfg th" "\<forall>th\<in>#T. thread_lease_ok cfg th"
    and lm: "leases_match cfg (leased_requests (add_mset th T) (w_mgr w)) (w_mgr w)"
    by (simp_all add: lease_inv_def leases_match_def)
  have "lease_for cfg r l" if "r \<in> set (leased_by th)" "m_leased (w_mgr w) (rid r) = Some l" for r l
  proof -
    from that(1) have "r \<in># leased_requests (add_mset th T) (w_mgr w)"
      by (simp add: leased_requests_def)
    with lm obtain l' where "m_leased (w_mgr w) (rid r) = Some l'" "lease_for cfg r l'"
      unfolding leases_match_def by blast
    with that(2) show ?thesis by simp
  qed
  then have "\<forall>th'\<in>set ths. thread_lease_ok cfg th'"
    by (intro thread_step_lease_ok [OF exec(3)]) blast
  with ok leases_match_step [OF exec(3) assms(4) exec(2) assms(3) ok(1) lm] exec(1)
  show ?thesis by (auto simp: lease_inv_def leases_match_def)
qed (use assms(2) in \<open>auto simp: lease_inv_def leased_requests_def\<close>)

lemma reachable_lease_inv:
  "reachable cfg n db0 w \<Longrightarrow> cfg_LeaseStore cfg = Some S \<Longrightarrow> lease_inv cfg w"
  by (induction rule: reachable.induct)
     (auto intro: lease_inv_init lease_inv_step reachable_active_inv)

section \<open>What the invariants say about the jobs\<close>

text \<open>The number of handlers running for requests that need a semaphore.\<close>

fun runs_at :: "sem_id \<Rightarrow> thread \<Rightarrow> bool" where
  "runs_at s (T_Handle r) = (s \<in> set (sem_keys (rq_Target r)))"
| "runs_at s th = False"

definition running_at :: "sem_id \<Rightarrow> 'db World \<Rightarrow> nat" where
  "running_at s w = size (filter_mset (runs_at s) (w_threads w))"

lemma running_le_held: "running_at s w \<le> count (msum held (w_threads w)) s"
proof -
  have "size (filter_mset (runs_at s) T) \<le> count (msum held T) s" for T
  proof (induction T)
    case (add th T)
    have split: "count (msum held (add_mset th T)) s = count (mset (held th)) s + count (msum held T) s"
      by simp
    show ?case
    proof (cases "runs_at s th")
      case True
      then have "s \<in># mset (held th)" by (cases th) auto
      then have "1 \<le> count (mset (held th)) s" by (rule count_greater_eq_one_iff [THEN iffD2])
      moreover have "size (filter_mset (runs_at s) (add_mset th T)) = Suc (size (filter_mset (runs_at s) T))"
        using True by simp
      ultimately show ?thesis using add split by linarith
    qed (use add in simp)
  qed simp
  then show ?thesis by (simp add: running_at_def)
qed

text \<open>
  C6: no target is worked on twice at once. In every state the manager can reach, however
  callers, timers, workers and the renewer interleave and whenever contexts are cancelled
  or the lease store fails, the reserved requests (in threads and in the queue) have
  pairwise different targets and these are exactly the targets marked active; and the
  queue never holds more than its size.
\<close>

theorem one_active_job_per_target:
  assumes "reachable cfg n db0 w"
  shows "(\<forall>t. count (image_mset rid (requests (w_threads w) (w_mgr w))) t
             = (if t \<in> m_active (w_mgr w) then 1 else 0))
    \<and> length (m_queue (w_mgr w)) \<le> nat (cfg_QueueSize cfg)"
  using reachable_active_inv [OF assms] by (auto simp: active_inv_def count_mset_set')

text \<open>
  C7: the concurrency limits hold. In every reachable state the tokens in each semaphore
  are exactly those held by threads, so none is lost or returned twice on any path, and
  the handlers running at once never exceed the global, vendor, group and site limits.
\<close>

theorem concurrency_limits:
  assumes "reachable cfg n db0 w"
  shows "sem_len (w_mgr w) s = count (msum held (w_threads w)) s
    \<and> running_at s w \<le> sem_len (w_mgr w) s \<and> sem_len (w_mgr w) s \<le> sem_cap cfg s"
proof -
  from reachable_sem_inv [OF assms] have "sem_len (w_mgr w) s = count (msum held (w_threads w)) s"
    "sem_len (w_mgr w) s \<le> sem_cap cfg s"
    unfolding sem_inv_def by blast+
  with running_le_held [of s w] show ?thesis by linarith
qed

text \<open>
  C21: with a lease store every job that waits in the queue or runs has a lease recorded by
  its manager, for its own target, worker and job identifier, through all renewals, and
  a lease is recorded for no other target: after a job ends nothing keeps renewing its
  lease.
\<close>

theorem leases_cover_jobs:
  assumes "reachable cfg n db0 w" "cfg_LeaseStore cfg = Some S"
  shows "(\<forall>r\<in>#leased_requests (w_threads w) (w_mgr w).
            \<exists>l. m_leased (w_mgr w) (rid r) = Some l \<and> lease_for cfg r l)
    \<and> dom (m_leased (w_mgr w)) = rid ` set_mset (leased_requests (w_threads w) (w_mgr w))"
  using reachable_lease_inv [OF assms] by (simp add: lease_inv_def)

text \<open>
  C27: giving semaphores back never blocks. In every reachable state a worker that
  unwinds a cancelled acquisition or releases its semaphores finds a token in each, so
  the receive that would wait in \<open>acquire\<close> and the default branch of \<open>release\<close> are never
  taken, and the worker reaches the end of its job.
\<close>

theorem release_never_blocks:
  assumes "reachable cfg n db0 w" "th \<in># w_threads w" "th = T_Unwind (Suc k) r \<or> th = T_Release (Suc k) r"
  shows "0 < sem_len (w_mgr w) (sem_keys (rq_Target r) ! k)
    \<and> thread_step cfg ch th (w_mgr w) (w_db w) =
        Some ([case th of T_Unwind _ _ \<Rightarrow> T_Unwind k r | _ \<Rightarrow> T_Release k r],
              sem_put (w_mgr w) (sem_keys (rq_Target r) ! k) (sem_len (w_mgr w) (sem_keys (rq_Target r) ! k) - 1),
              w_db w)"
proof -
  let ?s = "sem_keys (rq_Target r) ! k"
  from reachable_sem_inv [OF assms(1)] assms(2) have "thread_wf th" by (simp add: sem_inv_def)
  with assms(3) have "k < 4" by auto
  then have "?s \<in> set (held th)" using assms(3) by (auto simp: take_sem_keys)
  with assms(2) have "?s \<in># msum held (w_threads w)" by (rule in_msum)
  moreover have "sem_len (w_mgr w) ?s = count (msum held (w_threads w)) ?s"
    using reachable_sem_inv [OF assms(1)] by (simp add: sem_inv_def)
  ultimately have "0 < sem_len (w_mgr w) ?s" by simp
  with assms(3) show ?thesis by (auto simp: step_Unwind_def step_Release_def Let_def)
qed

section \<open>A run\<close>

text \<open>Executing given actions from a list of threads: a call, or a step of the thread at an index.\<close>

datatype action = Call Request | Exec nat choice

fun run_actions :: "'db Config \<Rightarrow> action list \<Rightarrow> thread list \<Rightarrow> Mgr \<Rightarrow> 'db \<Rightarrow> (thread list \<times> Mgr \<times> 'db) option" where
  "run_actions cfg [] L m db = Some (L, m, db)"
| "run_actions cfg (Call req # as) L m db = run_actions cfg as (L @ [T_Enqueue req]) m db"
| "run_actions cfg (Exec i ch # as) L m db =
     (if i < length L \<and> (case L ! i of T_Renewer \<Rightarrow> False | _ \<Rightarrow> True) then
        (case thread_step cfg ch (L ! i) m db of
           None \<Rightarrow> None
         | Some (ths, m', db') \<Rightarrow> run_actions cfg as (take i L @ ths @ drop (Suc i) L) m' db')
      else None)"

lemma run_actions_reachable:
  assumes "run_actions cfg as L m db = Some (L', m', db')"
    and "reachable cfg n db0 \<lparr>w_threads = mset L, w_mgr = m, w_db = db\<rparr>"
  shows "reachable cfg n db0 \<lparr>w_threads = mset L', w_mgr = m', w_db = db'\<rparr>"
  using assms
proof (induction cfg as L m db rule: run_actions.induct)
  case (2 cfg req as L m db)
  from reachable.step [OF 2(3) call [OF refl, of cfg _ req]] 2(1,2) show ?case by simp
next
  case (3 cfg i ch as L m db)
  then obtain ths m1 db1 where i: "i < length L" "L ! i \<noteq> T_Renewer"
    and st: "thread_step cfg ch (L ! i) m db = Some (ths, m1, db1)"
    and rn: "run_actions cfg as (take i L @ ths @ drop (Suc i) L) m1 db1 = Some (L', m', db')"
    by (auto split: if_splits option.splits thread.splits)
  have "mset L = add_mset (L ! i) (mset (take i L) + mset (drop (Suc i) L))"
    using id_take_nth_drop [OF i(1)] by (metis mset_append mset.simps(2) union_mset_add_mset_right)
  then have "step cfg \<lparr>w_threads = mset L, w_mgr = m, w_db = db\<rparr>
      \<lparr>w_threads = mset ths + (mset (take i L) + mset (drop (Suc i) L)), w_mgr = m1, w_db = db1\<rparr>"
    using st i(2) by (intro exec [where th = "L ! i" and ch = ch]) auto
  from reachable.step [OF 3(3) this] have "reachable cfg n db0
      \<lparr>w_threads = mset (take i L @ ths @ drop (Suc i) L), w_mgr = m1, w_db = db1\<rparr>"
    by (simp add: ac_simps)
  with "3.IH" i st rn show ?case by (auto split: thread.splits)
qed simp

text \<open>
  One worker, leases in the PostgreSQL table. A request for \<open>core-1\<close> is queued and taken
  by the worker up to its handler; a second request for the same target arrives before.
\<close>

definition demo_config :: "lease_table Config" where
  "demo_config = normalize None 7 \<lparr>cfg_QueueSize = 2, cfg_MaxGlobalConcurrency = 1,
     cfg_MaxPerVendorConcurrency = 0, cfg_MaxPerGroupConcurrency = 0, cfg_MaxPerSiteConcurrency = 0,
     cfg_MaxNewConnectionsPerSecond = 0, cfg_MaxAttempts = 3, cfg_BackoffInitial = 0, cfg_BackoffMax = 0,
     cfg_CircuitFailureThreshold = 2, cfg_CircuitOpenDuration = 0, cfg_WorkerID = ''a'',
     cfg_LeaseStore = Some (pg_LeaseStore pg_micro), cfg_LeaseTTL = 0, cfg_LeaseRenewInterval = 0\<rparr>"

definition demo_request :: Request where
  "demo_request = \<lparr>rq_Job = \<lparr>j_ID = '''', j_TargetID = '''', j_Group = '''', j_Trigger = ''manual'',
       j_Actor = '''', j_Status = StatusUnset, j_Attempt = 0, j_QueuedAt = 0, j_StartedAt = 0, j_UpdatedAt = 0\<rparr>,
     rq_Target = empty_target\<lparr>t_ID := ''core-1'', t_Vendor := ''cisco''\<rparr>\<rparr>"

definition demo_result :: "JobStatus \<Rightarrow> JobResult" where
  "demo_result st = \<lparr>jr_JobID = '''', jr_TargetID = '''', jr_Status = st, jr_Attempt = 0, jr_Err = None,
     jr_ErrorText = '''', jr_StartedAt = 0, jr_FinishedAt = 0, jr_Duration = 0, jr_RevisionID = ''''\<rparr>"

definition demo_choice :: choice where
  "demo_choice = \<lparr>ch_now = 5000, ch_now' = 5000, ch_cancel = False, ch_jobID = ''job-1'', ch_db = DbOk,
     ch_limiter = True, ch_result = demo_result StatusSuccessChanged, ch_order = []\<rparr>"

definition demo_actions :: "action list" where
  "demo_actions = [Call demo_request, Exec 2 demo_choice, Exec 2 demo_choice, Exec 2 demo_choice,
     Exec 2 demo_choice, Exec 2 demo_choice,
     Call demo_request, Exec 3 (demo_choice\<lparr>ch_jobID := ''job-2''\<rparr>), Exec 3 demo_choice,
     Exec 0 demo_choice, Exec 0 demo_choice, Exec 0 demo_choice, Exec 0 demo_choice, Exec 0 demo_choice,
     Exec 0 demo_choice, Exec 0 demo_choice]"

definition demo_run :: "action list \<Rightarrow> (thread list \<times> Mgr \<times> lease_table) option" where
  "demo_run as = run_actions demo_config as [T_Idle, T_Renewer] New_mgr (\<lambda>_. None)"

definition demo_world :: "action list \<Rightarrow> lease_table World" where
  "demo_world as = (case demo_run as of
     None \<Rightarrow> Start demo_config 1 (\<lambda>_. None)
   | Some (L, m, db) \<Rightarrow> \<lparr>w_threads = mset L, w_mgr = m, w_db = db\<rparr>)"

lemma demo_reachable: "reachable demo_config 1 (\<lambda>_. None) (demo_world as)"
proof -
  have "cfg_LeaseStore demo_config = Some (pg_LeaseStore pg_micro)"
    by (simp add: demo_config_def normalize_def Let_def)
  then have "Start demo_config 1 (\<lambda>_. None)
      = \<lparr>w_threads = mset [T_Idle, T_Renewer], w_mgr = New_mgr, w_db = (\<lambda>_. None)\<rparr>"
    by (simp add: Start_def numeral_nat add_mset_commute)
  with init [of demo_config 1 "\<lambda>_. None"]
  have "reachable demo_config 1 (\<lambda>_. None) \<lparr>w_threads = mset [T_Idle, T_Renewer], w_mgr = New_mgr, w_db = (\<lambda>_. None)\<rparr>"
    by simp
  then show ?thesis
    by (auto simp: demo_world_def demo_run_def init split: option.splits dest: run_actions_reachable)
qed

definition demo_summary :: "action list \<Rightarrow> (string list \<times> bool \<times> nat \<times> string option) option" where
  "demo_summary as =
     (case demo_run as of
        None \<Rightarrow> None
      | Some (L, m, db) \<Rightarrow>
          Some (map (\<lambda>th. case th of T_Handle r \<Rightarrow> rid r | T_Returned (Some e) \<Rightarrow> error_text e
                       | T_Returned None \<Rightarrow> ''ok'' | T_Renewer \<Rightarrow> ''renewer'' | T_Release k r \<Rightarrow> ''releasing''
                       | _ \<Rightarrow> ''other'') L,
                ''core-1'' \<in> m_active m, sem_len m (SVendor ''cisco''),
                map_option wl_JobID (m_leased m ''core-1'')))"

lemma demo_summary_handling:
  "demo_summary demo_actions = Some ([''core-1'', ''renewer'', ''ok'',
     ''target already has an active job: target core-1''], True, 1, Some ''job-1'')"
  by code_simp

lemma demo_summary_world:
  assumes "demo_summary as = Some (ths, act, v, j)"
  shows "(''core-1'' \<in> m_active (w_mgr (demo_world as)) \<longleftrightarrow> act)
    \<and> sem_len (w_mgr (demo_world as)) (SVendor ''cisco'') = v
    \<and> map_option wl_JobID (m_leased (w_mgr (demo_world as)) ''core-1'') = j"
  using assms by (auto simp: demo_summary_def demo_world_def split: option.splits)

lemma demo_limits: "sem_cap demo_config (SVendor k) = 1" "nat (cfg_QueueSize demo_config) = 2"
  by (simp_all add: demo_config_def normalize_def or_default_def Let_def)

theorem one_active_job_per_target_witness:
  "reachable demo_config 1 (\<lambda>_. None) (demo_world demo_actions)
   \<and> count (image_mset rid (requests (w_threads (demo_world demo_actions)) (w_mgr (demo_world demo_actions)))) ''core-1'' = 1
   \<and> length (m_queue (w_mgr (demo_world demo_actions))) \<le> 2"
  using one_active_job_per_target [OF demo_reachable, of demo_actions]
    demo_reachable [of demo_actions] demo_summary_world [OF demo_summary_handling]
  by (simp add: demo_limits)

theorem concurrency_limits_witness:
  "reachable demo_config 1 (\<lambda>_. None) (demo_world demo_actions)
   \<and> sem_len (w_mgr (demo_world demo_actions)) (SVendor ''cisco'') = 1
   \<and> running_at (SVendor ''cisco'') (demo_world demo_actions) \<le> 1
   \<and> count (msum held (w_threads (demo_world demo_actions))) (SVendor ''cisco'') = 1"
  using concurrency_limits [OF demo_reachable, of demo_actions "SVendor ''cisco''"]
    demo_reachable [of demo_actions] demo_summary_world [OF demo_summary_handling]
  by simp

theorem leases_cover_jobs_witness:
  "reachable demo_config 1 (\<lambda>_. None) (demo_world demo_actions)
   \<and> (\<exists>r. r \<in># leased_requests (w_threads (demo_world demo_actions)) (w_mgr (demo_world demo_actions))
        \<and> rid r = ''core-1'' \<and> j_ID (rq_Job r) = ''job-1'')"
proof -
  let ?w = "demo_world demo_actions"
  have S: "cfg_LeaseStore demo_config = Some (pg_LeaseStore pg_micro)"
    by (simp add: demo_config_def normalize_def Let_def)
  note cover = leases_cover_jobs [OF demo_reachable S, of demo_actions]
  have j: "map_option wl_JobID (m_leased (w_mgr ?w) ''core-1'') = Some ''job-1''"
    using demo_summary_world [OF demo_summary_handling] by simp
  then have "''core-1'' \<in> dom (m_leased (w_mgr ?w))" by auto
  with cover obtain r where r: "r \<in># leased_requests (w_threads ?w) (w_mgr ?w)" "rid r = ''core-1''"
    by auto
  with cover j have "j_ID (rq_Job r) = ''job-1''" by (auto simp: lease_for_def)
  with r demo_reachable [of demo_actions] show ?thesis by blast
qed

fun is_release4 :: "thread \<Rightarrow> bool" where
  "is_release4 (T_Release n r) = (n = 4)"
| "is_release4 th = False"

theorem release_never_blocks_witness:
  "\<exists>r. T_Release 4 r \<in># w_threads (demo_world (demo_actions @ [Exec 0 demo_choice, Exec 0 demo_choice]))
     \<and> 0 < sem_len (w_mgr (demo_world (demo_actions @ [Exec 0 demo_choice, Exec 0 demo_choice])))
             (sem_keys (rq_Target r) ! 3)"
proof -
  let ?as = "demo_actions @ [Exec 0 demo_choice, Exec 0 demo_choice]"
  have rel: "case demo_run ?as of None \<Rightarrow> False | Some (L, m, db) \<Rightarrow>
      (case L of [] \<Rightarrow> False | th # L' \<Rightarrow> is_release4 th)"
    by code_simp
  then obtain L m db where run: "demo_run ?as = Some (L, m, db)"
    by (cases "demo_run ?as") auto
  with rel obtain th L' where L: "L = th # L'" "is_release4 th" by (cases L) auto
  then obtain r where "th = T_Release 4 r" by (cases th) auto
  with L run have r: "T_Release 4 r \<in># w_threads (demo_world ?as)" by (simp add: demo_world_def)
  have "T_Unwind (Suc 3) r = T_Release 4 r \<or> T_Release 4 r = T_Release (Suc 3) r" by simp
  then have "0 < sem_len (w_mgr (demo_world ?as)) (sem_keys (rq_Target r) ! 3)"
    using release_never_blocks [OF demo_reachable r, of 3 r] by simp
  with r show ?thesis by blast
qed

section \<open>Backoff and circuit breaker\<close>




text \<open>An initial delay above the maximum is used as it is after the first attempt.\<close>

lemma backoff_first_ignores_max:
  "backoff (demo_config\<lparr>cfg_BackoffInitial := Hour\<rparr>) 1 = Hour
   \<and> backoff (demo_config\<lparr>cfg_BackoffInitial := Hour\<rparr>) 2 = Minute"
  by code_simp

text \<open>The outcomes of jobs as the manager records them: target, time and success.\<close>

definition record_outcome :: "'db Config \<Rightarrow> string \<times> instant \<times> bool \<Rightarrow> Mgr \<Rightarrow> Mgr" where
  "record_outcome cfg = (\<lambda>(tid, now, ok) m. if ok then recordSuccess tid m else recordFailure cfg now tid m)"

text \<open>The times of the failures of a target since its last success, the latest first.\<close>

fun recent_failures :: "string \<Rightarrow> (string \<times> instant \<times> bool) list \<Rightarrow> instant list" where
  "recent_failures t [] = []"
| "recent_failures t ((tid, now, ok) # h) =
     (if tid \<noteq> t then recent_failures t h else if ok then [] else now # recent_failures t h)"

lemma length_recent_failures: "length (recent_failures t h) \<le> length h"
  by (induction t h rule: recent_failures.induct) auto

lemma circuit_after:
  assumes "length h < 2 ^ 62" "0 < cfg_CircuitFailureThreshold cfg"
  shows "circuit_of (fold (record_outcome cfg) (rev h) New_mgr) t =
    \<lparr>ci_failures = int (length (recent_failures t h)),
     ci_openUntil = (if int (length (recent_failures t h)) \<ge> cfg_CircuitFailureThreshold cfg
                     then hd (recent_failures t h) + cfg_CircuitOpenDuration cfg else 0)\<rparr>"
  using assms(1)
proof (induction h)
  case Nil
  then show ?case using assms(2) by (simp add: circuit_of_def New_mgr_def)
next
  case (Cons o1 h)
  obtain tid now ok where o1: "o1 = (tid, now, ok)" by (cases o1)
  have "int (length (recent_failures t h)) + 1 < 2 ^ 63"
    using length_recent_failures [of t h] Cons.prems by simp
  then have "wrap64 (int (length (recent_failures t h)) + 1) = int (length (recent_failures t h)) + 1"
    by (intro wrap64_id) auto
  with Cons show ?case
    using assms(2)
    by (auto simp: o1 record_outcome_def recordSuccess_def recordFailure_def circuit_of_def Let_def
        fun_upd_def split: option.splits if_splits)
qed

text \<open>
  C28: the circuit breaker opens exactly as configured. After any history of outcomes of
  all targets, a target without an active job is refused because of its circuit exactly
  when it failed at least as often as the threshold since its last success and the open
  duration since the latest of these failures is not over; otherwise it is reserved.
\<close>

theorem circuit_breaker_exact:
  assumes "length h < 2 ^ 62" "0 < cfg_CircuitFailureThreshold cfg" "0 \<le> now"
    and "m_cb m = m_cb (fold (record_outcome cfg) (rev h) New_mgr)" "rid req \<notin> m_active m"
  shows "(case reserve_check now req m of Inl e \<Rightarrow> error_is e ErrCircuitOpen | Inr m' \<Rightarrow> m_active m' = insert (rid req) (m_active m))
    \<and> ((\<exists>e. reserve_check now req m = Inl e) \<longleftrightarrow>
        cfg_CircuitFailureThreshold cfg \<le> int (length (recent_failures (rid req) h))
        \<and> now < hd (recent_failures (rid req) h) + cfg_CircuitOpenDuration cfg)"
proof -
  have "circuit_of m (rid req) = circuit_of (fold (record_outcome cfg) (rev h) New_mgr) (rid req)"
    using assms(4) by (simp add: circuit_of_def)
  with circuit_after [OF assms(1,2)] assms(3,5) show ?thesis
    by (auto simp: reserve_check_def Let_def ErrCircuitOpen_def)
qed

definition demo_history :: "(string \<times> instant \<times> bool) list" where
  "demo_history = [(''core-1'', 9000, False), (''edge'', 8500, True), (''core-1'', 8000, False), (''core-1'', 7000, True)]"

theorem circuit_breaker_exact_witness:
  "(\<exists>e. reserve_check 10000 demo_request (fold (record_outcome demo_config) (rev demo_history) New_mgr) = Inl e)
   \<and> (\<forall>e. reserve_check (9000 + 30 * Minute) demo_request (fold (record_outcome demo_config) (rev demo_history) New_mgr) \<noteq> Inl e)"
proof -
  let ?m = "fold (record_outcome demo_config) (rev demo_history) New_mgr"
  have c: "cfg_CircuitFailureThreshold demo_config = 2" "cfg_CircuitOpenDuration demo_config = 30 * Minute"
    by (simp_all add: demo_config_def normalize_def or_default_def Let_def)
  have f: "recent_failures (rid demo_request) demo_history = [9000, 8000]" by code_simp
  have l: "length demo_history < 2 ^ 62" by (simp add: demo_history_def)
  have a: "rid demo_request \<notin> m_active ?m" by code_simp
  note x = circuit_breaker_exact [OF l, where cfg = demo_config and m = ?m and req = demo_request, OF _ _ refl a,
      unfolded c f]
  show ?thesis using x [of 10000] x [of "9000 + 30 * Minute"] by simp
qed

section \<open>Normalized configurations\<close>

text \<open>A configuration all of whose limits, delays and periods are positive.\<close>

definition config_ok :: "'db Config \<Rightarrow> bool" where
  "config_ok c =
     (0 < cfg_QueueSize c \<and> 0 < cfg_MaxGlobalConcurrency c \<and> 0 < cfg_MaxPerVendorConcurrency c
      \<and> 0 < cfg_MaxPerGroupConcurrency c \<and> 0 < cfg_MaxPerSiteConcurrency c
      \<and> 0 < cfg_MaxNewConnectionsPerSecond c \<and> 0 < cfg_MaxAttempts c \<and> 0 < cfg_BackoffInitial c
      \<and> 0 < cfg_BackoffMax c \<and> 0 < cfg_CircuitFailureThreshold c \<and> 0 < cfg_CircuitOpenDuration c
      \<and> cfg_WorkerID c \<noteq> [] \<and> 0 < cfg_LeaseTTL c \<and> 0 < cfg_LeaseRenewInterval c)"

lemma or_default_pos: "0 < d \<Longrightarrow> 0 < or_default v d"
  by (simp add: or_default_def)

lemma or_default_id: "0 < v \<Longrightarrow> or_default v d = v"
  by (simp add: or_default_def)

lemma normalize_ok: "config_ok (normalize h pid c)"
  by (auto simp: config_ok_def normalize_def Let_def defaultWorkerID_def intro!: or_default_pos)

text \<open> \<open>normalize\<close> makes every configuration usable: all limits, delays and periods are
  positive and the worker has a name; what was already usable is left as it is, so
  normalizing twice changes nothing; and a renewal period that is not configured is a
  third of the lease's time to live, which leaves room for two renewals before expiry.
\<close>

theorem normalize_usable:
  "config_ok (normalize h pid c) \<and> (config_ok c \<longrightarrow> normalize h pid c = c)
   \<and> normalize h pid (normalize h pid c) = normalize h pid c
   \<and> (cfg_LeaseRenewInterval c \<le> 0 \<and> 3 \<le> cfg_LeaseTTL (normalize h pid c) \<longrightarrow>
        3 * cfg_LeaseRenewInterval (normalize h pid c) \<le> cfg_LeaseTTL (normalize h pid c))"
proof -
  have id: "normalize h pid d = d" if "config_ok d" for d :: "'a Config"
    using that by (simp add: config_ok_def normalize_def Let_def or_default_id)
  moreover have "3 * cfg_LeaseRenewInterval (normalize h pid c) \<le> cfg_LeaseTTL (normalize h pid c)"
    if "cfg_LeaseRenewInterval c \<le> 0" "3 \<le> cfg_LeaseTTL (normalize h pid c)"
  proof -
    define ttl where "ttl = or_default (cfg_LeaseTTL c) (15 * Minute)"
    have ttl: "cfg_LeaseTTL (normalize h pid c) = ttl" by (simp add: normalize_def Let_def ttl_def)
    with that(2) have "3 \<le> ttl" by simp
    then have "1 \<le> ttl div 3" by linarith
    have "cfg_LeaseRenewInterval (normalize h pid c) = or_default (go_div ttl 3) Minute"
      using that(1) by (simp add: normalize_def Let_def ttl_def)
    with \<open>3 \<le> ttl\<close> \<open>1 \<le> ttl div 3\<close> have "cfg_LeaseRenewInterval (normalize h pid c) = ttl div 3"
      by (simp add: go_div_nonneg or_default_def)
    moreover have "3 * (ttl div 3) \<le> ttl" by linarith
    ultimately show ?thesis using ttl by simp
  qed
  ultimately show ?thesis using normalize_ok by blast
qed

theorem normalize_usable_witness:
  "config_ok demo_config \<and> normalize None 7 demo_config = demo_config
   \<and> 3 * cfg_LeaseRenewInterval demo_config \<le> cfg_LeaseTTL demo_config"
proof -
  have c: "config_ok demo_config" using normalize_ok by (simp add: demo_config_def)
  have n: "normalize None 7 demo_config = demo_config"
    using normalize_usable [of None 7 demo_config] c by blast
  have "3 * cfg_LeaseRenewInterval demo_config \<le> cfg_LeaseTTL demo_config" by code_simp
  with c n show ?thesis by blast
qed



end
