(* ===== verification/Diff.thy ===== *)
theory Diff
  imports Core_Types
begin

text \<open>
  The line diff and the risk classification of \<open>internal/pipeline/diff.go\<close>: \<open>splitLines\<close>,
  \<open>containsAhead\<close>, the loop of \<open>UnifiedDiff\<close> and \<open>ClassifyRisk\<close> with its rule table. The
  lemmas show that the body of a diff determines both files and that the risk is the
  highest level of the rules that hit, so that risk levels form a linear order.
\<close>

abbreviation (input) LF :: char where "LF \<equiv> CHR 0x0A"
abbreviation (input) CR :: char where "CR \<equiv> CHR 0x0D"

section \<open>Risk\<close>

fun riskRank :: "RiskLevel \<Rightarrow> int" where
  "riskRank RiskCritical = 4"
| "riskRank RiskHigh = 3"
| "riskRank RiskMedium = 2"
| "riskRank RiskLow = 1"
| "riskRank RiskNone = 0"

lemma riskRank_inj: "riskRank a = riskRank b \<longleftrightarrow> a = b"
  by (cases a; cases b) auto

text \<open>Risk levels are ordered by their rank.\<close>

instantiation RiskLevel :: linorder
begin

definition less_eq_RiskLevel :: "RiskLevel \<Rightarrow> RiskLevel \<Rightarrow> bool" where
  "less_eq_RiskLevel a b = (riskRank a \<le> riskRank b)"

definition less_RiskLevel :: "RiskLevel \<Rightarrow> RiskLevel \<Rightarrow> bool" where
  "less_RiskLevel a b = (riskRank a < riskRank b)"

instance
  by standard (auto simp: less_eq_RiskLevel_def less_RiskLevel_def riskRank_inj)

end

record risk_rule =
  rl_level :: RiskLevel
  rl_cat :: string
  rl_hit :: string
  rl_terms :: "string list"

definition risk_rules :: "risk_rule list" where
  "risk_rules =
    [\<lparr>rl_level = RiskCritical, rl_cat = ''aaa'', rl_hit = ''aaa-disabled-or-admin'',
      rl_terms = [''no aaa'', ''authentication none'', ''privilege 15'', ''role network-admin'', ''logging disable'']\<rparr>,
     \<lparr>rl_level = RiskHigh, rl_cat = ''aaa'', rl_hit = ''aaa-secret-or-server'',
      rl_terms = [''tacacs'', ''radius'', ''hwtacacs'', ''aaa_shared_secret'']\<rparr>,
     \<lparr>rl_level = RiskHigh, rl_cat = ''snmp'', rl_hit = ''snmp-community'',
      rl_terms = [''snmp'', ''snmp_community'']\<rparr>,
     \<lparr>rl_level = RiskHigh, rl_cat = ''vpn'', rl_hit = ''vpn-or-routing-auth'',
      rl_terms = [''ipsec'', ''pre-shared-key'', ''routing_auth_key'', ''bgp'']\<rparr>,
     \<lparr>rl_level = RiskMedium, rl_cat = ''routing'', rl_hit = ''routing-policy'',
      rl_terms = [''route-policy'', ''policy-options'', ''router bgp'', ''ospf'', ''isis'']\<rparr>,
     \<lparr>rl_level = RiskMedium, rl_cat = ''management'', rl_hit = ''mgmt-service'',
      rl_terms = [''ntp'', ''syslog'', ''logging host'', ''dns'', ''name-server'']\<rparr>]"

type_synonym risk_state = "RiskLevel \<times> string set \<times> string set"

text \<open>The two nested loops: the terms of a rule, and the rules.\<close>

fun risk_terms :: "string \<Rightarrow> risk_rule \<Rightarrow> string list \<Rightarrow> risk_state \<Rightarrow> risk_state" where
  "risk_terms lower r [] st = st"
| "risk_terms lower r (term # terms) (mx, cats, hits) =
     risk_terms lower r terms
       (if Contains lower (ToLower term)
        then (if riskRank (rl_level r) > riskRank mx then rl_level r else mx,
              insert (rl_cat r) cats, insert (rl_hit r) hits)
        else (mx, cats, hits))"

fun risk_loop :: "string \<Rightarrow> risk_rule list \<Rightarrow> risk_state \<Rightarrow> risk_state" where
  "risk_loop lower [] st = st"
| "risk_loop lower (r # rs) st = risk_loop lower rs (risk_terms lower r (rl_terms r) st)"

definition ClassifyRisk :: "string \<Rightarrow> risk_state" where
  "ClassifyRisk diff =
     (let (mx, cats, hits) = risk_loop (ToLower diff) risk_rules (RiskLow, {}, {})
      in (if TrimSpace diff = [] then RiskNone else mx, cats, hits))"

section \<open>The diff\<close>

definition splitLines :: "string \<Rightarrow> string list" where
  "splitLines s =
     (let s1 = TrimSuffix (ReplaceAll s [CR, LF] [LF]) [LF]
      in if s1 = [] then [] else Split s1 LF)"

definition containsAhead :: "string list \<Rightarrow> nat \<Rightarrow> string \<Rightarrow> nat \<Rightarrow> bool" where
  "containsAhead lines start value mx =
     (let end = (if start + mx > length lines then length lines else start + mx)
      in list_ex (\<lambda>i. lines ! i = value) [start..<end])"

text \<open>The loop over the two files; the lines produced and the two counters.\<close>

function diff_loop :: "string list \<Rightarrow> string list \<Rightarrow> nat \<Rightarrow> nat \<Rightarrow> string list \<Rightarrow> int \<Rightarrow> int \<Rightarrow> string list \<times> int \<times> int" where
  "diff_loop oldLines newLines i j diffLines added removed =
     (if \<not> (i < length oldLines \<or> j < length newLines) then (diffLines, added, removed)
      else if i < length oldLines \<and> j < length newLines \<and> oldLines ! i = newLines ! j
      then diff_loop oldLines newLines (i + 1) (j + 1) (diffLines @ ['' '' @ oldLines ! i]) added removed
      else if j < length newLines \<and> (i \<ge> length oldLines \<or> \<not> containsAhead oldLines i (newLines ! j) 6)
      then diff_loop oldLines newLines i (j + 1) (diffLines @ [''+'' @ newLines ! j]) (added + 1) removed
      else if i < length oldLines
      then diff_loop oldLines newLines (i + 1) j (diffLines @ [''-'' @ oldLines ! i]) added (removed + 1)
      else diff_loop oldLines newLines i (j + 1) diffLines added removed)"
  by pat_completeness auto
termination
  by (relation "measure (\<lambda>(os, ns, i, j, _). (length os - i) + (length ns - j))") auto

declare diff_loop.simps [simp del]

text \<open>\<open>ctx\<close> is the context's error when it is done.\<close>

definition UnifiedDiff :: "go_error option \<Rightarrow> string \<Rightarrow> string \<Rightarrow> string \<Rightarrow> string \<Rightarrow> string \<Rightarrow> go_error + DiffResult" where
  "UnifiedDiff ctx targetID fromRev toRev oldContent newContent =
     (case ctx of Some e \<Rightarrow> Inl e
      | None \<Rightarrow>
        (let (diffLines, added, removed) =
               diff_loop (splitLines oldContent) (splitLines newContent) 0 0
                 [''--- '' @ fromRev, ''+++ '' @ toRev] 0 0;
             text = Join diffLines [LF] @ [LF];
             (risk, cats, hits) = ClassifyRisk text
         in Inr \<lparr>d_TargetID = targetID, d_FromRevision = fromRev, d_ToRevision = toRev,
                 d_UnifiedDiff = text, d_AddedLines = added, d_RemovedLines = removed,
                 d_Risk = risk, d_Categories = cats, d_RuleHits = hits\<rparr>))"

section \<open>Facts about the diff\<close>

text \<open>The sides of a diff body: the lines a reader keeps for the old and for the new file.\<close>

definition old_side :: "string list \<Rightarrow> string list" where
  "old_side body = map tl (filter (\<lambda>l. hd l \<noteq> CHR ''+'') body)"

definition new_side :: "string list \<Rightarrow> string list" where
  "new_side body = map tl (filter (\<lambda>l. hd l \<noteq> CHR ''-'') body)"

definition marked :: "char \<Rightarrow> string list \<Rightarrow> int" where
  "marked c body = int (length (filter (\<lambda>l. hd l = c) body))"

lemma side_simps [simp]:
  "old_side [] = []" "new_side [] = []" "marked c [] = 0"
  "old_side (l # b) = (if hd l \<noteq> CHR ''+'' then tl l # old_side b else old_side b)"
  "new_side (l # b) = (if hd l \<noteq> CHR ''-'' then tl l # new_side b else new_side b)"
  "marked c (l # b) = (if hd l = c then 1 else 0) + marked c b"
  by (simp_all add: old_side_def new_side_def marked_def)

text \<open>The loop appends a body that reads as the rests of both files, counted exactly, with every line marked.\<close>

lemma diff_loop_body:
  assumes "i \<le> length os" "j \<le> length ns"
  shows "\<exists>body. diff_loop os ns i j acc a r
      = (acc @ body, a + marked (CHR ''+'') body, r + marked (CHR ''-'') body)
    \<and> old_side body = drop i os \<and> new_side body = drop j ns
    \<and> (\<forall>l\<in>set body. l \<noteq> [] \<and> hd l \<in> {CHR '' '', CHR ''+'', CHR ''-''} \<and> tl l \<in> set os \<union> set ns)"
    (is "\<exists>body. ?P os ns i j acc a r body")
  using assms
proof (induction os ns i j acc a r rule: diff_loop.induct)
  case (1 os ns i j acc a r)
  consider "i \<ge> length os" "j \<ge> length ns"
    | "i < length os" "j < length ns" "os ! i = ns ! j"
    | "\<not> (i < length os \<and> j < length ns \<and> os ! i = ns ! j)" "j < length ns"
      "i \<ge> length os \<or> \<not> containsAhead os i (ns ! j) 6"
    | "\<not> (i < length os \<and> j < length ns \<and> os ! i = ns ! j)" "i < length os"
      "\<not> (j < length ns \<and> (i \<ge> length os \<or> \<not> containsAhead os i (ns ! j) 6))"
    by linarith
  then show ?case
  proof cases
    case 1
    then show ?thesis by (subst diff_loop.simps) (auto intro!: exI [of _ "[]"])
  next
    case 2
    then obtain body where "?P os ns (i + 1) (j + 1) (acc @ ['' '' @ os ! i]) a r body"
      using "1.IH"(1) by (auto simp: Suc_le_eq)
    moreover have "drop i os = ns ! j # drop (Suc i) os" "drop j ns = ns ! j # drop (Suc j) ns"
      using 2 Cons_nth_drop_Suc [of i os] Cons_nth_drop_Suc [of j ns] by simp_all
    ultimately show ?thesis using 2
      by (subst diff_loop.simps)
         (auto intro!: exI [of _ "('' '' @ os ! i) # body"])
  next
    case 3
    then obtain body where "?P os ns i (j + 1) (acc @ [''+'' @ ns ! j]) (a + 1) r body"
      using "1.IH"(2) "1.prems" by (auto simp: Suc_le_eq)
    with 3 show ?thesis
      by (subst diff_loop.simps)
         (auto intro!: exI [of _ "(''+'' @ ns ! j) # body"] simp: Cons_nth_drop_Suc)
  next
    case 4
    then obtain body where "?P os ns (i + 1) j (acc @ [''-'' @ os ! i]) a (r + 1) body"
      using "1.IH"(3) "1.prems" by (auto simp: Suc_le_eq)
    with 4 show ?thesis
      by (subst diff_loop.simps)
         (auto intro!: exI [of _ "(''-'' @ os ! i) # body"] simp: Cons_nth_drop_Suc)
  qed
qed

lemma TrimSuffix_append [simp]: "TrimSuffix (s @ p) p = s"
  by (simp add: TrimSuffix_def HasSuffix_def)

lemma splitLines_no_LF: "l \<in> set (splitLines s) \<Longrightarrow> LF \<notin> set l"
  by (auto simp: splitLines_def Let_def dest: Split_parts split: if_splits)

lemma UnifiedDiff_parts:
  assumes "UnifiedDiff None t f t' old new = Inr d"
  obtains body where "d_UnifiedDiff d = Join ([''--- '' @ f, ''+++ '' @ t'] @ body) [LF] @ [LF]"
    "old_side body = splitLines old" "new_side body = splitLines new"
    "d_AddedLines d = marked (CHR ''+'') body" "d_RemovedLines d = marked (CHR ''-'') body"
    "\<And>l. l \<in> set body \<Longrightarrow> LF \<notin> set l"
    "(d_Risk d, d_Categories d, d_RuleHits d) = ClassifyRisk (d_UnifiedDiff d)"
proof -
  obtain body where b: "diff_loop (splitLines old) (splitLines new) 0 0 [''--- '' @ f, ''+++ '' @ t'] 0 0
      = ([''--- '' @ f, ''+++ '' @ t'] @ body, 0 + marked (CHR ''+'') body, 0 + marked (CHR ''-'') body)"
    and sides: "old_side body = splitLines old" "new_side body = splitLines new"
    and ls: "\<forall>l\<in>set body. l \<noteq> [] \<and> hd l \<in> {CHR '' '', CHR ''+'', CHR ''-''}
        \<and> tl l \<in> set (splitLines old) \<union> set (splitLines new)"
    using diff_loop_body [of 0 "splitLines old" 0 "splitLines new" "[''--- '' @ f, ''+++ '' @ t']" 0 0]
    by auto
  have "LF \<notin> set l" if "l \<in> set body" for l
    using ls that splitLines_no_LF by (cases l) auto
  with assms b sides that show thesis
    by (auto simp: UnifiedDiff_def Let_def split: prod.splits)
qed

text \<open>
  C36: a diff loses nothing. Reading the lines of the diff text after the two header
  lines, the lines not marked as added are exactly the lines of the old content and the
  lines not marked as removed those of the new content, in order, and the counters are
  the numbers of lines so marked.
\<close>

theorem UnifiedDiff_reconstructs:
  assumes "UnifiedDiff None t f t' old new = Inr d" "LF \<notin> set f" "LF \<notin> set t'"
  shows "let body = drop 2 (Split (TrimSuffix (d_UnifiedDiff d) [LF]) LF)
         in old_side body = splitLines old \<and> new_side body = splitLines new
            \<and> d_AddedLines d = marked (CHR ''+'') body \<and> d_RemovedLines d = marked (CHR ''-'') body"
proof -
  obtain body where b: "d_UnifiedDiff d = Join ([''--- '' @ f, ''+++ '' @ t'] @ body) [LF] @ [LF]"
    "old_side body = splitLines old" "new_side body = splitLines new"
    "d_AddedLines d = marked (CHR ''+'') body" "d_RemovedLines d = marked (CHR ''-'') body"
    and no_LF: "\<And>l. l \<in> set body \<Longrightarrow> LF \<notin> set l"
    using assms(1) by (rule UnifiedDiff_parts) blast
  have "\<forall>w\<in>set ([''--- '' @ f, ''+++ '' @ t'] @ body). LF \<notin> set w" using assms(2,3) no_LF by auto
  then have "Split (Join ([''--- '' @ f, ''+++ '' @ t'] @ body) [LF]) LF = [''--- '' @ f, ''+++ '' @ t'] @ body"
    by (intro Split_Join) auto
  then have "Split (TrimSuffix (d_UnifiedDiff d) [LF]) LF = [''--- '' @ f, ''+++ '' @ t'] @ body"
    unfolding b(1) TrimSuffix_append .
  then have "drop 2 (Split (TrimSuffix (d_UnifiedDiff d) [LF]) LF) = body" by simp
  with b(2-5) show ?thesis by (simp only: Let_def)
qed

definition demo_old :: string where
  "demo_old = ''host r1'' @ [CR, LF] @ ''ntp a'' @ [LF] @ ''end'' @ [LF]"

definition demo_new :: string where
  "demo_new = ''host r1'' @ [LF] @ ''snmp b'' @ [LF] @ ''end'' @ [LF]"

theorem UnifiedDiff_reconstructs_witness:
  "\<exists>d. UnifiedDiff None ''t'' ''a'' ''b'' demo_old demo_new = Inr d
     \<and> new_side (drop 2 (Split (TrimSuffix (d_UnifiedDiff d) [LF]) LF)) = [''host r1'', ''snmp b'', ''end'']
     \<and> d_AddedLines d = 1 \<and> d_RemovedLines d = 1"
proof -
  obtain d where d: "UnifiedDiff None ''t'' ''a'' ''b'' demo_old demo_new = Inr d"
    by (simp add: UnifiedDiff_def Let_def split_beta)
  have "snd (diff_loop (splitLines demo_old) (splitLines demo_new) 0 0 [''--- a'', ''+++ b''] 0 0) = (1, 1)"
    by code_simp
  with d have "d_AddedLines d = 1" "d_RemovedLines d = 1"
    by (auto simp: UnifiedDiff_def Let_def split_beta)
  moreover have "splitLines demo_new = [''host r1'', ''snmp b'', ''end'']" by code_simp
  ultimately show ?thesis using UnifiedDiff_reconstructs [OF d] d by (auto simp: Let_def)
qed

section \<open>Facts about the risk\<close>

text \<open>A rule hits when one of its terms occurs.\<close>

definition rule_hits :: "string \<Rightarrow> risk_rule \<Rightarrow> bool" where
  "rule_hits diff r = (\<exists>term\<in>set (rl_terms r). Contains (ToLower diff) (ToLower term))"

lemma risk_terms_eq:
  "risk_terms lower r terms (mx, cats, hits) =
     (if \<exists>term\<in>set terms. Contains lower (ToLower term)
      then (max mx (rl_level r), insert (rl_cat r) cats, insert (rl_hit r) hits) else (mx, cats, hits))"
  by (induction terms arbitrary: mx cats hits) (auto simp: max_def less_eq_RiskLevel_def riskRank_inj)

lemma Max_insert_max: "finite A \<Longrightarrow> Max (insert (max a b) A) = Max (insert a (insert b A))" for a :: "'a::linorder"
  by (cases "A = {}") (auto simp: max.assoc)

lemma risk_loop_eq:
  "risk_loop (ToLower diff) rs (mx, cats, hits) =
     (Max (insert mx (rl_level ` set (filter (rule_hits diff) rs))),
      cats \<union> rl_cat ` set (filter (rule_hits diff) rs), hits \<union> rl_hit ` set (filter (rule_hits diff) rs))"
proof (induction rs arbitrary: mx cats hits)
  case (Cons r rs)
  show ?case
  proof (cases "rule_hits diff r")
    case True
    then have "risk_loop (ToLower diff) (r # rs) (mx, cats, hits)
        = risk_loop (ToLower diff) rs (max mx (rl_level r), insert (rl_cat r) cats, insert (rl_hit r) hits)"
      by (simp add: risk_terms_eq flip: rule_hits_def)
    with True show ?thesis
      by (simp only: Cons.IH filter.simps if_True list.set image_insert Max_insert_max finite_imageI
          finite_set Un_insert_left Un_insert_right)
  next
    case False
    then have "risk_loop (ToLower diff) (r # rs) (mx, cats, hits) = risk_loop (ToLower diff) rs (mx, cats, hits)"
      by (simp add: risk_terms_eq flip: rule_hits_def)
    with False show ?thesis by (simp only: Cons.IH filter.simps if_False)
  qed
qed simp

text \<open>
  The classification is exact. The categories and rule hits are those of the rules
  one of whose terms occurs in the text in any case, the level is the highest of their
  levels and at least low, and the level of a blank text is none.
\<close>

theorem ClassifyRisk_exact:
  "ClassifyRisk diff =
     (let rs = filter (rule_hits diff) risk_rules
      in (if list_all is_space diff then RiskNone else Max (insert RiskLow (rl_level ` set rs)),
          rl_cat ` set rs, rl_hit ` set rs))"
  by (simp add: ClassifyRisk_def risk_loop_eq Let_def TrimSpace_eq_Nil list_all_iff)

lemma sublist_ToLower: "sublist a b \<Longrightarrow> sublist (ToLower a) (ToLower b)"
  unfolding sublist_def ToLower_def by (metis map_append)

lemma rule_hits_mono: "sublist a b \<Longrightarrow> rule_hits a r \<Longrightarrow> rule_hits b r"
  unfolding rule_hits_def Contains_iff
  by (blast intro: sublist_order.order.trans sublist_ToLower)

lemma sublist_Join: "l \<in> set ls \<Longrightarrow> sublist l (Join ls sep)"
proof (induction ls)
  case (Cons x ls)
  show ?case
  proof (cases "l = x")
    case True
    then show ?thesis by (cases ls) (auto intro: sublist_appendI)
  next
    case False
    with Cons obtain y ys where "ls = y # ys" "sublist l (Join ls sep)" by (cases ls) auto
    moreover from this have "Join (x # ls) sep = (x @ sep) @ Join ls sep" by simp
    ultimately show ?thesis by (metis sublist_append_leftI sublist_order.order.trans)
  qed
qed simp

text \<open>
  No risky line escapes. When a line of the new or of the old content contains a term
  of a rule, the diff has at least that rule's level and names its category and its rule,
  and no diff has the level none. The converse does not hold: the lines both contents
  share are context of the diff and count as well.
\<close>

theorem UnifiedDiff_risk_covers:
  assumes "UnifiedDiff None t f t' old new = Inr d" "r \<in> set risk_rules"
    and "l \<in> set (splitLines old) \<union> set (splitLines new)" "rule_hits l r"
  shows "rl_level r \<le> d_Risk d \<and> rl_cat r \<in> d_Categories d \<and> rl_hit r \<in> d_RuleHits d \<and> d_Risk d \<noteq> RiskNone"
proof -
  obtain body where b: "d_UnifiedDiff d = Join ([''--- '' @ f, ''+++ '' @ t'] @ body) [LF] @ [LF]"
    "old_side body = splitLines old" "new_side body = splitLines new"
    and c: "(d_Risk d, d_Categories d, d_RuleHits d) = ClassifyRisk (d_UnifiedDiff d)"
    using assms(1) by (rule UnifiedDiff_parts) blast
  from assms(3) b(2,3) have "l \<in> tl ` set body" unfolding old_side_def new_side_def
    by (metis (no_types, lifting) Un_iff filter_is_subset image_mono set_map subsetD)
  then obtain m where m: "m \<in> set body" "l = tl m" by blast
  then have "sublist l m" by (cases m) (auto intro: sublist_Cons_right)
  also have "sublist m (Join ([''--- '' @ f, ''+++ '' @ t'] @ body) [LF])"
    using m(1) by (intro sublist_Join) simp
  also have "sublist \<dots> (d_UnifiedDiff d)" unfolding b(1) by (rule sublist_append_rightI)
  finally have hit: "rule_hits (d_UnifiedDiff d) r" using assms(4) by (rule rule_hits_mono)
  have "\<not> list_all is_space (d_UnifiedDiff d)" unfolding b(1) by (simp add: is_space_def code_def)
  with c assms(2) hit have d: "d_Risk d = Max (insert RiskLow (rl_level ` set (filter (rule_hits (d_UnifiedDiff d)) risk_rules)))"
    "rl_cat r \<in> d_Categories d" "rl_hit r \<in> d_RuleHits d"
    by (auto simp: ClassifyRisk_exact Let_def)
  have "rl_level r \<le> d_Risk d" unfolding d(1) using assms(2) hit by (intro Max_ge) auto
  moreover have "RiskLow \<le> d_Risk d" unfolding d(1) by (intro Max_ge) auto
  then have "d_Risk d \<noteq> RiskNone" by (auto simp: less_eq_RiskLevel_def)
  ultimately show ?thesis using d by blast
qed

theorem ClassifyRisk_exact_witness:
  "ClassifyRisk ''No AAA'' = (RiskCritical, {''aaa''}, {''aaa-disabled-or-admin''})
   \<and> \<not> list_all is_space ''No AAA''
   \<and> filter (rule_hits ''No AAA'') risk_rules = [risk_rules ! 0]"
proof -
  have f: "filter (rule_hits ''No AAA'') risk_rules = [risk_rules ! 0]"
  proof -
    have "map (rule_hits ''No AAA'') risk_rules = [True, False, False, False, False, False]" by code_simp
    then show ?thesis by (simp add: risk_rules_def)
  qed
  have s: "\<not> list_all is_space ''No AAA''" by code_simp
  have r: "rl_level (risk_rules ! 0) = RiskCritical" "rl_cat (risk_rules ! 0) = ''aaa''"
    "rl_hit (risk_rules ! 0) = ''aaa-disabled-or-admin''"
    by (simp_all add: risk_rules_def)
  have "Max (insert RiskLow {RiskCritical}) = RiskCritical"
    by (simp add: max_def less_eq_RiskLevel_def)
  with ClassifyRisk_exact [of "''No AAA''"] f s r show ?thesis by (simp add: Let_def)
qed

text \<open>A device name changes, an unchanged line names SNMP: the change counts as high.\<close>

theorem UnifiedDiff_risk_covers_witness:
  "\<exists>d. UnifiedDiff None ''t'' ''a'' ''b'' (''host r1'' @ [LF] @ ''snmp on'') (''host r2'' @ [LF] @ ''snmp on'') = Inr d
     \<and> RiskHigh \<le> d_Risk d \<and> ''snmp'' \<in> d_Categories d \<and> d_Risk d \<noteq> RiskNone"
proof -
  let ?old = "''host r1'' @ [LF] @ ''snmp on''"
  let ?new = "''host r2'' @ [LF] @ ''snmp on''"
  obtain d where d: "UnifiedDiff None ''t'' ''a'' ''b'' ?old ?new = Inr d"
    by (simp add: UnifiedDiff_def Let_def split_beta)
  have r: "risk_rules ! 2 \<in> set risk_rules" "rl_level (risk_rules ! 2) = RiskHigh" "rl_cat (risk_rules ! 2) = ''snmp''"
    by (simp_all add: risk_rules_def)
  have l: "''snmp on'' \<in> set (splitLines ?old) \<union> set (splitLines ?new)" by code_simp
  have h: "rule_hits ''snmp on'' (risk_rules ! 2)" by code_simp
  from UnifiedDiff_risk_covers [OF d r(1) l h] r(2,3) d show ?thesis by auto
qed

end
