(* ===== verification/Go_Regexp.thy ===== *)
theory Go_Regexp
  imports Go_Strings
begin

text \<open>
  Go's \<open>regexp\<close> package, as far as the program's patterns use it: a parser of the pattern
  syntax (flags, groups, classes, escapes, alternation, greedy repetition of a character
  class, counted or not, optional parts, anchors and word boundaries), the leftmost-first matcher as
  backtracking with a continuation, and the operations on all matches. Pattern literals
  of the source are kept as they are, except that a backslash is written as a backquote,
  a character no pattern contains. Matching is on bytes: the patterns only single out ASCII.
\<close>

section \<open>Syntax\<close>

text \<open>The code of a character as an integer.\<close>

definition ic :: "char \<Rightarrow> int" where
  "ic c = of_char c"

lemma ic_code: "ic c = int (code c)"
  by (simp add: ic_def int_code)

text \<open>A class: complemented or not, and its ranges of codes.\<close>

datatype cclass = CC bool "(int \<times> int) list"

datatype regex =
    REps
  | RChar cclass
  | RStar cclass
  | RSeq regex regex
  | RAlt regex regex
  | ROpt regex
  | RGroup nat regex
  | RBol
  | REol
  | RBot
  | REot
  | RWordB

fun cc_in :: "cclass \<Rightarrow> char \<Rightarrow> bool" where
  "cc_in (CC neg rs) c = (neg \<noteq> list_ex (\<lambda>(a, b). a \<le> ic c \<and> ic c \<le> b) rs)"

definition word_char :: "char \<Rightarrow> bool" where
  "word_char c = cc_in (CC False [(48, 57), (65, 90), (95, 95), (97, 122)]) c"

definition space_ranges :: "(int \<times> int) list" where
  "space_ranges = [(9, 10), (12, 13), (32, 32)]"

section \<open>Parsing patterns\<close>

record re_flags =
  fl_i :: bool
  fl_m :: bool

text \<open>The codes a code stands for when case is ignored.\<close>

definition fold_code :: "int \<Rightarrow> (int \<times> int) list" where
  "fold_code x = (if 65 \<le> x \<and> x \<le> 90 then [(x, x), (x + 32, x + 32)]
                  else if 97 \<le> x \<and> x \<le> 122 then [(x, x), (x - 32, x - 32)] else [(x, x)])"

definition fold_range :: "re_flags \<Rightarrow> int \<times> int \<Rightarrow> (int \<times> int) list" where
  "fold_range fl ab = (if fl_i fl \<and> fst ab = snd ab then fold_code (fst ab)
     else if fl_i fl \<and> 65 \<le> snd ab \<and> fst ab \<le> 122 then concat (map fold_code [fst ab..snd ab]) else [ab])"

definition hex_value :: "char \<Rightarrow> int" where
  "hex_value c = (if is_digit c then ic c - 48 else ic (lower_char c) - 87)"

text \<open>An escape after its backslash: the ranges, whether they are complemented, and the rest.\<close>

fun parse_escape :: "string \<Rightarrow> ((int \<times> int) list \<times> bool \<times> string) option" where
  "parse_escape [] = None"
| "parse_escape (c # s) =
     (if c = CHR ''s'' then Some (space_ranges, False, s)
      else if c = CHR ''S'' then Some (space_ranges, True, s)
      else if c = CHR ''d'' then Some ([(48, 57)], False, s)
      else if c = CHR ''n'' then Some ([(10, 10)], False, s)
      else if c = CHR ''r'' then Some ([(13, 13)], False, s)
      else if c = CHR ''t'' then Some ([(9, 9)], False, s)
      else if c = CHR ''x'' then
        (case s of a # b # s' \<Rightarrow> let x = 16 * hex_value a + hex_value b in Some ([(x, x)], False, s') | _ \<Rightarrow> None)
      else Some ([(ic c, ic c)], False, s))"

text \<open>The items of a class up to the closing bracket.\<close>

fun parse_class :: "nat \<Rightarrow> re_flags \<Rightarrow> string \<Rightarrow> (int \<times> int) list \<Rightarrow> ((int \<times> int) list \<times> string) option" where
  "parse_class 0 fl s acc = None"
| "parse_class (Suc n) fl s acc =
     (case s of
        [] \<Rightarrow> None
      | c # t \<Rightarrow>
          if c = CHR '']'' then Some (acc, t)
          else if c = CHR 0x5C then
            (case parse_escape t of
               Some (rs, False, t') \<Rightarrow> parse_class n fl t' (acc @ rs)
             | _ \<Rightarrow> None)
          else (case t of
                  d # e # t' \<Rightarrow>
                    if d = CHR ''-'' \<and> e \<noteq> CHR '']''
                    then parse_class n fl t' (acc @ fold_range fl (ic c, ic e))
                    else parse_class n fl t (acc @ fold_range fl (ic c, ic c))
                | _ \<Rightarrow> parse_class n fl t (acc @ fold_range fl (ic c, ic c))))"

text \<open>\<open>a{m,n}\<close>: m times \<open>a\<close>, then up to n - m more.\<close>

fun re_upto :: "nat \<Rightarrow> regex \<Rightarrow> regex" where
  "re_upto 0 a = REps"
| "re_upto (Suc k) a = ROpt (RSeq a (re_upto k a))"

fun re_times :: "nat \<Rightarrow> regex \<Rightarrow> regex \<Rightarrow> regex" where
  "re_times 0 a r = r"
| "re_times (Suc k) a r = RSeq a (re_times k a r)"

definition parse_counts :: "string \<Rightarrow> (nat \<times> nat \<times> string) option" where
  "parse_counts s =
     (case Cut s (CHR ''}'') of
        None \<Rightarrow> None
      | Some (bounds, rest) \<Rightarrow>
          (case Cut bounds (CHR '','') of
             None \<Rightarrow> None
           | Some (m, n) \<Rightarrow>
               (case (Atoi m, Atoi n) of
                  (Some m, Some n) \<Rightarrow> if 0 \<le> m \<and> m \<le> n \<and> n \<le> 1000 then Some (nat m, nat n, rest) else None
                | _ \<Rightarrow> None)))"

text \<open>A quantifier after an atom; repetition is supported for single characters.\<close>

fun parse_quantifier :: "regex \<Rightarrow> string \<Rightarrow> (regex \<times> string) option" where
  "parse_quantifier a [] = Some (a, [])"
| "parse_quantifier a (c # s) =
     (if c = CHR ''?'' then Some (ROpt a, s)
      else if c = CHR ''*'' then (case a of RChar cc \<Rightarrow> Some (RStar cc, s) | _ \<Rightarrow> None)
      else if c = CHR ''+'' then (case a of RChar cc \<Rightarrow> Some (RSeq (RChar cc) (RStar cc), s) | _ \<Rightarrow> None)
      else if c = CHR ''{'' then
        (case (a, parse_counts s) of
           (RChar cc, Some (m, n, rest)) \<Rightarrow> Some (re_times m a (re_upto (n - m) a), rest)
         | _ \<Rightarrow> Some (a, c # s))
      else Some (a, c # s))"

text \<open>Alternations, sequences and atoms; \<open>g\<close> numbers the next group, the first argument is fuel.\<close>

fun parse_alt :: "nat \<Rightarrow> re_flags \<Rightarrow> nat \<Rightarrow> string \<Rightarrow> (regex \<times> nat \<times> string) option"
and parse_seq :: "nat \<Rightarrow> re_flags \<Rightarrow> nat \<Rightarrow> string \<Rightarrow> (regex \<times> nat \<times> string) option"
and parse_atom :: "nat \<Rightarrow> re_flags \<Rightarrow> nat \<Rightarrow> string \<Rightarrow> (regex \<times> nat \<times> string) option" where
  "parse_alt 0 fl g s = None"
| "parse_alt (Suc n) fl g s =
     (case parse_seq n fl g s of
        None \<Rightarrow> None
      | Some (r, g1, t) \<Rightarrow>
          if t \<noteq> [] \<and> hd t = CHR ''|'' then
            (case parse_alt n fl g1 (tl t) of
               None \<Rightarrow> None
             | Some (r', g2, t') \<Rightarrow> Some (RAlt r r', g2, t'))
          else Some (r, g1, t))"
| "parse_seq 0 fl g s = None"
| "parse_seq (Suc n) fl g s =
     (if s = [] \<or> hd s = CHR '')'' \<or> hd s = CHR ''|'' then Some (REps, g, s)
      else case parse_atom n fl g s of
             None \<Rightarrow> None
           | Some (a, g1, t) \<Rightarrow>
               (case parse_quantifier a t of
                  None \<Rightarrow> None
                | Some (q, t1) \<Rightarrow>
                    (case parse_seq n fl g1 t1 of
                       None \<Rightarrow> None
                     | Some (r, g2, t2) \<Rightarrow> Some (RSeq q r, g2, t2))))"
| "parse_atom 0 fl g s = None"
| "parse_atom (Suc n) fl g s =
     (case s of
        [] \<Rightarrow> None
      | c # t \<Rightarrow>
          if c = CHR ''('' then
            (if HasPrefix t ''?:'' then
               (case parse_alt n fl g (drop 2 t) of
                  Some (r, g1, u) \<Rightarrow> if u \<noteq> [] \<and> hd u = CHR '')'' then Some (r, g1, tl u) else None
                | None \<Rightarrow> None)
             else
               (case parse_alt n fl (Suc g) t of
                  Some (r, g1, u) \<Rightarrow> if u \<noteq> [] \<and> hd u = CHR '')'' then Some (RGroup g r, g1, tl u) else None
                | None \<Rightarrow> None))
          else if c = CHR ''['' then
            (let neg = HasPrefix t ''^'' in
             case parse_class (Suc (length t)) fl (if neg then tl t else t) [] of
               Some (rs, u) \<Rightarrow> Some (RChar (CC neg rs), g, u)
             | None \<Rightarrow> None)
          else if c = CHR ''.'' then Some (RChar (CC True [(10, 10)]), g, t)
          else if c = CHR ''^'' then Some (if fl_m fl then RBol else RBot, g, t)
          else if c = CHR ''$'' then Some (if fl_m fl then REol else REot, g, t)
          else if c = CHR 0x5C then
            (if HasPrefix t ''b'' then Some (RWordB, g, tl t)
             else case parse_escape t of
                    Some (rs, neg, u) \<Rightarrow> Some (RChar (CC neg (concat (map (fold_range fl) rs))), g, u)
                  | None \<Rightarrow> None)
          else Some (RChar (CC False (fold_range fl (ic c, ic c))), g, t))"

definition parse_flags :: "string \<Rightarrow> re_flags \<times> string" where
  "parse_flags s =
     (if HasPrefix s ''(?im)'' then (\<lparr>fl_i = True, fl_m = True\<rparr>, drop 5 s)
      else if HasPrefix s ''(?i)'' then (\<lparr>fl_i = True, fl_m = False\<rparr>, drop 4 s)
      else if HasPrefix s ''(?m)'' then (\<lparr>fl_i = False, fl_m = True\<rparr>, drop 4 s)
      else (\<lparr>fl_i = False, fl_m = False\<rparr>, s))"

definition parse_regex :: "string \<Rightarrow> regex option" where
  "parse_regex s =
     (let (fl, t) = parse_flags s in
      case parse_alt (3 * length t + 3) fl 1 t of
        Some (r, g, []) \<Rightarrow> Some r
      | _ \<Rightarrow> None)"

text \<open>\<open>regexp.MustCompile\<close> of a literal with backquotes for backslashes.\<close>

definition MustCompile :: "string \<Rightarrow> regex" where
  "MustCompile pattern =
     (case parse_regex (map (\<lambda>c. if c = CHR 0x60 then CHR 0x5C else c) pattern) of Some r \<Rightarrow> r | None \<Rightarrow> REps)"

section \<open>Matching\<close>

text \<open>
  A position: the text before it, reversed, the text after it, and the groups captured so
  far. \<open>re_match r p k\<close> tries the ways \<open>r\<close> can match at \<open>p\<close> in Perl's order and returns the
  first result of \<open>k\<close> on the position behind it.
\<close>

type_synonym re_pos = "string \<times> string \<times> (nat \<Rightarrow> string option)"

fun re_star :: "cclass \<Rightarrow> string \<Rightarrow> string \<Rightarrow> (nat \<Rightarrow> string option) \<Rightarrow> (re_pos \<Rightarrow> 'a option) \<Rightarrow> 'a option" where
  "re_star cc b [] caps k = k (b, [], caps)"
| "re_star cc b (c # s) caps k =
     (if cc_in cc c then
        (case re_star cc (c # b) s caps k of Some x \<Rightarrow> Some x | None \<Rightarrow> k (b, c # s, caps))
      else k (b, c # s, caps))"

definition at_word_boundary :: "string \<Rightarrow> string \<Rightarrow> bool" where
  "at_word_boundary b s =
     ((case b of [] \<Rightarrow> False | c # _ \<Rightarrow> word_char c) \<noteq> (case s of [] \<Rightarrow> False | c # _ \<Rightarrow> word_char c))"

definition at_line_start :: "string \<Rightarrow> bool" where
  "at_line_start b = (case b of [] \<Rightarrow> True | c # _ \<Rightarrow> ic c = 10)"

definition at_line_end :: "string \<Rightarrow> bool" where
  "at_line_end s = (case s of [] \<Rightarrow> True | c # _ \<Rightarrow> ic c = 10)"

fun re_match :: "regex \<Rightarrow> re_pos \<Rightarrow> (re_pos \<Rightarrow> 'a option) \<Rightarrow> 'a option" where
  "re_match REps p k = k p"
| "re_match (RChar cc) (b, s, caps) k =
     (case s of [] \<Rightarrow> None | c # t \<Rightarrow> if cc_in cc c then k (c # b, t, caps) else None)"
| "re_match (RStar cc) (b, s, caps) k = re_star cc b s caps k"
| "re_match (RSeq r1 r2) p k = re_match r1 p (\<lambda>q. re_match r2 q k)"
| "re_match (RAlt r1 r2) p k = (case re_match r1 p k of Some x \<Rightarrow> Some x | None \<Rightarrow> re_match r2 p k)"
| "re_match (ROpt r) p k = (case re_match r p k of Some x \<Rightarrow> Some x | None \<Rightarrow> k p)"
| "re_match (RGroup n r) (b, s, caps) k =
     re_match r (b, s, caps)
       (\<lambda>(b', s', caps'). k (b', s', caps'(n := Some (take (length s - length s') s))))"
| "re_match RBol (b, s, caps) k = (if at_line_start b then k (b, s, caps) else None)"
| "re_match REol (b, s, caps) k = (if at_line_end s then k (b, s, caps) else None)"
| "re_match RBot (b, s, caps) k = (if b = [] then k (b, s, caps) else None)"
| "re_match REot (b, s, caps) k = (if s = [] then k (b, s, caps) else None)"
| "re_match RWordB (b, s, caps) k = (if at_word_boundary b s then k (b, s, caps) else None)"

text \<open>
  A leftmost match in the rest of a text: the text skipped, the text matched, the
  captured groups, and the rest.
\<close>

record re_result =
  rr_skip :: string
  rr_text :: string
  rr_caps :: "nat \<Rightarrow> string option"
  rr_rest :: string

fun re_find :: "regex \<Rightarrow> string \<Rightarrow> string \<Rightarrow> re_result option" where
  "re_find r b s =
     (case re_match r (b, s, \<lambda>_. None) Some of
        Some (b', s', caps) \<Rightarrow>
          Some \<lparr>rr_skip = [], rr_text = take (length s - length s') s, rr_caps = caps, rr_rest = s'\<rparr>
      | None \<Rightarrow>
          (case s of
             [] \<Rightarrow> None
           | c # t \<Rightarrow> map_option (\<lambda>m. m\<lparr>rr_skip := c # rr_skip m\<rparr>) (re_find r (c # b) t)))"

text \<open>\<open>MatchString\<close>, \<open>FindString\<close> (\<open>[]\<close> when nothing matches) and \<open>FindStringIndex\<close>.\<close>

definition MatchString :: "regex \<Rightarrow> string \<Rightarrow> bool" where
  "MatchString r s = (re_find r [] s \<noteq> None)"

definition FindString :: "regex \<Rightarrow> string \<Rightarrow> string" where
  "FindString r s = (case re_find r [] s of None \<Rightarrow> [] | Some m \<Rightarrow> rr_text m)"

definition FindStringIndex :: "regex \<Rightarrow> string \<Rightarrow> (nat \<times> nat) option" where
  "FindStringIndex r s =
     map_option (\<lambda>m. (length (rr_skip m), length (rr_skip m) + length (rr_text m))) (re_find r [] s)"

text \<open>
  All successive matches from a position, for a pattern that matches no empty text: an
  empty match, which no pattern of the program has, ends the search.
\<close>

function re_find_all :: "regex \<Rightarrow> string \<Rightarrow> string \<Rightarrow> re_result list" where
  "re_find_all r b s =
     (case re_find r b s of
        None \<Rightarrow> []
      | Some m \<Rightarrow>
          if length (rr_rest m) < length s
          then m # re_find_all r (rev (rr_skip m @ rr_text m) @ b) (rr_rest m) else [])"
  by pat_completeness auto
termination
  by (relation "measure (\<lambda>(r, b, s). length s)") auto

declare re_find.simps [simp del] re_find_all.simps [simp del]

definition FindAllStringSubmatch :: "regex \<Rightarrow> string \<Rightarrow> re_result list" where
  "FindAllStringSubmatch r s = re_find_all r [] s"

text \<open>A replacement template: literal text and references to groups.\<close>

datatype tpart = TLit string | TRef nat

fun expand :: "tpart list \<Rightarrow> (nat \<Rightarrow> string option) \<Rightarrow> string" where
  "expand [] caps = []"
| "expand (TLit s # ps) caps = s @ expand ps caps"
| "expand (TRef n # ps) caps = (case caps n of None \<Rightarrow> [] | Some w \<Rightarrow> w) @ expand ps caps"

text \<open>\<open>ReplaceAllString\<close>: the skipped texts, the expanded templates, the rest.\<close>

fun replace_matches :: "tpart list \<Rightarrow> string \<Rightarrow> re_result list \<Rightarrow> string" where
  "replace_matches tpl rest [] = rest"
| "replace_matches tpl rest (m # ms) =
     rr_skip m @ expand tpl (rr_caps m) @ replace_matches tpl (rr_rest m) ms"

definition ReplaceAllString :: "regex \<Rightarrow> string \<Rightarrow> tpart list \<Rightarrow> string" where
  "ReplaceAllString r s tpl = replace_matches tpl s (re_find_all r [] s)"

text \<open>The number of groups: \<open>NumSubexp\<close>.\<close>

fun re_groups :: "regex \<Rightarrow> nat list" where
  "re_groups (RSeq a b) = re_groups a @ re_groups b"
| "re_groups (RAlt a b) = re_groups a @ re_groups b"
| "re_groups (ROpt a) = re_groups a"
| "re_groups (RGroup n a) = n # re_groups a"
| "re_groups r = []"

text \<open>A pattern that matches no empty text, decided on its syntax.\<close>

fun never_empty :: "regex \<Rightarrow> bool" where
  "never_empty (RChar cc) = True"
| "never_empty (RSeq a b) = (never_empty a \<or> never_empty b)"
| "never_empty (RAlt a b) = (never_empty a \<and> never_empty b)"
| "never_empty (RGroup n a) = never_empty a"
| "never_empty r = False"

section \<open>What a match is\<close>

text \<open>The ways a pattern can lead from one position to another, without priorities.\<close>

inductive re_way :: "regex \<Rightarrow> re_pos \<Rightarrow> re_pos \<Rightarrow> bool" where
  way_eps: "re_way REps p p"
| way_char: "cc_in cc c \<Longrightarrow> re_way (RChar cc) (b, c # t, caps) (c # b, t, caps)"
| way_star: "list_all (cc_in cc) w \<Longrightarrow> re_way (RStar cc) (b, w @ s, caps) (rev w @ b, s, caps)"
| way_seq: "re_way r1 p q \<Longrightarrow> re_way r2 q u \<Longrightarrow> re_way (RSeq r1 r2) p u"
| way_alt1: "re_way r1 p q \<Longrightarrow> re_way (RAlt r1 r2) p q"
| way_alt2: "re_way r2 p q \<Longrightarrow> re_way (RAlt r1 r2) p q"
| way_opt1: "re_way r p q \<Longrightarrow> re_way (ROpt r) p q"
| way_opt2: "re_way (ROpt r) p p"
| way_group: "re_way r (b, s, caps) (b', s', caps') \<Longrightarrow>
     re_way (RGroup n r) (b, s, caps) (b', s', caps'(n := Some (take (length s - length s') s)))"
| way_bol: "at_line_start b \<Longrightarrow> re_way RBol (b, s, caps) (b, s, caps)"
| way_eol: "at_line_end s \<Longrightarrow> re_way REol (b, s, caps) (b, s, caps)"
| way_bot: "re_way RBot ([], s, caps) ([], s, caps)"
| way_eot: "re_way REot (b, [], caps) (b, [], caps)"
| way_wordb: "at_word_boundary b s \<Longrightarrow> re_way RWordB (b, s, caps) (b, s, caps)"

inductive_cases way_seqE: "re_way (RSeq r1 r2) p q"
inductive_cases way_charE: "re_way (RChar cc) p q"
inductive_cases way_starE: "re_way (RStar cc) p q"
inductive_cases way_altE: "re_way (RAlt r1 r2) p q"
inductive_cases way_optE: "re_way (ROpt r) p q"
inductive_cases way_groupE: "re_way (RGroup n r) p q"
inductive_cases way_bolE: "re_way RBol p q"
inductive_cases way_eolE: "re_way REol p q"
inductive_cases way_wordbE: "re_way RWordB p q"

lemma re_star_sound:
  "re_star cc b s caps k = Some x \<Longrightarrow>
   \<exists>w t. s = w @ t \<and> list_all (cc_in cc) w \<and> k (rev w @ b, t, caps) = Some x"
proof (induction s arbitrary: b)
  case Nil
  then show ?case by simp
next
  case (Cons c s)
  show ?case
  proof (cases "cc_in cc c \<and> re_star cc (c # b) s caps k = Some x")
    case True
    with Cons.IH [of "c # b"] obtain w t where
      "s = w @ t" "list_all (cc_in cc) w" "k (rev w @ c # b, t, caps) = Some x" by auto
    with True show ?thesis by (intro exI [of _ "c # w"] exI [of _ t]) simp
  next
    case False
    with Cons.prems have "k (b, c # s, caps) = Some x" by (auto split: if_splits option.splits)
    then show ?thesis by (intro exI [of _ "[]"] exI [of _ "c # s"]) simp
  qed
qed

lemma re_star_complete:
  "re_star cc b (w @ t) caps k = None \<Longrightarrow> list_all (cc_in cc) w \<Longrightarrow> k (rev w @ b, t, caps) = None"
proof (induction w arbitrary: b)
  case Nil
  then show ?case by (cases t) (auto split: if_splits option.splits)
next
  case (Cons c w)
  then show ?case by (auto split: option.splits)
qed

text \<open>The matcher finds a way whenever there is one its continuation accepts, and only ways.\<close>

lemma re_match_sound:
  "re_match r p k = Some x \<Longrightarrow> \<exists>q. re_way r p q \<and> k q = Some x"
proof (induction r p k rule: re_match.induct)
  case (2 cc b s caps k)
  then show ?case by (cases s) (auto split: if_splits intro: way_char)
next
  case (3 cc b s caps k)
  then show ?case by (auto dest!: re_star_sound intro: way_star)
next
  case (4 r1 r2 p k)
  then show ?case by (fastforce intro: way_seq)
next
  case (7 n r b s caps k)
  then obtain q where "re_way r (b, s, caps) q"
    "(case q of (b', s', caps') \<Rightarrow> k (b', s', caps'(n := Some (take (length s - length s') s)))) = Some x"
    by auto
  then show ?case by (cases q) (auto intro: way_group)
qed (auto split: option.splits if_splits intro: re_way.intros)

lemma re_match_complete:
  "re_way r p q \<Longrightarrow> re_match r p k = None \<Longrightarrow> k q = None"
  by (induction r p q arbitrary: k rule: re_way.induct)
     (auto dest: re_star_complete split: option.splits, drule meta_spec, drule meta_mp, assumption, simp)

lemma way_text:
  assumes "re_way r (b, s, caps) (b', s', caps')"
  shows "\<exists>w. s = w @ s' \<and> b' = rev w @ b"
proof -
  have "\<exists>w. fst (snd p) = w @ fst (snd q) \<and> fst q = rev w @ fst p" if "re_way r p q" for p q
    using that
  proof (induction r p q rule: re_way.induct)
    case (way_seq r1 p q r2 u)
    then obtain v w where "fst (snd p) = v @ fst (snd q)" "fst q = rev v @ fst p"
      "fst (snd q) = w @ fst (snd u)" "fst u = rev w @ fst q" by blast
    then show ?case by (intro exI [of _ "v @ w"]) simp
  qed auto
  from this [OF assms] show ?thesis by simp
qed

lemma way_caps_frame:
  assumes "re_way r (b, s, caps) (b', s', caps')" "n \<notin> set (re_groups r)"
  shows "caps' n = caps n"
proof -
  have "snd (snd q) n = snd (snd p) n" if "re_way r p q" "n \<notin> set (re_groups r)" for p q
    using that by (induction r p q rule: re_way.induct) auto
  from this [OF assms] show ?thesis by simp
qed

lemma way_nonempty:
  assumes "re_way r (b, s, caps) (b', s', caps')" "never_empty r"
  shows "length s' < length s"
proof -
  have le: "length (fst (snd q)) \<le> length (fst (snd p))" if "re_way r p q" for r p q
    using way_text [of r "fst p" "fst (snd p)" "snd (snd p)" "fst q" "fst (snd q)" "snd (snd q)"] that by auto
  have "length (fst (snd q)) < length (fst (snd p))" if "re_way r p q" "never_empty r" for p q
    using that
  proof (induction r p q rule: re_way.induct)
    case (way_seq r1 p q r2 u)
    from le [OF way_seq.hyps(1)] le [OF way_seq.hyps(2)] way_seq show ?case by auto
  qed auto
  from this [OF assms] show ?thesis by simp
qed

text \<open>\<open>re_find\<close> finds the leftmost match, and finds one if there is any.\<close>

lemma re_find_Some:
  "re_find r b s = Some m \<Longrightarrow>
   s = rr_skip m @ rr_text m @ rr_rest m
   \<and> re_way r (rev (rr_skip m) @ b, rr_text m @ rr_rest m, \<lambda>_. None)
        (rev (rr_text m) @ rev (rr_skip m) @ b, rr_rest m, rr_caps m)"
proof (induction r b s arbitrary: m rule: re_find.induct)
  case (1 r b s)
  show ?case
  proof (cases "re_match r (b, s, \<lambda>_. None) Some")
    case (Some q)
    obtain b' s' caps where q: "q = (b', s', caps)" by (cases q)
    from re_match_sound [OF Some] q have way: "re_way r (b, s, \<lambda>_. None) (b', s', caps)" by auto
    from way_text [OF this] obtain w where "s = w @ s'" "b' = rev w @ b" by blast
    with way 1(2) Some q show ?thesis by (subst (asm) re_find.simps) auto
  next
    case None
    with 1(2) obtain c t m' where c: "s = c # t" "re_find r (c # b) t = Some m'"
      "m = m'\<lparr>rr_skip := c # rr_skip m'\<rparr>"
      by (subst (asm) re_find.simps) (auto split: list.splits)
    from 1(1) [OF None c(1) c(2)] c show ?thesis by simp
  qed
qed

lemma re_find_None:
  "re_find r b s = None \<Longrightarrow> s = u @ t \<Longrightarrow> \<not> re_way r (rev u @ b, t, \<lambda>_. None) q"
proof (induction u arbitrary: b s)
  case Nil
  then have "re_match r (b, t, \<lambda>_. None) Some = None"
    by (subst (asm) re_find.simps) (auto split: option.splits prod.splits)
  then have "\<not> re_way r (b, t, \<lambda>_. None) q" using re_match_complete [where k = Some] by fastforce
  with Nil show ?case by simp
next
  case (Cons c u)
  then have "re_find r (c # b) (u @ t) = None"
    by (subst (asm) re_find.simps) (auto split: option.splits prod.splits)
  from Cons.IH [OF this refl] show ?case by simp
qed

lemma MatchString_iff:
  "MatchString r s \<longleftrightarrow> (\<exists>u t q. s = u @ t \<and> re_way r (rev u, t, \<lambda>_. None) q)"
proof
  assume "MatchString r s"
  then obtain m where "re_find r [] s = Some m" by (auto simp: MatchString_def)
  from re_find_Some [OF this] have "s = rr_skip m @ rr_text m @ rr_rest m"
    "re_way r (rev (rr_skip m), rr_text m @ rr_rest m, \<lambda>_. None)
       (rev (rr_text m) @ rev (rr_skip m), rr_rest m, rr_caps m)" by simp_all
  then show "\<exists>u t q. s = u @ t \<and> re_way r (rev u, t, \<lambda>_. None) q" by blast
next
  assume "\<exists>u t q. s = u @ t \<and> re_way r (rev u, t, \<lambda>_. None) q"
  then obtain u t q where u: "s = u @ t" "re_way r (rev u, t, \<lambda>_. None) q" by blast
  have "re_find r [] s \<noteq> None" using re_find_None [OF _ u(1), of r "[]" q] u(2) by auto
  then show "MatchString r s" by (simp add: MatchString_def)
qed

text \<open>All matches partition the text.\<close>

fun matches_text :: "string \<Rightarrow> re_result list \<Rightarrow> string \<Rightarrow> bool" where
  "matches_text s [] rest = (s = rest)"
| "matches_text s (m # ms) rest =
     (s = rr_skip m @ rr_text m @ rr_rest m \<and> matches_text (rr_rest m) ms rest)"

definition is_match :: "regex \<Rightarrow> re_result \<Rightarrow> bool" where
  "is_match r m =
     (\<exists>b. re_way r (b, rr_text m @ rr_rest m, \<lambda>_. None) (rev (rr_text m) @ b, rr_rest m, rr_caps m))"

lemma re_find_all_matches:
  "\<exists>rest. matches_text s (re_find_all r b s) rest \<and> (\<forall>m\<in>set (re_find_all r b s). is_match r m)"
proof (induction r b s rule: re_find_all.induct)
  case (1 r b s)
  show ?case
  proof (cases "re_find r b s")
    case None
    then show ?thesis by (subst (1 2) re_find_all.simps) auto
  next
    case (Some m)
    from re_find_Some [OF Some] have m: "s = rr_skip m @ rr_text m @ rr_rest m" "is_match r m"
      by (auto simp: is_match_def)
    show ?thesis
    proof (cases "length (rr_rest m) < length s")
      case True
      from 1 [OF Some True] obtain rest where
        "matches_text (rr_rest m) (re_find_all r (rev (rr_skip m @ rr_text m) @ b) (rr_rest m)) rest"
        "\<forall>x\<in>set (re_find_all r (rev (rr_skip m @ rr_text m) @ b) (rr_rest m)). is_match r x" by blast
      with m Some True show ?thesis by (subst (1 2) re_find_all.simps) auto
    next
      case False
      with Some show ?thesis by (subst (1 2) re_find_all.simps) auto
    qed
  qed
qed

section \<open>The matcher on a stack\<close>

text \<open>
  The same matcher with its continuation as a list of what is left to match: patterns, and
  the ends of groups with the text at which they began. The two agree, so evaluation uses
  this one, which builds no function.
\<close>

datatype re_item = KRe regex | KCap nat string

primrec item_size :: "re_item \<Rightarrow> nat" where
  "item_size (KRe r) = 2 * size r + 1"
| "item_size (KCap n s) = 1"

type_synonym re_done = "(string \<times> string \<times> (nat \<times> string) list) option"

function re_run :: "re_item list \<Rightarrow> string \<Rightarrow> string \<Rightarrow> (nat \<times> string) list \<Rightarrow> re_done" where
  "re_run [] b s caps = Some (b, s, caps)"
| "re_run (KCap n s0 # ks) b s caps = re_run ks b s ((n, take (length s0 - length s) s0) # caps)"
| "re_run (KRe REps # ks) b s caps = re_run ks b s caps"
| "re_run (KRe (RChar cc) # ks) b s caps =
     (case s of [] \<Rightarrow> None | c # t \<Rightarrow> if cc_in cc c then re_run ks (c # b) t caps else None)"
| "re_run (KRe (RStar cc) # ks) b s caps =
     (case s of
        [] \<Rightarrow> re_run ks b [] caps
      | c # t \<Rightarrow>
          if cc_in cc c then
            (case re_run (KRe (RStar cc) # ks) (c # b) t caps of
               Some x \<Rightarrow> Some x | None \<Rightarrow> re_run ks b (c # t) caps)
          else re_run ks b (c # t) caps)"
| "re_run (KRe (RSeq r1 r2) # ks) b s caps = re_run (KRe r1 # KRe r2 # ks) b s caps"
| "re_run (KRe (RAlt r1 r2) # ks) b s caps =
     (case re_run (KRe r1 # ks) b s caps of Some x \<Rightarrow> Some x | None \<Rightarrow> re_run (KRe r2 # ks) b s caps)"
| "re_run (KRe (ROpt r) # ks) b s caps =
     (case re_run (KRe r # ks) b s caps of Some x \<Rightarrow> Some x | None \<Rightarrow> re_run ks b s caps)"
| "re_run (KRe (RGroup n r) # ks) b s caps = re_run (KRe r # KCap n s # ks) b s caps"
| "re_run (KRe RBol # ks) b s caps = (if at_line_start b then re_run ks b s caps else None)"
| "re_run (KRe REol # ks) b s caps = (if at_line_end s then re_run ks b s caps else None)"
| "re_run (KRe RBot # ks) b s caps = (if b = [] then re_run ks b s caps else None)"
| "re_run (KRe REot # ks) b s caps = (if s = [] then re_run ks b s caps else None)"
| "re_run (KRe RWordB # ks) b s caps = (if at_word_boundary b s then re_run ks b s caps else None)"
  by pat_completeness auto
termination
  by (relation "measures [\<lambda>(ks, b, s, caps). length s, \<lambda>(ks, b, s, caps). sum_list (map item_size ks)]") auto

fun rest_of :: "re_item list \<Rightarrow> re_pos \<Rightarrow> re_pos option" where
  "rest_of [] p = Some p"
| "rest_of (KRe r # ks) p = re_match r p (rest_of ks)"
| "rest_of (KCap n s0 # ks) (b, s, caps) = rest_of ks (b, s, caps(n := Some (take (length s0 - length s) s0)))"

definition run_result :: "re_done \<Rightarrow> re_pos option" where
  "run_result = map_option (\<lambda>(b, s, caps). (b, s, map_of caps))"

lemma run_result_simps [simp]:
  "run_result None = None" "run_result (Some (b, s, caps)) = Some (b, s, map_of caps)"
  by (simp_all add: run_result_def)

lemma run_result_case:
  assumes "run_result x = a" "x = None \<Longrightarrow> run_result y = b"
  shows "run_result (case x of Some z \<Rightarrow> Some z | None \<Rightarrow> y) = (case a of Some z \<Rightarrow> Some z | None \<Rightarrow> b)"
  using assms by (auto simp: run_result_def split: option.splits)

lemma re_run_rest_of: "run_result (re_run ks b s caps) = rest_of ks (b, s, map_of caps)"
proof (induction ks b s caps rule: re_run.induct)
  case (5 cc ks b s caps)
  show ?case
  proof (cases s)
    case (Cons c t)
    then show ?thesis
    proof (cases "cc_in cc c")
      case True
      have "rest_of (KRe (RStar cc) # ks) (b, c # t, map_of caps)
          = (case rest_of (KRe (RStar cc) # ks) (c # b, t, map_of caps) of
               Some z \<Rightarrow> Some z | None \<Rightarrow> rest_of ks (b, c # t, map_of caps))" using True by simp
      moreover have "run_result (case re_run (KRe (RStar cc) # ks) (c # b) t caps of
              Some x \<Rightarrow> Some x | None \<Rightarrow> re_run ks b (c # t) caps)
          = (case rest_of (KRe (RStar cc) # ks) (c # b, t, map_of caps) of
               Some z \<Rightarrow> Some z | None \<Rightarrow> rest_of ks (b, c # t, map_of caps))"
        using 5(2,3) [OF Cons True] by (rule run_result_case)
      ultimately show ?thesis using Cons True by (subst re_run.simps) (simp only: list.case if_True)
    qed (use 5(4) in simp)
  qed (use 5(1) in simp)
next
  case (6 r1 r2 ks b s caps)
  have "(\<lambda>q. re_match r2 q (rest_of ks)) = rest_of (KRe r2 # ks)" by (simp add: fun_eq_iff)
  with 6 show ?case by simp
next
  case (7 r1 r2 ks b s caps)
  then show ?case by (simp add: run_result_case)
next
  case (8 r ks b s caps)
  then show ?case by (simp add: run_result_case)
next
  case (9 n r ks b s caps)
  have "(\<lambda>(b', s', caps'). rest_of ks (b', s', caps'(n \<mapsto> take (length s - length s') s)))
      = rest_of (KCap n s # ks)" by (simp add: fun_eq_iff)
  with 9 show ?case by simp
qed (simp_all add: fun_upd_def split: list.splits)

lemma re_find_code [code]:
  "re_find r b s =
     (case re_run [KRe r] b s [] of
        Some (b', s', caps) \<Rightarrow>
          Some \<lparr>rr_skip = [], rr_text = take (length s - length s') s, rr_caps = map_of caps, rr_rest = s'\<rparr>
      | None \<Rightarrow>
          (case s of
             [] \<Rightarrow> None
           | c # t \<Rightarrow> map_option (\<lambda>m. m\<lparr>rr_skip := c # rr_skip m\<rparr>) (re_find r (c # b) t)))"
proof -
  have r: "rest_of [] = Some" by (simp add: fun_eq_iff)
  have "re_match r (b, s, \<lambda>_. None) Some = run_result (re_run [KRe r] b s [])"
    by (simp add: re_run_rest_of r)
  then show ?thesis
    by (subst re_find.simps) (auto simp: run_result_def split: option.splits list.splits)
qed

end
