(* ===== verification/Go_Crypto.thy ===== *)
theory Go_Crypto
  imports Go_Strings
begin

text \<open>
  The parts of Go's \<open>crypto/sha256\<close>, \<open>crypto/hmac\<close> and \<open>encoding/hex\<close> the program uses:
  SHA-256 on byte strings (FIPS 180-4), HMAC with it (RFC 2104) and hexadecimal text.
\<close>

unbundle bit_operations_syntax

type_synonym w32 = "32 word"

definition hex_digit :: "nat \<Rightarrow> char" where
  "hex_digit n = (if n < 10 then char_of (48 + n) else char_of (87 + n))"

definition EncodeToString :: "string \<Rightarrow> string" where
  "EncodeToString bs = concat (map (\<lambda>c. [hex_digit (code c div 16), hex_digit (code c mod 16)]) bs)"

section \<open>SHA-256\<close>

text \<open>The round constants and the initial state, as decimal numbers.\<close>

definition sha_k :: "w32 list" where
  "sha_k = map word_of_int
    [1116352408, 1899447441, 3049323471, 3921009573, 961987163, 1508970993,
     2453635748, 2870763221, 3624381080, 310598401, 607225278, 1426881987,
     1925078388, 2162078206, 2614888103, 3248222580, 3835390401, 4022224774,
     264347078, 604807628, 770255983, 1249150122, 1555081692, 1996064986,
     2554220882, 2821834349, 2952996808, 3210313671, 3336571891, 3584528711,
     113926993, 338241895, 666307205, 773529912, 1294757372, 1396182291,
     1695183700, 1986661051, 2177026350, 2456956037, 2730485921, 2820302411,
     3259730800, 3345764771, 3516065817, 3600352804, 4094571909, 275423344,
     430227734, 506948616, 659060556, 883997877, 958139571, 1322822218,
     1537002063, 1747873779, 1955562222, 2024104815, 2227730452, 2361852424,
     2428436474, 2756734187, 3204031479, 3329325298]"

definition sha_h0 :: "w32 list" where
  "sha_h0 = map word_of_int
    [1779033703, 3144134277, 1013904242, 2773480762, 1359893119, 2600822924,
     528734635, 1541459225]"

definition rotr :: "nat \<Rightarrow> w32 \<Rightarrow> w32" where
  "rotr n x = drop_bit n x OR push_bit (32 - n) x"

text \<open>A number as a given number of bytes, the most significant first.\<close>

fun be_bytes :: "nat \<Rightarrow> int \<Rightarrow> string" where
  "be_bytes 0 n = []"
| "be_bytes (Suc k) n = be_bytes k (n div 256) @ [char_of (nat (n mod 256))]"

definition sha_pad :: "string \<Rightarrow> string" where
  "sha_pad msg =
     (let n = length msg; zeros = (119 - n mod 64) mod 64
      in msg @ [CHR 0x80] @ replicate zeros (CHR 0x00) @ be_bytes 8 (8 * int n))"

fun words_of :: "string \<Rightarrow> w32 list" where
  "words_of (a # b # c # d # s) =
     word_of_int (((int (code a) * 256 + int (code b)) * 256 + int (code c)) * 256 + int (code d)) # words_of s"
| "words_of _ = []"

text \<open>The message schedule, the latest word first.\<close>

fun sha_schedule :: "nat \<Rightarrow> w32 list \<Rightarrow> w32 list" where
  "sha_schedule 0 ws = ws"
| "sha_schedule (Suc n) ws =
     (let w15 = ws ! 14; w2 = ws ! 1;
          s0 = rotr 7 w15 XOR rotr 18 w15 XOR drop_bit 3 w15;
          s1 = rotr 17 w2 XOR rotr 19 w2 XOR drop_bit 10 w2
      in sha_schedule n ((ws ! 15 + s0 + ws ! 6 + s1) # ws))"

text \<open>A round on the eight working variables \<open>a\<close> to \<open>h\<close>.\<close>

definition sha_round :: "w32 \<times> w32 \<Rightarrow> w32 list \<Rightarrow> w32 list" where
  "sha_round kw st =
     (let e = st ! 4; a = st ! 0;
          big1 = rotr 6 e XOR rotr 11 e XOR rotr 25 e;
          choice = (e AND st ! 5) XOR (NOT e AND st ! 6);
          t = st ! 7 + big1 + choice + fst kw + snd kw;
          big0 = rotr 2 a XOR rotr 13 a XOR rotr 22 a;
          majority = (a AND st ! 1) XOR (a AND st ! 2) XOR (st ! 1 AND st ! 2)
      in [t + big0 + majority, a, st ! 1, st ! 2, st ! 3 + t, e, st ! 5, st ! 6])"

definition sha_rounds :: "(w32 \<times> w32) list \<Rightarrow> w32 list \<Rightarrow> w32 list" where
  "sha_rounds = fold sha_round"

definition sha_block :: "w32 list \<Rightarrow> w32 list \<Rightarrow> w32 list" where
  "sha_block st block =
     map2 (+) st (sha_rounds (zip sha_k (rev (sha_schedule 48 (rev block)))) st)"

fun sha_blocks :: "w32 list \<Rightarrow> nat \<Rightarrow> w32 list \<Rightarrow> w32 list" where
  "sha_blocks st 0 ws = st"
| "sha_blocks st (Suc n) ws = sha_blocks (sha_block st (take 16 ws)) n (drop 16 ws)"

definition Sum256 :: "string \<Rightarrow> string" where
  "Sum256 msg =
     (let ws = words_of (sha_pad msg)
      in concat (map (\<lambda>w. be_bytes 4 (uint w)) (sha_blocks sha_h0 (length ws div 16) ws)))"

section \<open>HMAC\<close>

definition xor_byte :: "nat \<Rightarrow> char \<Rightarrow> char" where
  "xor_byte n c = char_of (unat ((word_of_int (int n) :: 8 word) XOR word_of_int (int (code c))))"

definition hmac_sha256 :: "string \<Rightarrow> string \<Rightarrow> string" where
  "hmac_sha256 key msg =
     (let k0 = (if length key > 64 then Sum256 key else key);
          k = k0 @ replicate (64 - length k0) (CHR 0x00)
      in Sum256 (map (xor_byte 0x5C) k @ Sum256 (map (xor_byte 0x36) k @ msg)))"

lemma length_be_bytes [simp]: "length (be_bytes k n) = k"
  by (induction k n rule: be_bytes.induct) auto

lemma sha_rounds_length: "length st = 8 \<Longrightarrow> length (sha_rounds kws st) = 8"
  unfolding sha_rounds_def by (induction kws arbitrary: st) (simp_all add: sha_round_def Let_def)

lemma sha_blocks_length: "length st = 8 \<Longrightarrow> length (sha_blocks st n ws) = 8"
  by (induction st n ws rule: sha_blocks.induct) (auto simp: sha_block_def sha_rounds_length)

lemma length_Sum256 [simp]: "length (Sum256 msg) = 32"
proof -
  have "length (sha_blocks sha_h0 n ws) = 8" for n ws
    by (rule sha_blocks_length) (simp add: sha_h0_def)
  then show ?thesis by (simp add: Sum256_def Let_def length_concat comp_def sum_list_triv)
qed

lemma length_EncodeToString [simp]: "length (EncodeToString bs) = 2 * length bs"
  by (simp add: EncodeToString_def length_concat comp_def sum_list_triv)

end
