(* ===== verification/Pipeline.thy ===== *)
theory Pipeline
  imports Core_Types Go_Regexp Go_Crypto
begin

text \<open>
  Normalization and redaction, \<open>internal/pipeline/pipeline.go\<close>: the \<open>Processor\<close> with its
  rules (the patterns of the source, parsed), \<open>Normalize\<close>, \<open>Redact\<close> with its report, and
  the check of strict mode. The lemmas show what redaction changes, and what text that
  passed strict mode cannot contain.
\<close>

record Rule =
  ru_Name :: string
  ru_Category :: string
  ru_Pattern :: regex
  ru_Replacement :: "tpart list"

record Processor =
  pr_StrictMode :: bool
  pr_HMACKey :: string
  pr_NormalizeRules :: "regex list"
  pr_RedactionRules :: "Rule list"

text \<open>The replacement \<open>${1}<redacted:category>${3}\<close> of every rule.\<close>

definition marker_text :: "string \<Rightarrow> string" where
  "marker_text cat = ''<redacted:'' @ cat @ ''>''"

definition redact_template :: "string \<Rightarrow> tpart list" where
  "redact_template cat = [TRef 1, TLit (marker_text cat), TRef 3]"

definition mk_rule :: "string \<Rightarrow> string \<Rightarrow> string \<Rightarrow> Rule" where
  "mk_rule name cat pattern =
     \<lparr>ru_Name = name, ru_Category = cat, ru_Pattern = MustCompile pattern, ru_Replacement = redact_template cat\<rparr>"

definition default_normalize_patterns :: "string list" where
  "default_normalize_patterns =
    [''(?im)^`s*!?`s*(last (configuration )?change|last login|uptime|current time|time:|clock:).*$'',
     ''(?im)^`s*--More--`s*$'',
     ''(?im)^`s*`x1b`[[0-9;]*[A-Za-z]`s*$'']"

definition defaultRedactionRules :: "Rule list" where
  "defaultRedactionRules =
    [mk_rule ''snmp-community'' ''snmp_community''
       ''(?im)^(`s*(?:snmp-server`s+community|snmp`s+community|snmp-agent`s+community`s+(?:read|write))`s+)(`S+)(.*)$'',
     mk_rule ''enable-secret'' ''enable_secret''
       ''(?im)^(`s*(?:enable|super)`s+(?:secret|password)`s+(?:(?:`d+|cipher|simple)`s+)?)(`S+)(.*)$'',
     mk_rule ''local-user-password'' ''local_user_password''
       ''(?im)^(`s*username`s+`S+`s+(?:privilege`s+`d+`s+)?(?:password|secret)`s+(?:(?:`d+|cipher|simple)`s+)?)(`S+)(.*)$'',
     mk_rule ''aaa-shared-secret'' ''aaa_shared_secret''
       ''(?im)^(`s*(?:tacacs-server|radius-server|hwtacacs|radius)`b.*`bkey`s+(?:cipher`s+|simple`s+|7`s+)?)(`S+)(.*)$'',
     mk_rule ''routing-auth-key'' ''routing_auth_key''
       ''(?im)^(`s*(?:neighbor`s+`S+`s+password|authentication-key|ospf authentication-key|isis authentication-key)`s+(?:cipher`s+|simple`s+)?)(`S+)(.*)$'',
     mk_rule ''ipsec-psk'' ''ipsec_psk''
       ''(?im)^(`s*(?:pre-shared-key|ike.*key|ipsec.*key)`s+(?:cipher`s+|simple`s+)?)(`S+)(.*)$'']"

definition NewProcessor :: "bool \<Rightarrow> string \<Rightarrow> Processor" where
  "NewProcessor strict hmacKey =
     \<lparr>pr_StrictMode = strict, pr_HMACKey = hmacKey,
      pr_NormalizeRules = map MustCompile default_normalize_patterns,
      pr_RedactionRules = defaultRedactionRules\<rparr>"

section \<open>Normalization\<close>

text \<open>The loop over the lines: trailing blanks go, blank lines go.\<close>

fun keep_lines :: "string list \<Rightarrow> string list" where
  "keep_lines [] = []"
| "keep_lines (line # lines) =
     (let line' = TrimRight line [CHR '' '', CHR 0x09] in
      if TrimSpace line' = [] then keep_lines lines else line' # keep_lines lines)"

definition sortStableConfigLines :: "string list \<Rightarrow> string list" where
  "sortStableConfigLines lines = lines"

definition Normalize :: "go_error option \<Rightarrow> Processor \<Rightarrow> string \<Rightarrow> go_error + string" where
  "Normalize ctx p inp =
     (case ctx of Some e \<Rightarrow> Inl e
      | None \<Rightarrow>
        (let out1 = ReplaceAll inp [CHR 0x0D, CHR 0x0A] [CHR 0x0A];
             out2 = ReplaceAll out1 [CHR 0x0D] [CHR 0x0A];
             out3 = fold (\<lambda>rule out. ReplaceAllString rule out []) (pr_NormalizeRules p) out2;
             kept = keep_lines (Split out3 (CHR 0x0A))
         in Inr (Join (sortStableConfigLines kept) [CHR 0x0A] @ [CHR 0x0A])))"

section \<open>Redaction\<close>

definition fingerprint :: "string \<Rightarrow> string \<Rightarrow> string" where
  "fingerprint key value = EncodeToString (hmac_sha256 key value)"

definition SHA256Hex :: "string \<Rightarrow> string" where
  "SHA256Hex data = EncodeToString (Sum256 data)"

definition secret_patterns :: "string list" where
  "secret_patterns =
    [''(?im)`bpassword`s+`S+'', ''(?im)`bsecret`s+`S+'', ''(?im)`bcommunity`s+`S+'',
     ''(?im)`bpre-shared-key`s+`S+'']"

fun secret_lines :: "string list \<Rightarrow> bool" where
  "secret_lines [] = False"
| "secret_lines (line # lines) =
     (if Contains line ''<redacted:'' then secret_lines lines
      else if list_ex (\<lambda>p. MatchString (MustCompile p) line) secret_patterns then True
      else secret_lines lines)"

definition looksSecretLike :: "string \<Rightarrow> bool" where
  "looksSecretLike text = secret_lines (Split text (CHR 0x0A))"

text \<open>The report while the rules run: secrets found, the set of categories seen, fingerprints.\<close>

record redact_state =
  rs_text :: string
  rs_found :: int
  rs_cats :: "string list"
  rs_prints :: "string \<rightharpoonup> string"

text \<open>The loop over the matches of a rule; a match has one part per group and one for itself.\<close>

fun count_matches :: "Processor \<Rightarrow> Rule \<Rightarrow> re_result list \<Rightarrow> redact_state \<Rightarrow> redact_state" where
  "count_matches p rule [] st = st"
| "count_matches p rule (m # ms) st =
     count_matches p rule ms
       (if 1 + length (re_groups (ru_Pattern rule)) > 2
        then st\<lparr>rs_found := rs_found st + 1, rs_cats := List.insert (ru_Category rule) (rs_cats st),
                rs_prints := (if pr_HMACKey p \<noteq> []
                              then (rs_prints st)(ru_Category rule \<mapsto>
                                     fingerprint (pr_HMACKey p) (case rr_caps m 2 of None \<Rightarrow> [] | Some w \<Rightarrow> w))
                              else rs_prints st)\<rparr>
        else st)"

definition apply_rule :: "Processor \<Rightarrow> Rule \<Rightarrow> redact_state \<Rightarrow> redact_state" where
  "apply_rule p rule st =
     (let st1 = count_matches p rule (FindAllStringSubmatch (ru_Pattern rule) (rs_text st)) st
      in st1\<lparr>rs_text := ReplaceAllString (ru_Pattern rule) (rs_text st) (ru_Replacement rule)\<rparr>)"

definition empty_report :: RedactionReport where
  "empty_report = \<lparr>rr_SecretsFound = 0, rr_Categories = [], rr_Fingerprints = Map.empty\<rparr>"

definition redact_report :: "redact_state \<Rightarrow> RedactionReport" where
  "redact_report st = \<lparr>rr_SecretsFound = rs_found st, rr_Categories = sort_strings (rs_cats st),
     rr_Fingerprints = rs_prints st\<rparr>"

text \<open>An error carries the report as well.\<close>

definition Redact :: "go_error option \<Rightarrow> Processor \<Rightarrow> string \<Rightarrow> (go_error \<times> RedactionReport) + (string \<times> RedactionReport)" where
  "Redact ctx p inp =
     (case ctx of Some e \<Rightarrow> Inl (e, empty_report)
      | None \<Rightarrow>
        (let st = fold (apply_rule p) (pr_RedactionRules p)
                    \<lparr>rs_text = inp, rs_found = 0, rs_cats = [], rs_prints = Map.empty\<rparr>
         in if pr_StrictMode p \<and> looksSecretLike (rs_text st)
            then Inl (BackupError FailureRedaction ''strict mode''
                        (errors_New ''unclassified secret-shaped content remains''), redact_report st)
            else Inr (rs_text st, redact_report st)))"

section \<open>What redaction changes\<close>

text \<open>The shape of a redaction pattern: a line start, the text before the secret, the secret, the text after it.\<close>

fun seq_parts :: "regex \<Rightarrow> regex list" where
  "seq_parts (RSeq a b) = a # seq_parts b"
| "seq_parts r = [r]"

fun is_group :: "nat \<Rightarrow> bool \<Rightarrow> regex \<Rightarrow> bool" where
  "is_group k nonempty (RGroup n r) = (n = k \<and> re_groups r = [] \<and> (nonempty \<longrightarrow> never_empty r))"
| "is_group k nonempty r = False"

definition secret_shape :: "regex \<Rightarrow> bool" where
  "secret_shape r =
     (case seq_parts r of
        [b, p, q, t, e, z] \<Rightarrow>
          b = RBol \<and> e = REol \<and> z = REps \<and> is_group 1 False p \<and> is_group 2 True q \<and> is_group 3 False t
      | _ \<Rightarrow> False)"





lemma defaultRedactionRules_shape: "list_all (\<lambda>r. secret_shape (ru_Pattern r)) defaultRedactionRules"
  by code_simp

lemma default_patterns_parse:
  "list_all (\<lambda>p. MustCompile p \<noteq> REps) (default_normalize_patterns @ secret_patterns)"
  by code_simp











definition demo_processor :: "bool \<Rightarrow> regex list \<Rightarrow> Rule list \<Rightarrow> Processor" where
  "demo_processor strict nrs rrs =
     \<lparr>pr_StrictMode = strict, pr_HMACKey = [], pr_NormalizeRules = nrs, pr_RedactionRules = rrs\<rparr>"



text \<open>What \<open>Redact\<close> reads of a processor.\<close>

lemma apply_rule_key: "pr_HMACKey p = pr_HMACKey q \<Longrightarrow> apply_rule p = apply_rule q"
proof -
  assume k: "pr_HMACKey p = pr_HMACKey q"
  have "count_matches p r ms st = count_matches q r ms st" for r ms st
    by (induction ms arbitrary: st) (simp_all add: k)
  then show ?thesis by (simp add: fun_eq_iff apply_rule_def)
qed

lemma Redact_reads:
  assumes "pr_StrictMode p = pr_StrictMode q" "pr_HMACKey p = pr_HMACKey q"
    "pr_RedactionRules p = pr_RedactionRules q"
  shows "Redact ctx p s = Redact ctx q s"
  unfolding Redact_def apply_rule_key [OF assms(2)] assms(1,3) ..

section \<open>What strict mode excludes\<close>

text \<open>The pattern of a word as a literal in any case, followed by another pattern.\<close>

definition lit_class :: "char \<Rightarrow> cclass" where
  "lit_class c = CC False (fold_range \<lparr>fl_i = True, fl_m = True\<rparr> (ic c, ic c))"

fun lit_then :: "string \<Rightarrow> regex \<Rightarrow> regex" where
  "lit_then [] r = r"
| "lit_then (c # w) r = RSeq (RChar (lit_class c)) (lit_then w r)"

definition plus :: "cclass \<Rightarrow> regex" where
  "plus cc = RSeq (RChar cc) (RStar cc)"

definition blank_class :: cclass where "blank_class = CC False space_ranges"
definition value_class :: cclass where "value_class = CC True space_ranges"

definition keyword_regex :: "string \<Rightarrow> regex" where
  "keyword_regex w = RSeq RWordB (lit_then w (RSeq (plus blank_class) (RSeq (plus value_class) REps)))"

definition secret_keywords :: "string list" where
  "secret_keywords = [''password'', ''secret'', ''community'', ''pre-shared-key'']"

lemma secret_patterns_keywords: "map MustCompile secret_patterns = map keyword_regex secret_keywords"
  by code_simp

lemma code_lower_char: "code (lower_char c) = (if is_upper c then code c + 32 else code c)"
  by (auto simp: lower_char_def is_upper_def)

lemma lit_class_lower:
  assumes "lower_char c = d"
  shows "cc_in (lit_class d) c"
proof -
  have d: "code d = (if 65 \<le> code c \<and> code c \<le> 90 then code c + 32 else code c)"
    using code_lower_char [of c] assms by (simp add: is_upper_def)
  have "\<not> (65 \<le> code d \<and> code d \<le> 90)" using d by (auto split: if_splits)
  then show ?thesis using d
    by (auto simp: lit_class_def fold_range_def fold_code_def ic_code split: if_splits)
qed

lemma way_lit_then:
  "ToLower v = w \<Longrightarrow> re_way r (rev v @ b, s, caps) q \<Longrightarrow> re_way (lit_then w r) (b, v @ s, caps) q"
proof (induction v arbitrary: w b)
  case Nil
  then show ?case by (simp add: ToLower_def)
next
  case (Cons c v)
  then obtain d w' where w: "w = d # w'" "lower_char c = d" "ToLower v = w'" by (auto simp: ToLower_def)
  have "re_way (lit_then w' r) (c # b, v @ s, caps) q"
    using Cons.IH [OF w(3), of "c # b"] Cons.prems(2) by simp
  moreover have "re_way (RChar (lit_class d)) (b, c # v @ s, caps) (c # b, v @ s, caps)"
    using w(2) by (intro way_char lit_class_lower)
  ultimately show ?case using w(1) by (auto intro: way_seq)
qed

lemma way_plus:
  assumes "v \<noteq> []" "list_all (cc_in cc) v"
  shows "re_way (plus cc) (b, v @ s, caps) (rev v @ b, s, caps)"
proof -
  obtain c v' where v: "v = c # v'" using assms(1) by (cases v) auto
  have "re_way (RChar cc) (b, c # (v' @ s), caps) (c # b, v' @ s, caps)"
    using assms(2) v by (intro way_char) simp
  moreover have "re_way (RStar cc) (c # b, v' @ s, caps) (rev v' @ c # b, s, caps)"
    using assms(2) v by (intro way_star) simp
  ultimately show ?thesis unfolding plus_def v by (auto intro: way_seq)
qed

text \<open>A line on which a keyword is followed by a value: the keyword in any case at a word start, blanks, and a value.\<close>

definition blank_char :: "char \<Rightarrow> bool" where
  "blank_char c = (code c \<in> {9, 10, 12, 13, 32})"

definition shows_secret :: "string \<Rightarrow> bool" where
  "shows_secret line =
     (\<exists>u kw blanks val rest. line = u @ kw @ blanks @ val @ rest \<and> ToLower kw \<in> set secret_keywords
        \<and> (u = [] \<or> \<not> word_char (last u)) \<and> blanks \<noteq> [] \<and> list_all blank_char blanks
        \<and> val \<noteq> [] \<and> list_all (\<lambda>c. \<not> blank_char c) val)"

lemma blank_class_iff: "cc_in blank_class c = blank_char c" "cc_in value_class c = (\<not> blank_char c)"
proof -
  have "list_ex (\<lambda>(a, b). a \<le> ic c \<and> ic c \<le> b) space_ranges \<longleftrightarrow> blank_char c"
    by (auto simp: space_ranges_def blank_char_def ic_code)
  then show "cc_in blank_class c = blank_char c" "cc_in value_class c = (\<not> blank_char c)"
    by (simp_all add: blank_class_def value_class_def)
qed

lemma keyword_first_char:
  assumes "ToLower kw \<in> set secret_keywords"
  shows "\<exists>c kw'. kw = c # kw' \<and> word_char c"
proof -
  from assms obtain c kw' where kw: "kw = c # kw'" by (cases kw) (auto simp: secret_keywords_def ToLower_def)
  with assms have "code (lower_char c) \<in> {112, 115, 99}" by (auto simp: secret_keywords_def ToLower_def code_def)
  then have "97 \<le> code c \<and> code c \<le> 122 \<or> 65 \<le> code c \<and> code c \<le> 90"
    by (auto simp: code_lower_char is_upper_def split: if_splits)
  then show ?thesis using kw by (auto simp: word_char_def ic_code)
qed

lemma shows_secret_matches:
  assumes "shows_secret line"
  shows "\<exists>w\<in>set secret_keywords. MatchString (keyword_regex w) line"
proof -
  from assms obtain u kw blanks val rest where line: "line = u @ kw @ blanks @ val @ rest"
    and kw: "ToLower kw \<in> set secret_keywords" and u: "u = [] \<or> \<not> word_char (last u)"
    and b: "blanks \<noteq> []" "list_all blank_char blanks" and v: "val \<noteq> []" "list_all (\<lambda>c. \<not> blank_char c) val"
    unfolding shows_secret_def by blast
  obtain c kw' where c: "kw = c # kw'" "word_char c" using keyword_first_char [OF kw] by blast
  have "at_word_boundary (rev u) (kw @ blanks @ val @ rest)"
  proof (cases u rule: rev_cases)
    case Nil
    then show ?thesis using c by (simp add: at_word_boundary_def)
  next
    case (snoc us x)
    then show ?thesis using c u by (simp add: at_word_boundary_def)
  qed
  then have 1: "re_way RWordB (rev u, kw @ blanks @ val @ rest, \<lambda>_. None) (rev u, kw @ blanks @ val @ rest, \<lambda>_. None)"
    by (rule way_wordb)
  have 2: "re_way (plus blank_class) (rev kw @ rev u, blanks @ val @ rest, \<lambda>_. None)
      (rev blanks @ rev kw @ rev u, val @ rest, \<lambda>_. None)"
    using b by (intro way_plus) (auto simp: blank_class_iff list_all_iff)
  have 3: "re_way (plus value_class) (rev blanks @ rev kw @ rev u, val @ rest, \<lambda>_. None)
      (rev val @ rev blanks @ rev kw @ rev u, rest, \<lambda>_. None)"
    using v by (intro way_plus) (auto simp: blank_class_iff list_all_iff)
  have "re_way (lit_then (ToLower kw) (RSeq (plus blank_class) (RSeq (plus value_class) REps)))
      (rev u, kw @ blanks @ val @ rest, \<lambda>_. None) (rev val @ rev blanks @ rev kw @ rev u, rest, \<lambda>_. None)"
    by (rule way_lit_then [OF refl]) (rule way_seq [OF 2 way_seq [OF 3 way_eps]])
  with 1 have "re_way (keyword_regex (ToLower kw)) (rev u, kw @ blanks @ val @ rest, \<lambda>_. None)
      (rev val @ rev blanks @ rev kw @ rev u, rest, \<lambda>_. None)"
    unfolding keyword_regex_def by (rule way_seq)
  with line have "MatchString (keyword_regex (ToLower kw)) line" unfolding MatchString_iff by blast
  with kw show ?thesis by blast
qed

lemma secret_lines_iff:
  "secret_lines ls \<longleftrightarrow>
     (\<exists>l\<in>set ls. \<not> Contains l ''<redacted:'' \<and> (\<exists>w\<in>set secret_keywords. MatchString (keyword_regex w) l))"
proof -
  have m: "list_ex (\<lambda>p. MatchString (MustCompile p) l) secret_patterns
      \<longleftrightarrow> (\<exists>w\<in>set secret_keywords. MatchString (keyword_regex w) l)" for l
  proof -
    have "list_ex (\<lambda>p. MatchString (MustCompile p) l) secret_patterns
        \<longleftrightarrow> list_ex (\<lambda>r. MatchString r l) (map MustCompile secret_patterns)"
      by (simp add: list_ex_iff)
    then show ?thesis unfolding secret_patterns_keywords by (simp add: list_ex_iff)
  qed
  show ?thesis by (induction ls) (simp_all add: m)
qed

lemma strict_Redact_line:
  assumes "Redact None p inp = Inr (out, rep)" "pr_StrictMode p"
    and "line \<in> set (Split out (CHR 0x0A))" "\<not> Contains line ''<redacted:''"
  shows "\<not> shows_secret line"
proof
  assume "shows_secret line"
  with shows_secret_matches assms(3,4) have "secret_lines (Split out (CHR 0x0A))"
    unfolding secret_lines_iff by blast
  with assms(1,2) show False
    by (auto simp: Redact_def Let_def looksSecretLike_def split: if_splits)
qed

text \<open>
  C35: what passes strict mode shows no secret. When a strict processor accepts a text, no
  line of the result without a redaction marker contains one of the words password,
  secret, community or pre-shared-key, in any case and at the start of a word, followed
  by blanks and a value.
\<close>

theorem strict_Redact_shows_no_secret:
  assumes "Redact None p inp = Inr (out, rep)" "pr_StrictMode p"
    and "line \<in> set (Split out (CHR 0x0A))" "\<not> Contains line ''<redacted:''"
  shows "\<not> shows_secret line"
  using assms by (rule strict_Redact_line)

lemma demo_redact: "\<exists>rep. Redact None (NewProcessor True []) ''ntp a'' = Inr (''ntp a'', rep)"
proof -
  have e: "(case Redact None (demo_processor True [] defaultRedactionRules) ''ntp a'' of Inl _ \<Rightarrow> False
      | Inr (out, rep) \<Rightarrow> out = ''ntp a'')" by code_simp
  have "Redact None (NewProcessor True []) ''ntp a'' = Redact None (demo_processor True [] defaultRedactionRules) ''ntp a''"
    by (rule Redact_reads) (simp_all add: NewProcessor_def demo_processor_def)
  with e show ?thesis by (auto split: sum.splits)
qed

theorem strict_Redact_shows_no_secret_witness:
  "\<exists>rep. Redact None (NewProcessor True []) ''ntp a'' = Inr (''ntp a'', rep) \<and> \<not> shows_secret ''ntp a''"
proof -
  obtain rep where r: "Redact None (NewProcessor True []) ''ntp a'' = Inr (''ntp a'', rep)"
    using demo_redact by blast
  have s: "pr_StrictMode (NewProcessor True [])" by (simp add: NewProcessor_def)
  have l: "''ntp a'' \<in> set (Split ''ntp a'' (CHR 0x0A))" by code_simp
  have c: "\<not> Contains ''ntp a'' ''<redacted:''" by code_simp
  from strict_Redact_shows_no_secret [OF r s l c] r show ?thesis by blast
qed

text \<open>
  A line with a marker is not looked at again: a second secret on a line that one rule
  has already redacted passes strict mode.
\<close>

lemma second_secret_passes_strict_mode:
  "(case Redact None (NewProcessor True []) ''snmp community a password b'' of
      Inl _ \<Rightarrow> False
    | Inr (out, rep) \<Rightarrow> out = ''snmp community <redacted:snmp_community> password b'')"
proof -
  have e: "(case Redact None (demo_processor True [] defaultRedactionRules) ''snmp community a password b'' of
      Inl _ \<Rightarrow> False
    | Inr (out, rep) \<Rightarrow> out = ''snmp community <redacted:snmp_community> password b'')" by code_simp
  have "Redact None (NewProcessor True []) ''snmp community a password b''
      = Redact None (demo_processor True [] defaultRedactionRules) ''snmp community a password b''"
    by (rule Redact_reads) (simp_all add: NewProcessor_def demo_processor_def)
  with e show ?thesis by (simp only:)
qed

section \<open>What normalization yields\<close>

lemma keep_lines_facts:
  "l \<in> set (keep_lines ls) \<Longrightarrow>
   TrimSpace l \<noteq> [] \<and> TrimRight l [CHR '' '', CHR 0x09] = l \<and> (\<exists>l'\<in>set ls. set l \<subseteq> set l')"
  by (induction ls) (auto simp: Let_def TrimRight_idem split: if_splits dest: TrimRight_subset [THEN subsetD])

lemma replace_matches_empty_chars:
  "matches_text s ms rest \<Longrightarrow> set (replace_matches [] s ms) \<subseteq> set s"
  by (induction ms arbitrary: s) auto

lemma ReplaceAllString_empty_chars: "set (ReplaceAllString r s []) \<subseteq> set s"
  using re_find_all_matches [of s r "[]"] by (auto simp: ReplaceAllString_def dest!: replace_matches_empty_chars)

text \<open> normalized text consists of lines that each end in a newline, contain neither a
  carriage return nor a trailing blank or tab, and are not blank; a text of which nothing
  remains becomes a single newline.
\<close>

theorem Normalize_lines:
  assumes "Normalize None p inp = Inr out"
  shows "\<exists>lines. out = Join lines [CHR 0x0A] @ [CHR 0x0A]
    \<and> (\<forall>l\<in>set lines. CHR 0x0A \<notin> set l \<and> CHR 0x0D \<notin> set l \<and> TrimSpace l \<noteq> []
          \<and> TrimRight l [CHR '' '', CHR 0x09] = l)"
proof -
  define out1 where "out1 = ReplaceAll inp [CHR 0x0D, CHR 0x0A] [CHR 0x0A]"
  define out2 where "out2 = ReplaceAll out1 [CHR 0x0D] [CHR 0x0A]"
  define out3 where "out3 = fold (\<lambda>rule out. ReplaceAllString rule out []) (pr_NormalizeRules p) out2"
  have "CHR 0x0D \<notin> set out2" unfolding out2_def by (rule ReplaceAll_char_absent) simp
  moreover have "set (fold (\<lambda>rule out. ReplaceAllString rule out []) rs s) \<subseteq> set s" for rs s
    by (induction rs arbitrary: s) (auto dest: ReplaceAllString_empty_chars [THEN subsetD])
  ultimately have cr: "CHR 0x0D \<notin> set out3" unfolding out3_def by blast
  let ?lines = "keep_lines (Split out3 (CHR 0x0A))"
  have out: "out = Join ?lines [CHR 0x0A] @ [CHR 0x0A]"
    using assms by (simp add: Normalize_def Let_def sortStableConfigLines_def out1_def out2_def out3_def)
  have "CHR 0x0A \<notin> set l \<and> CHR 0x0D \<notin> set l \<and> TrimSpace l \<noteq> [] \<and> TrimRight l [CHR '' '', CHR 0x09] = l"
    if "l \<in> set ?lines" for l
  proof -
    from keep_lines_facts [OF that] obtain l' where l: "TrimSpace l \<noteq> []" "TrimRight l [CHR '' '', CHR 0x09] = l"
      "l' \<in> set (Split out3 (CHR 0x0A))" "set l \<subseteq> set l'" by blast
    from Split_parts [OF l(3)] set_Split_subset [OF l(3)] cr l show ?thesis by blast
  qed
  with out show ?thesis by blast
qed

theorem Normalize_lines_witness:
  "let p = demo_processor True [MustCompile ''(?im)^`s*--More--`s*$''] [];
       inp = ''host r1 '' @ [CHR 0x0D, CHR 0x0A] @ ''  --more--'' @ [CHR 0x0A] @ ''ntp a'';
       out = ''host r1'' @ [CHR 0x0A] @ ''ntp a'' @ [CHR 0x0A]
   in Normalize None p inp = Inr out
    \<and> (\<exists>lines. out = Join lines [CHR 0x0A] @ [CHR 0x0A]
        \<and> (\<forall>l\<in>set lines. CHR 0x0D \<notin> set l \<and> TrimSpace l \<noteq> []))"
proof -
  have n: "Normalize None (demo_processor True [MustCompile ''(?im)^`s*--More--`s*$''] [])
       (''host r1 '' @ [CHR 0x0D, CHR 0x0A] @ ''  --more--'' @ [CHR 0x0A] @ ''ntp a'')
     = Inr (''host r1'' @ [CHR 0x0A] @ ''ntp a'' @ [CHR 0x0A])" by code_simp
  from Normalize_lines [OF n] n show ?thesis unfolding Let_def by blast
qed

end
