(* ===== verification/Drivers.thy ===== *)
theory Drivers
  imports Pipeline
begin

text \<open>
  The vendor drivers of \<open>internal/drivers\<close>: the generic CLI driver of \<open>cli.go\<close> on a
  session, the six command profiles of \<open>profiles.go\<close> with their patterns, and the registry
  of \<open>registry.go\<close>. A session is a state with a function that runs a command; its output
  and error are what the transport reports.
\<close>

section \<open>Profiles\<close>

definition defaultMaxConfigBytes :: int where
  "defaultMaxConfigBytes = 16 * 1024 * 1024"

record profileCommand =
  pc_Command :: string
  pc_AllowFailure :: bool

record outputMarker =
  om_Name :: string
  om_Category :: FailureCategory
  om_Pattern :: regex

record commandProfile =
  cp_Vendor :: string
  cp_Prepare :: "profileCommand list"
  cp_FetchCommand :: string
  cp_PromptPatterns :: "regex list"
  cp_PagingPatterns :: "regex list"
  cp_Markers :: "outputMarker list"
  cp_NormalizeRules :: "regex list"
  cp_RedactionRules :: "Rule list"
  cp_MaxBytes :: int

definition clone :: "commandProfile \<Rightarrow> commandProfile" where
  "clone p = (if cp_MaxBytes p = 0 then p\<lparr>cp_MaxBytes := defaultMaxConfigBytes\<rparr> else p)"

definition commands :: "string list \<Rightarrow> profileCommand list" where
  "commands values = map (\<lambda>v. \<lparr>pc_Command = v, pc_AllowFailure = False\<rparr>) values"

definition regexps :: "string list \<Rightarrow> regex list" where
  "regexps patterns = map MustCompile patterns"

definition rule :: "string \<Rightarrow> string \<Rightarrow> string \<Rightarrow> Rule" where
  "rule name category pattern = mk_rule name category pattern"

definition marker :: "string \<Rightarrow> FailureCategory \<Rightarrow> string \<Rightarrow> outputMarker" where
  "marker name category pattern = \<lparr>om_Name = name, om_Category = category, om_Pattern = MustCompile pattern\<rparr>"

definition appendMarkers :: "outputMarker list \<Rightarrow> outputMarker list \<Rightarrow> outputMarker list" where
  "appendMarkers base extra = base @ extra"

definition commonPagingPatterns :: "regex list" where
  \<open>commonPagingPatterns = regexps
    [''(?i)[ `t]*<---[ `t]*more[ `t]*--->[ `t]*'',
     ''(?i)[ `t]*----[ `t]*more[ `t]*----[ `t]*'',
     ''(?i)[ `t]*--+[ `t]*more[ `t]*--+[ `t]*'',
     ''(?i)[ `t]*-+`(?more(?:[ `t]+`d+%)?`)?-+[ `t]*'']\<close>

definition commonCiscoMarkers :: "outputMarker list" where
  \<open>commonCiscoMarkers =
    [marker ''cisco command'' FailureCommand
       ''(?im)^% ?(?:Invalid input|Incomplete command|Ambiguous command|Unknown command).*$'']\<close>

definition commonCiscoNormalizeRules :: "regex list" where
  \<open>commonCiscoNormalizeRules = regexps
    [''(?im)^Building configuration`.`.`..*$'',
     ''(?im)^Current configuration`s*:.*$'']\<close>

definition ciscoIOSXEProfile :: commandProfile where
  \<open>ciscoIOSXEProfile =
    \<lparr>cp_Vendor = ''cisco_iosxe'',
     cp_Prepare = commands [''terminal length 0'', ''terminal width 0''],
     cp_FetchCommand = ''show running-config'',
     cp_PromptPatterns = regexps [''^[A-Za-z0-9_.:/-]+(?:`([^)]+`))?[#>]''],
     cp_PagingPatterns = commonPagingPatterns,
     cp_Markers = appendMarkers commonCiscoMarkers
        [marker ''cisco privilege'' FailurePrivilege
           ''(?im)^% ?(?:Authorization failed|Access denied|Permission denied|Privilege level insufficient).*$'',
         marker ''cisco timeout'' FailureTimeout
           ''(?im)^% ?(?:Timed out|Command timed out).*$'',
         marker ''cisco oversized'' FailureCommand
           ''(?im)^% ?(?:Output truncated|Configuration too large|Exceeded maximum output).*$''],
     cp_NormalizeRules = commonCiscoNormalizeRules,
     cp_RedactionRules =
        [],
     cp_MaxBytes = defaultMaxConfigBytes\<rparr>\<close>

definition huaweiVRPProfile :: commandProfile where
  \<open>huaweiVRPProfile =
    \<lparr>cp_Vendor = ''huawei_vrp'',
     cp_Prepare = commands [''screen-length 0 temporary''],
     cp_FetchCommand = ''display current-configuration'',
     cp_PromptPatterns = regexps [''^(?:<[^>`n]+>|`[[^`]`n]+`])''],
     cp_PagingPatterns = commonPagingPatterns,
     cp_Markers = [marker ''huawei privilege'' FailurePrivilege
           ''(?im)^Error: (?:Permission denied|The user does not have permission|Insufficient permission).*$'',
         marker ''huawei timeout'' FailureTimeout
           ''(?im)^(?:Error|Info): .*timed? ?out.*$'',
         marker ''huawei oversized'' FailureCommand
           ''(?im)^Error: .*output.*(?:too large|exceed|truncated).*$'',
         marker ''huawei command'' FailureCommand
           ''(?im)^Error: .*(?:Unrecognized command|The command is not found|Too many parameters|Incomplete command|Wrong parameter).*$''],
     cp_NormalizeRules = regexps
        [''(?im)^Info: Current configuration.*$'',
         ''(?im)^#`s*display current-configuration.*$''],
     cp_RedactionRules =
        [rule ''huawei-local-user-password'' ''local_user_password''
           ''(?im)^(`s*local-user`s+`S+`s+password`s+(?:(?:irreversible-cipher|cipher|simple)`s+)?)(`S+)(.*)$''],
     cp_MaxBytes = defaultMaxConfigBytes\<rparr>\<close>

definition ciscoIOSXRProfile :: commandProfile where
  \<open>ciscoIOSXRProfile =
    \<lparr>cp_Vendor = ''cisco_iosxr'',
     cp_Prepare = commands [''terminal length 0'', ''terminal width 0''],
     cp_FetchCommand = ''show running-config'',
     cp_PromptPatterns = regexps [''^[A-Za-z0-9_.:/-]+(?:`([^)]+`))?[#>]''],
     cp_PagingPatterns = commonPagingPatterns,
     cp_Markers = appendMarkers commonCiscoMarkers
        [marker ''iosxr privilege'' FailurePrivilege
           ''(?im)^% ?(?:Authorization failed|Access denied|Permission denied|Insufficient privileges).*$'',
         marker ''iosxr timeout'' FailureTimeout
           ''(?im)^% ?(?:Timed out|Command timed out).*$'',
         marker ''iosxr oversized'' FailureCommand
           ''(?im)^% ?(?:Output truncated|Configuration too large|Exceeded maximum output).*$''],
     cp_NormalizeRules = regexps
        [''(?im)^Building configuration`.`.`..*$'',
         ''(?im)^!! IOS XR Configuration.*$'',
         ''(?im)^!! Last configuration change.*$'',
         ''(?im)^Current configuration`s*:.*$''],
     cp_RedactionRules =
        [rule ''iosxr-nested-user-secret'' ''local_user_password''
           ''(?im)^(`s*secret`s+(?:`d+`s+)?)(`S+)(.*)$''],
     cp_MaxBytes = defaultMaxConfigBytes\<rparr>\<close>

definition juniperJunosProfile :: commandProfile where
  \<open>juniperJunosProfile =
    \<lparr>cp_Vendor = ''juniper_junos'',
     cp_Prepare = commands [''set cli screen-length 0'', ''set cli screen-width 0''],
     cp_FetchCommand = ''show configuration | display set | no-more'',
     cp_PromptPatterns = regexps [''^[A-Za-z0-9_.@:/-]+[>%#]''],
     cp_PagingPatterns = commonPagingPatterns,
     cp_Markers = [marker ''junos privilege'' FailurePrivilege
           ''(?im)^(?:error: )?(?:permission denied|authorization failed|insufficient privileges).*$'',
         marker ''junos timeout'' FailureTimeout
           ''(?im)^(?:error: )?.*timed? ?out.*$'',
         marker ''junos oversized'' FailureCommand
           ''(?im)^(?:error: )?.*(?:output too large|output truncated|response too large).*$'',
         marker ''junos command'' FailureCommand
           ''(?im)^(?:error: )?(?:syntax error|unknown command|invalid command).*$''],
     cp_NormalizeRules = regexps
        [''(?im)^## Last commit:.*$'',
         ''(?im)^# Last commit:.*$''],
     cp_RedactionRules =
        [rule ''junos-login-password'' ''local_user_password''
           ''(?im)^(`s*set`s+system`s+login`s+user`s+`S+`s+authentication`s+(?:encrypted-password|plain-text-password)`s+)("[^"`r`n]+"|`S+)(.*)$'',
         rule ''junos-root-password'' ''local_user_password''
           ''(?im)^(`s*set`s+system`s+root-authentication`s+(?:encrypted-password|plain-text-password)`s+)("[^"`r`n]+"|`S+)(.*)$'',
         rule ''junos-snmp-community'' ''snmp_community''
           ''(?im)^(`s*set`s+snmp`s+community`s+)("[^"`r`n]+"|`S+)(.*)$'',
         rule ''junos-aaa-secret'' ''aaa_shared_secret''
           ''(?im)^(`s*set`s+system`s+(?:radius-server|tacplus-server)`s+`S+`s+(?:secret|password)`s+)("[^"`r`n]+"|`S+)(.*)$'',
         rule ''junos-routing-auth-key'' ''routing_auth_key''
           ''(?im)^(`s*set`s+protocols`s+.+`s+authentication-key`s+)("[^"`r`n]+"|`S+)(.*)$''],
     cp_MaxBytes = defaultMaxConfigBytes\<rparr>\<close>

definition zteZXR10Profile :: commandProfile where
  \<open>zteZXR10Profile =
    \<lparr>cp_Vendor = ''zte_zxr10'',
     cp_Prepare = commands [''terminal length 0''],
     cp_FetchCommand = ''show running-config'',
     cp_PromptPatterns = regexps [''^[A-Za-z0-9_.:/-]+(?:`([^)]+`))?[#>]''],
     cp_PagingPatterns = commonPagingPatterns,
     cp_Markers = [marker ''zte privilege'' FailurePrivilege
           ''(?im)^(?:% ?)?(?:No privilege|Permission denied|Authorization failed|Insufficient privilege).*$'',
         marker ''zte timeout'' FailureTimeout
           ''(?im)^(?:% ?)?(?:Command timed out|Timed out).*$'',
         marker ''zte oversized'' FailureCommand
           ''(?im)^(?:% ?)?(?:Output too large|Output truncated|Exceeded maximum output).*$'',
         marker ''zte command'' FailureCommand
           ''(?im)^(?:% ?)?(?:Invalid command|Incomplete command|Ambiguous command|Command execution failed|Code 202).*$''],
     cp_NormalizeRules = regexps
        [''(?im)^Building configuration`.`.`..*$'',
         ''(?im)^Current configuration`s*:.*$''],
     cp_RedactionRules =
        [],
     cp_MaxBytes = defaultMaxConfigBytes\<rparr>\<close>

definition ericssonIPOSProfile :: commandProfile where
  \<open>ericssonIPOSProfile =
    \<lparr>cp_Vendor = ''ericsson_ipos'',
     cp_Prepare = commands [''terminal length 0'', ''terminal width 0''],
     cp_FetchCommand = ''show configuration'',
     cp_PromptPatterns = regexps [''^[A-Za-z0-9_.:@/-]+(?:`([^)]+`))?[#>]''],
     cp_PagingPatterns = commonPagingPatterns,
     cp_Markers = [marker ''ipos privilege'' FailurePrivilege
           ''(?im)^(?:ERROR: )?(?:Permission denied|Authorization failed|Insufficient privileges).*$'',
         marker ''ipos timeout'' FailureTimeout
           ''(?im)^(?:ERROR: )?.*timed? ?out.*$'',
         marker ''ipos oversized'' FailureCommand
           ''(?im)^(?:ERROR: )?.*(?:output too large|output truncated|response too large).*$'',
         marker ''ipos command'' FailureCommand
           ''(?im)^(?:ERROR: )?(?:Invalid command|Unknown command|Command failed).*$''],
     cp_NormalizeRules = regexps
        [''(?im)^Current configuration`s*:.*$'',
         ''(?im)^Building configuration`.`.`..*$''],
     cp_RedactionRules =
        [rule ''ipos-user-password'' ''local_user_password''
           ''(?im)^(`s*(?:system`s+)?user`s+`S+`s+(?:encrypted-password|password)`s+)(`S+)(.*)$''],
     cp_MaxBytes = defaultMaxConfigBytes\<rparr>\<close>

section \<open>The CLI driver\<close>

record CLIDriver =
  dr_profile :: commandProfile
  dr_processor :: Processor

definition NewCLIProfile :: "commandProfile \<Rightarrow> CLIDriver" where
  "NewCLIProfile profile =
     (let processor = NewProcessor True [] in
      \<lparr>dr_profile = clone profile,
       dr_processor = processor\<lparr>pr_NormalizeRules := pr_NormalizeRules processor @ cp_NormalizeRules profile,
                                pr_RedactionRules := pr_RedactionRules processor @ cp_RedactionRules profile\<rparr>\<rparr>)"

definition NewCLI :: "string \<Rightarrow> string list \<Rightarrow> string \<Rightarrow> CLIDriver" where
  "NewCLI vendor prepare fetchCommand =
     NewCLIProfile \<lparr>cp_Vendor = vendor, cp_Prepare = commands prepare, cp_FetchCommand = fetchCommand,
       cp_PromptPatterns = [], cp_PagingPatterns = [], cp_Markers = [], cp_NormalizeRules = [],
       cp_RedactionRules = [], cp_MaxBytes = defaultMaxConfigBytes\<rparr>"

definition Vendor :: "CLIDriver \<Rightarrow> string" where
  "Vendor d = cp_Vendor (dr_profile d)"

definition compactMarker :: "string \<Rightarrow> string" where
  "compactMarker s =
     (let fields = Fields s in
      if fields = [] then []
      else let compact = Join fields '' '' in
           if length compact > 96 then take 96 compact @ ''...'' else compact)"

fun first_marker :: "outputMarker list \<Rightarrow> string \<Rightarrow> string \<Rightarrow> go_error option" where
  "first_marker [] command text = None"
| "first_marker (mk # mks) command text =
     (let mt = FindString (om_Pattern mk) text in
      if mt \<noteq> []
      then Some (BackupError (om_Category mk) command
                   (Errorf ''%s marker matched: %s'' [om_Name mk, compactMarker mt]))
      else first_marker mks command text)"

definition classifyOutput :: "CLIDriver \<Rightarrow> string \<Rightarrow> string \<Rightarrow> go_error option" where
  "classifyOutput d command out = (if out = [] then None else first_marker (cp_Markers (dr_profile d)) command out)"

definition wrapCommandError :: "string \<Rightarrow> go_error \<Rightarrow> go_error" where
  "wrapCommandError op err =
     (if as_backup err \<noteq> None then err
      else BackupError (if error_is err DeadlineExceeded \<or> error_is err Canceled then FailureTimeout else FailureCommand) op err)"

text \<open>A session: its state and what running a command gives.\<close>

type_synonym 's Session = "'s \<Rightarrow> string \<Rightarrow> (string \<times> go_error option) \<times> 's"

fun prepare_commands :: "CLIDriver \<Rightarrow> 's Session \<Rightarrow> profileCommand list \<Rightarrow> 's \<Rightarrow> go_error option \<times> 's" where
  "prepare_commands d run [] s = (None, s)"
| "prepare_commands d run (cmd # cmds) s =
     (let ((out, err), s') = run s (pc_Command cmd) in
      case classifyOutput d (pc_Command cmd) out of
        Some e \<Rightarrow> if pc_AllowFailure cmd then prepare_commands d run cmds s' else (Some e, s')
      | None \<Rightarrow>
          (case err of
             Some e \<Rightarrow> if pc_AllowFailure cmd then prepare_commands d run cmds s'
                       else (Some (wrapCommandError (''prepare '' @ Vendor d) e), s')
           | None \<Rightarrow> prepare_commands d run cmds s'))"

definition Prepare :: "CLIDriver \<Rightarrow> 's Session \<Rightarrow> 's \<Rightarrow> go_error option \<times> 's" where
  "Prepare d run s = prepare_commands d run (cp_Prepare (dr_profile d)) s"

text \<open>\<open>start\<close> and \<open>now\<close> are the readings of the clock before and after the command.\<close>

definition FetchConfig :: "CLIDriver \<Rightarrow> instant \<Rightarrow> instant \<Rightarrow> Target \<Rightarrow> 's Session \<Rightarrow> 's \<Rightarrow> (go_error + ConfigResult) \<times> 's" where
  "FetchConfig d start now t run s =
     (let cmd = cp_FetchCommand (dr_profile d); mx = cp_MaxBytes (dr_profile d);
          ((out, err), s') = run s cmd
      in (case classifyOutput d cmd out of
            Some e \<Rightarrow> Inl e
          | None \<Rightarrow>
              (case err of
                 Some e \<Rightarrow> Inl (wrapCommandError cmd e)
               | None \<Rightarrow>
                   if mx > 0 \<and> int (length out) > mx
                   then Inl (BackupError FailureCommand cmd
                               (Errorf ''config output exceeded profile limit of %d bytes'' [Itoa mx]))
                   else Inr \<lparr>cr_TargetID = t_ID t, cr_FetchedAt = now, cr_RawConfig = out,
                             cr_Metadata = [''vendor'' \<mapsto> Vendor d, ''fetch_command'' \<mapsto> cmd],
                             cr_DurationMS = go_div (now - start) Millisecond\<rparr>), s'))"

definition sameCommand :: "string \<Rightarrow> string \<Rightarrow> bool" where
  "sameCommand a b = EqualFold (TrimSpace a) (TrimSpace b)"

definition isPrepareCommand :: "CLIDriver \<Rightarrow> string \<Rightarrow> bool" where
  "isPrepareCommand d line = list_ex (\<lambda>cmd. sameCommand line (pc_Command cmd)) (cp_Prepare (dr_profile d))"

text \<open>The loop over the prompt patterns.\<close>

fun prompt_echo :: "CLIDriver \<Rightarrow> string \<Rightarrow> regex list \<Rightarrow> bool" where
  "prompt_echo d trimmed [] = False"
| "prompt_echo d trimmed (p # ps) =
     (case FindStringIndex p trimmed of
        None \<Rightarrow> prompt_echo d trimmed ps
      | Some (from, to) \<Rightarrow>
          if from \<noteq> 0 then prompt_echo d trimmed ps
          else let rest = TrimSpace (drop to trimmed) in
               if rest = [] then True
               else if sameCommand rest (cp_FetchCommand (dr_profile d)) \<or> isPrepareCommand d rest then True
               else prompt_echo d trimmed ps)"

definition isPromptOrCommandEcho :: "CLIDriver \<Rightarrow> string \<Rightarrow> bool" where
  "isPromptOrCommandEcho d line =
     (let trimmed = TrimSpace line in
      if trimmed = [] then False
      else if sameCommand trimmed (cp_FetchCommand (dr_profile d)) \<or> isPrepareCommand d trimmed then True
      else prompt_echo d trimmed (cp_PromptPatterns (dr_profile d)))"

definition ansiSequence :: regex where
  \<open>ansiSequence = MustCompile ''`x1b`[[0-9;?]*[ -/]*[@-~]''\<close>

fun strip_lines :: "CLIDriver \<Rightarrow> string list \<Rightarrow> string list" where
  "strip_lines d [] = []"
| "strip_lines d (line # lines) =
     (let line' = TrimRight (ReplaceAll line [CHR 0x08] []) [CHR '' '', CHR 0x09] in
      if isPromptOrCommandEcho d line' then strip_lines d lines else line' # strip_lines d lines)"

definition stripTranscriptArtifacts :: "CLIDriver \<Rightarrow> string \<Rightarrow> string" where
  "stripTranscriptArtifacts d inp =
     (let text1 = ReplaceAll inp [CHR 0x0D, CHR 0x0A] [CHR 0x0A];
          text2 = ReplaceAll text1 [CHR 0x0D] [CHR 0x0A];
          text3 = ReplaceAllString ansiSequence text2 [];
          text4 = fold (\<lambda>pattern text. ReplaceAllString pattern text []) (cp_PagingPatterns (dr_profile d)) text3
      in Join (strip_lines d (Split text4 (CHR 0x0A))) [CHR 0x0A])"

definition Driver_Normalize :: "CLIDriver \<Rightarrow> go_error option \<Rightarrow> ConfigResult \<Rightarrow> go_error + ConfigResult" where
  "Driver_Normalize d ctx r =
     (case Normalize ctx (dr_processor d) (stripTranscriptArtifacts d (cr_RawConfig r)) of
        Inl e \<Rightarrow> Inl (BackupError FailureNormalization (Vendor d) e)
      | Inr out \<Rightarrow> Inr (r\<lparr>cr_RawConfig := out\<rparr>))"

definition Driver_Redact :: "CLIDriver \<Rightarrow> go_error option \<Rightarrow> ConfigResult \<Rightarrow> (go_error \<times> RedactionReport) + (RedactedConfig \<times> RedactionReport)" where
  "Driver_Redact d ctx r =
     (case Redact ctx (dr_processor d) (cr_RawConfig r) of
        Inl x \<Rightarrow> Inl x
      | Inr (out, report) \<Rightarrow> Inr (\<lparr>rc_TargetID = cr_TargetID r, rc_Content = out\<rparr>, report))"

section \<open>The registry\<close>

text \<open>A factory makes a new driver each time; as a driver is never changed,
  it is the driver. The map from names is an association list with distinct names.\<close>

definition Register :: "string \<Rightarrow> CLIDriver \<Rightarrow> (string \<times> CLIDriver) list \<Rightarrow> (string \<times> CLIDriver) list" where
  "Register name d reg = (name, d) # filter (\<lambda>(n, _). n \<noteq> name) reg"

definition Get :: "(string \<times> CLIDriver) list \<Rightarrow> string \<Rightarrow> go_error + CLIDriver" where
  "Get reg name =
     (case map_of reg name of
        None \<Rightarrow> Inl (Errorf ''driver %q not registered'' [name])
      | Some d \<Rightarrow> Inr d)"

definition List_drivers :: "(string \<times> CLIDriver) list \<Rightarrow> string list" where
  "List_drivers reg = sort_strings (map fst reg)"

definition RegisterDefaults :: "(string \<times> CLIDriver) list \<Rightarrow> (string \<times> CLIDriver) list" where
  "RegisterDefaults reg =
     Register ''zte_zxr10'' (NewCLIProfile zteZXR10Profile)
     (Register ''ericsson_ipos'' (NewCLIProfile ericssonIPOSProfile)
     (Register ''juniper_junos'' (NewCLIProfile juniperJunosProfile)
     (Register ''cisco_iosxr'' (NewCLIProfile ciscoIOSXRProfile)
     (Register ''huawei_vrp'' (NewCLIProfile huaweiVRPProfile)
     (Register ''cisco_iosxe'' (NewCLIProfile ciscoIOSXEProfile) reg)))))"

section \<open>Facts about the drivers\<close>

lemma wrapCommandError_backup: "\<exists>b. as_backup (wrapCommandError op e) = Some b"
  by (auto simp: wrapCommandError_def)

lemma dr_profile_NewCLIProfile [simp]: "dr_profile (NewCLIProfile p) = clone p"
  by (simp add: NewCLIProfile_def Let_def)

lemma clone_fields [simp]:
  "cp_Vendor (clone p) = cp_Vendor p" "cp_Prepare (clone p) = cp_Prepare p"
  "cp_FetchCommand (clone p) = cp_FetchCommand p" "cp_Markers (clone p) = cp_Markers p"
  "cp_PromptPatterns (clone p) = cp_PromptPatterns p" "cp_PagingPatterns (clone p) = cp_PagingPatterns p"
  by (simp_all add: clone_def)

lemma clone_MaxBytes: "cp_MaxBytes p \<noteq> 0 \<Longrightarrow> cp_MaxBytes (clone p) = cp_MaxBytes p"
  by (simp add: clone_def)

lemma first_marker_backup: "first_marker mks c out = Some e \<Longrightarrow> as_backup e \<noteq> None"
  by (induction mks c out rule: first_marker.induct) (auto simp: Let_def split: if_splits)

lemma first_marker_command:
  "first_marker mks c out = None \<longleftrightarrow> first_marker mks c' out = None"
  by (induction mks c out rule: first_marker.induct) (auto simp: Let_def)

lemma classifyOutput_backup: "classifyOutput d c out = Some e \<Longrightarrow> as_backup e \<noteq> None"
  by (auto simp: classifyOutput_def dest: first_marker_backup split: if_splits)

lemma prepare_commands_backup:
  "prepare_commands d run cmds s = (Some e, s') \<Longrightarrow> as_backup e \<noteq> None"
  by (induction d run cmds s rule: prepare_commands.induct)
     (auto simp: Let_def wrapCommandError_backup dest: classifyOutput_backup
       split: prod.splits option.splits if_splits)

text \<open>
  C37: every error a driver reports while preparing the session, fetching or normalizing
  carries its category, so a failed job gets the status of its own cause; a configuration
  that is returned came from a command without an error, matches no failure marker of the
  vendor and respects the size limit.
\<close>

theorem driver_errors_classified:
  "(case Prepare d run s of (Some e, s') \<Rightarrow> as_backup e \<noteq> None | _ \<Rightarrow> True)
   \<and> (case FetchConfig d start now t run s of
        (Inl e, s') \<Rightarrow> as_backup e \<noteq> None
      | (Inr r, s') \<Rightarrow> run s (cp_FetchCommand (dr_profile d)) = ((cr_RawConfig r, None), s')
           \<and> classifyOutput d (cp_FetchCommand (dr_profile d)) (cr_RawConfig r) = None
           \<and> (cp_MaxBytes (dr_profile d) > 0 \<longrightarrow> int (length (cr_RawConfig r)) \<le> cp_MaxBytes (dr_profile d))
           \<and> cr_TargetID r = t_ID t)
   \<and> (case Driver_Normalize d ctx r of Inl e \<Rightarrow> ClassifyError e = FailureNormalization | Inr r' \<Rightarrow> cr_TargetID r' = cr_TargetID r)"
proof (intro conjI)
  show "case Prepare d run s of (Some e, s') \<Rightarrow> as_backup e \<noteq> None | _ \<Rightarrow> True"
    by (auto simp: Prepare_def dest: prepare_commands_backup split: prod.splits option.splits)
  show "case FetchConfig d start now t run s of
        (Inl e, s') \<Rightarrow> as_backup e \<noteq> None
      | (Inr r, s') \<Rightarrow> run s (cp_FetchCommand (dr_profile d)) = ((cr_RawConfig r, None), s')
           \<and> classifyOutput d (cp_FetchCommand (dr_profile d)) (cr_RawConfig r) = None
           \<and> (cp_MaxBytes (dr_profile d) > 0 \<longrightarrow> int (length (cr_RawConfig r)) \<le> cp_MaxBytes (dr_profile d))
           \<and> cr_TargetID r = t_ID t"
    by (auto simp: FetchConfig_def Let_def wrapCommandError_backup dest: classifyOutput_backup
        split: prod.splits sum.splits option.splits if_splits)
  show "case Driver_Normalize d ctx r of Inl e \<Rightarrow> ClassifyError e = FailureNormalization | Inr r' \<Rightarrow> cr_TargetID r' = cr_TargetID r"
    by (auto simp: Driver_Normalize_def split: sum.splits)
qed

text \<open>A session that answers every command with the same output.\<close>

definition echo_session :: "string \<Rightarrow> unit Session" where
  "echo_session out = (\<lambda>s cmd. ((out, None), s))"

theorem driver_errors_classified_witness:
  "\<exists>e r. fst (FetchConfig (NewCLIProfile ciscoIOSXEProfile) 0 0 empty_target (echo_session ''% Invalid input'') ()) = Inl e
     \<and> as_backup e \<noteq> None
     \<and> fst (FetchConfig (NewCLIProfile ciscoIOSXEProfile) 0 0 empty_target (echo_session ''hostname r1'') ()) = Inr r
     \<and> int (length (cr_RawConfig r)) \<le> cp_MaxBytes (dr_profile (NewCLIProfile ciscoIOSXEProfile))"
proof -
  let ?d = "NewCLIProfile ciscoIOSXEProfile"
  have m: "cp_MaxBytes (dr_profile ?d) = 16 * 1024 * 1024"
    by (simp add: ciscoIOSXEProfile_def defaultMaxConfigBytes_def clone_def)
  have "first_marker (cp_Markers ciscoIOSXEProfile) [] ''% Invalid input'' \<noteq> None"
    unfolding ciscoIOSXEProfile_def commandProfile.simps by code_simp
  then have c1: "classifyOutput ?d c ''% Invalid input'' \<noteq> None" for c
    using first_marker_command [of _ c "''% Invalid input''" "[]"] by (simp add: classifyOutput_def)
  have "first_marker (cp_Markers ciscoIOSXEProfile) [] ''hostname r1'' = None"
    unfolding ciscoIOSXEProfile_def commandProfile.simps by code_simp
  then have c2: "classifyOutput ?d c ''hostname r1'' = None" for c
    using first_marker_command [of _ c "''hostname r1''" "[]"] by (simp add: classifyOutput_def)
  obtain e where e: "FetchConfig ?d 0 0 empty_target (echo_session ''% Invalid input'') () = (Inl e, ())"
    using c1 [of "cp_FetchCommand ciscoIOSXEProfile"]
    by (auto simp: FetchConfig_def echo_session_def Let_def)
  obtain r where r: "FetchConfig ?d 0 0 empty_target (echo_session ''hostname r1'') () = (Inr r, ())"
    using c2 m by (auto simp: FetchConfig_def echo_session_def Let_def)
  have "as_backup e \<noteq> None"
    using driver_errors_classified [where d = ?d and run = "echo_session ''% Invalid input''" and start = 0
        and now = 0 and t = empty_target and s = "()"] e by simp
  moreover have "int (length (cr_RawConfig r)) \<le> cp_MaxBytes (dr_profile ?d)"
    using driver_errors_classified [where d = ?d and run = "echo_session ''hostname r1''" and start = 0
        and now = 0 and t = empty_target and s = "()"] r m by simp
  ultimately show ?thesis using e r by auto
qed

text \<open>
  Junos and IPOS read any output line that contains the word timeout as a failure: a
  configuration with an idle timeout cannot be backed up.
\<close>

lemma junos_timeout_false_positive:
  "(case first_marker (cp_Markers juniperJunosProfile) ''show configuration'' ''idle-timeout 9'' of
      Some (BackupError cat op e) \<Rightarrow> cat = FailureTimeout | _ \<Rightarrow> False)"
  unfolding juniperJunosProfile_def commandProfile.simps by code_simp

section \<open>Facts about transcripts\<close>

lemma strip_lines_facts:
  "l \<in> set (strip_lines d ls) \<Longrightarrow> \<not> isPromptOrCommandEcho d l \<and> (\<exists>l'\<in>set ls. set l \<subseteq> set l')"
proof (induction ls)
  case (Cons line ls)
  have "set (TrimRight (ReplaceAll line [CHR 0x08] []) [CHR '' '', CHR 0x09]) \<subseteq> set line"
    using TrimRight_subset ReplaceAll_delete_subset by blast
  with Cons show ?case by (auto simp: Let_def split: if_splits)
qed simp

lemma fold_replace_subset: "set (fold (\<lambda>p text. ReplaceAllString p text []) ps s) \<subseteq> set s"
  by (induction ps arbitrary: s) (auto dest: ReplaceAllString_empty_chars [THEN subsetD])

text \<open> the text a driver normalizes has no transcript left in it: no line is a prompt, a
  command the driver sent or a prompt followed by one, and no carriage return remains.
\<close>

theorem stripTranscriptArtifacts_clean:
  assumes "line \<in> set (Split (stripTranscriptArtifacts d inp) (CHR 0x0A))"
  shows "\<not> isPromptOrCommandEcho d line \<and> CHR 0x0D \<notin> set line"
proof -
  define text2 where "text2 = ReplaceAll (ReplaceAll inp [CHR 0x0D, CHR 0x0A] [CHR 0x0A]) [CHR 0x0D] [CHR 0x0A]"
  define text4 where "text4 = fold (\<lambda>p text. ReplaceAllString p text []) (cp_PagingPatterns (dr_profile d))
      (ReplaceAllString ansiSequence text2 [])"
  have "CHR 0x0D \<notin> set text2" unfolding text2_def by (rule ReplaceAll_char_absent) simp
  then have cr: "CHR 0x0D \<notin> set text4"
    unfolding text4_def using fold_replace_subset ReplaceAllString_empty_chars by blast
  let ?ls = "strip_lines d (Split text4 (CHR 0x0A))"
  have l: "\<not> isPromptOrCommandEcho d l \<and> CHR 0x0D \<notin> set l \<and> CHR 0x0A \<notin> set l" if "l \<in> set ?ls" for l
  proof -
    from strip_lines_facts [OF that] obtain l' where "\<not> isPromptOrCommandEcho d l"
      "l' \<in> set (Split text4 (CHR 0x0A))" "set l \<subseteq> set l'" by blast
    then show ?thesis using cr Split_parts [of l' text4] set_Split_subset [of l' text4] by blast
  qed
  have "stripTranscriptArtifacts d inp = Join ?ls [CHR 0x0A]"
    by (simp add: stripTranscriptArtifacts_def Let_def text2_def text4_def)
  show ?thesis
  proof (cases "?ls = []")
    case True
    with assms \<open>stripTranscriptArtifacts d inp = _\<close> have "line = []" by simp
    then show ?thesis by (simp add: isPromptOrCommandEcho_def Let_def TrimSpace_eq_Nil)
  next
    case False
    then have "Split (Join ?ls [CHR 0x0A]) (CHR 0x0A) = ?ls" using l by (intro Split_Join) auto
    with assms \<open>stripTranscriptArtifacts d inp = _\<close> l show ?thesis by simp
  qed
qed

definition demo_driver :: CLIDriver where
  \<open>demo_driver =
    \<lparr>dr_profile = \<lparr>cp_Vendor = ''demo'', cp_Prepare = commands [''terminal length 0''],
       cp_FetchCommand = ''show run'', cp_PromptPatterns = regexps [''^[a-z0-9]+[#>]''],
       cp_PagingPatterns = [], cp_Markers = [], cp_NormalizeRules = [], cp_RedactionRules = [],
       cp_MaxBytes = 64\<rparr>,
     dr_processor = \<lparr>pr_StrictMode = True, pr_HMACKey = [], pr_NormalizeRules = [], pr_RedactionRules = []\<rparr>\<rparr>\<close>

theorem stripTranscriptArtifacts_clean_witness:
  "Split (stripTranscriptArtifacts demo_driver
      (''r1#show run'' @ [CHR 0x0D, CHR 0x0A] @ ''hostname r1'')) (CHR 0x0A) = [''hostname r1'']
   \<and> \<not> isPromptOrCommandEcho demo_driver ''hostname r1''"
proof -
  let ?d = "demo_driver"
  let ?t = "''r1#show run'' @ [CHR 0x0D, CHR 0x0A] @ ''hostname r1''"
  have s: "Split (stripTranscriptArtifacts ?d ?t) (CHR 0x0A) = [''hostname r1'']" by code_simp
  then have "''hostname r1'' \<in> set (Split (stripTranscriptArtifacts ?d ?t) (CHR 0x0A))" by simp
  from stripTranscriptArtifacts_clean [OF this] s show ?thesis by blast
qed

section \<open>The registered drivers\<close>

lemma mk_rule_template [simp]: "ru_Replacement (mk_rule n c p) = redact_template (ru_Category (mk_rule n c p))"
  by (simp add: mk_rule_def)

text \<open>A driver that checks what it redacts: strict, all of its redaction rules of the masking shape.\<close>

definition safe_rule :: "Rule \<Rightarrow> bool" where
  "safe_rule r = (secret_shape (ru_Pattern r) \<and> ru_Replacement r = redact_template (ru_Category r))"

definition safe_driver :: "CLIDriver \<Rightarrow> bool" where
  "safe_driver d = (pr_StrictMode (dr_processor d) \<and> list_all safe_rule (pr_RedactionRules (dr_processor d)))"

lemma safe_default_rules: "list_all safe_rule defaultRedactionRules"
  using defaultRedactionRules_shape by (simp add: defaultRedactionRules_def safe_rule_def)

lemma NewCLIProfile_safe: "list_all safe_rule (cp_RedactionRules p) \<Longrightarrow> safe_driver (NewCLIProfile p)"
  using safe_default_rules by (simp add: safe_driver_def NewCLIProfile_def Let_def NewProcessor_def)

lemma profile_rules_shape:
  "list_all (\<lambda>r. secret_shape (ru_Pattern r)) (cp_RedactionRules huaweiVRPProfile)"
  "list_all (\<lambda>r. secret_shape (ru_Pattern r)) (cp_RedactionRules ciscoIOSXRProfile)"
  "list_all (\<lambda>r. secret_shape (ru_Pattern r)) (cp_RedactionRules juniperJunosProfile)"
  "list_all (\<lambda>r. secret_shape (ru_Pattern r)) (cp_RedactionRules ericssonIPOSProfile)"
  unfolding huaweiVRPProfile_def ciscoIOSXRProfile_def juniperJunosProfile_def ericssonIPOSProfile_def
    commandProfile.simps by code_simp+

lemma profile_rules_safe:
  "list_all safe_rule (cp_RedactionRules huaweiVRPProfile)"
  "list_all safe_rule (cp_RedactionRules ciscoIOSXRProfile)"
  "list_all safe_rule (cp_RedactionRules juniperJunosProfile)"
  "list_all safe_rule (cp_RedactionRules ericssonIPOSProfile)"
  "list_all safe_rule (cp_RedactionRules ciscoIOSXEProfile)"
  "list_all safe_rule (cp_RedactionRules zteZXR10Profile)"
  using profile_rules_shape
  by (simp_all add: huaweiVRPProfile_def ciscoIOSXRProfile_def juniperJunosProfile_def
      ericssonIPOSProfile_def ciscoIOSXEProfile_def zteZXR10Profile_def rule_def safe_rule_def)

lemma map_of_filter_ne: "map_of (filter (\<lambda>(n, _). n \<noteq> name) reg) m = (if m = name then None else map_of reg m)"
  by (induction reg) auto

lemma Get_Register: "Get (Register name d reg) m = (if m = name then Inr d else Get reg m)"
  by (auto simp: Get_def Register_def map_of_filter_ne)

lemma registered_driver_facts:
  "case Get (RegisterDefaults []) name of
     Inl e \<Rightarrow> name \<notin> set (List_drivers (RegisterDefaults [])) \<and> e = Errorf ''driver %q not registered'' [name]
   | Inr d \<Rightarrow> name \<in> set (List_drivers (RegisterDefaults [])) \<and> Vendor d = name \<and> safe_driver d"
proof -
  have v: "Vendor (NewCLIProfile p) = cp_Vendor p" for p by (simp add: Vendor_def)
  have l: "set (List_drivers (RegisterDefaults []))
      = {''zte_zxr10'', ''ericsson_ipos'', ''juniper_junos'', ''cisco_iosxr'', ''huawei_vrp'', ''cisco_iosxe''}"
    by (simp add: List_drivers_def RegisterDefaults_def Register_def)
  have g: "Get [] name = Inl (Errorf ''driver %q not registered'' [name])" by (simp add: Get_def)
  have n: "cp_Vendor zteZXR10Profile = ''zte_zxr10''" "cp_Vendor ericssonIPOSProfile = ''ericsson_ipos''"
    "cp_Vendor juniperJunosProfile = ''juniper_junos''" "cp_Vendor ciscoIOSXRProfile = ''cisco_iosxr''"
    "cp_Vendor huaweiVRPProfile = ''huawei_vrp''" "cp_Vendor ciscoIOSXEProfile = ''cisco_iosxe''"
    by (simp_all add: huaweiVRPProfile_def ciscoIOSXRProfile_def juniperJunosProfile_def
        ericssonIPOSProfile_def ciscoIOSXEProfile_def zteZXR10Profile_def)
  show ?thesis
    unfolding l unfolding RegisterDefaults_def Get_Register g
    by (simp add: v n NewCLIProfile_safe profile_rules_safe)
qed

text \<open>
  Every vendor the program registers can be looked up, its driver answers with the
  vendor's name, works in strict mode and redacts only by rules that mask exactly a
  secret; looking up any other name after registering the defaults in an empty registry
  is an error, and the listing is the six names in order.
\<close>

theorem registered_drivers_safe:
  "case Get (RegisterDefaults []) name of
     Inl e \<Rightarrow> name \<notin> set (List_drivers (RegisterDefaults [])) \<and> e = Errorf ''driver %q not registered'' [name]
   | Inr d \<Rightarrow> name \<in> set (List_drivers (RegisterDefaults [])) \<and> Vendor d = name \<and> safe_driver d"
  by (rule registered_driver_facts)

text \<open>
  What a registered driver hands over for storage shows no secret: no line without a
  redaction marker has one of the secret words followed by a value, and the content
  belongs to the target it was fetched from.
\<close>

theorem registered_driver_redacts:
  assumes "Get (RegisterDefaults []) name = Inr d" "Driver_Redact d None r = Inr (cfg, rep)"
    and "line \<in> set (Split (rc_Content cfg) (CHR 0x0A))" "\<not> Contains line ''<redacted:''"
  shows "\<not> shows_secret line \<and> rc_TargetID cfg = cr_TargetID r"
proof -
  from assms(2) obtain out where out: "Redact None (dr_processor d) (cr_RawConfig r) = Inr (out, rep)"
    "cfg = \<lparr>rc_TargetID = cr_TargetID r, rc_Content = out\<rparr>"
    by (auto simp: Driver_Redact_def split: sum.splits)
  have "safe_driver d" using registered_driver_facts [of name] assms(1) by simp
  then have "pr_StrictMode (dr_processor d)" by (simp add: safe_driver_def)
  from strict_Redact_line [OF out(1) this] assms(3,4) out(2) show ?thesis by simp
qed

definition demo_config_result :: "string \<Rightarrow> ConfigResult" where
  "demo_config_result raw = \<lparr>cr_TargetID = ''r1'', cr_FetchedAt = 0, cr_RawConfig = raw,
     cr_Metadata = Map.empty, cr_DurationMS = 0\<rparr>"

theorem registered_driver_redacts_witness:
  "\<exists>d cfg rep. Get (RegisterDefaults []) ''zte_zxr10'' = Inr d
     \<and> Driver_Redact d None (demo_config_result ''ntp a'') = Inr (cfg, rep)
     \<and> rc_Content cfg = ''ntp a'' \<and> \<not> shows_secret ''ntp a''"
proof -
  let ?d = "NewCLIProfile zteZXR10Profile"
  have g: "Get (RegisterDefaults []) ''zte_zxr10'' = Inr ?d"
    by (simp add: RegisterDefaults_def Get_Register)
  have p: "Redact None (dr_processor ?d) ''ntp a'' = Redact None (NewProcessor True []) ''ntp a''"
    by (rule Redact_reads) (simp_all add: NewCLIProfile_def Let_def zteZXR10Profile_def)
  obtain rep where "Redact None (NewProcessor True []) ''ntp a'' = Inr (''ntp a'', rep)"
    using demo_redact by blast
  then obtain cfg where r: "Driver_Redact ?d None (demo_config_result ''ntp a'') = Inr (cfg, rep)"
    and c: "rc_Content cfg = ''ntp a''"
    by (simp add: Driver_Redact_def demo_config_result_def p)
  have "''ntp a'' \<in> set (Split (rc_Content cfg) (CHR 0x0A))" unfolding c by code_simp
  moreover have "\<not> Contains ''ntp a'' ''<redacted:''" by code_simp
  ultimately show ?thesis using registered_driver_redacts [OF g r] g r c by blast
qed

end
