(* ===== verification/Worker.thy ===== *)
theory Worker
  imports Drivers Diff Manager
begin

text \<open>
  The backup of one device, worker/backup.go. The services the runner is given (the
  metadata store, the storage, the credential provider, the two dialers, the notifier)
  are functions on one state of the outside world; the driver is the CLI driver of
  \<open>Drivers\<close>. The runner's calls are recorded in order. The clock is read from a stream
  and the error of the context is asked for each time the code looks at it.
\<close>

section \<open>The services and the world\<close>

type_synonym ('a, 's) service = "'s \<Rightarrow> 'a \<times> 's"

record 's BackupRunner =
  br_RecordJobStart :: "Job \<Rightarrow> (go_error + Job, 's) service"
  br_RecordJobFinish :: "JobResult \<Rightarrow> (go_error option, 's) service"
  br_SaveRevision :: "Revision \<Rightarrow> CommitMeta \<Rightarrow> (go_error option, 's) service"
  br_SaveDiff :: "DiffResult \<Rightarrow> (go_error option, 's) service"
  br_Audit :: "AuditEvent \<Rightarrow> (go_error option, 's) service"
  br_Latest :: "string \<Rightarrow> (RedactedConfig \<times> Revision, 's) service" \<comment> \<open>its error is dropped by the code\<close>
  br_Save :: "Target \<Rightarrow> RedactedConfig \<Rightarrow> CommitMeta \<Rightarrow> (go_error + Revision, 's) service"
  br_Resolve :: "string \<Rightarrow> (go_error + Credentials, 's) service"
  br_SSHDialer :: "(Target \<Rightarrow> Credentials \<Rightarrow> (go_error option, 's) service) option"
  br_TelnetDialer :: "(Target \<Rightarrow> Credentials \<Rightarrow> (go_error option, 's) service) option"
  br_Run :: "string \<Rightarrow> (string \<times> go_error option, 's) service" \<comment> \<open>on the session that was dialed\<close>
  br_Close :: "(unit, 's) service"
  br_Drivers :: "string \<Rightarrow> go_error + CLIDriver"
  br_Notifier :: "(Event \<Rightarrow> (go_error option, 's) service) option"
  br_CtxErr :: "(go_error option, 's) service"
  br_Now :: "nat \<Rightarrow> instant"

text \<open>The calls, each with what it was answered where the code looks at the answer.\<close>

datatype call =
    CRecordJobStart Job "go_error + Job"
  | CResolve string "go_error + Credentials"
  | CAudit AuditEvent
  | CDial bool Target "go_error option" \<comment> \<open>whether over Telnet\<close>
  | CRun string "string \<times> go_error option"
  | CClose
  | CLatest string "RedactedConfig \<times> Revision"
  | CSave Target RedactedConfig CommitMeta "go_error + Revision"
  | CSaveRevision Revision CommitMeta "go_error option"
  | CSaveDiff DiffResult "go_error option"
  | CFinish JobResult
  | CNotify Event

record 's world =
  w_state :: 's
  w_reads :: nat
  w_calls :: "call list"

text \<open>\<open>t.Sub(u)\<close>, which saturates.\<close>

definition time_sub :: "instant \<Rightarrow> instant \<Rightarrow> duration" where
  "time_sub t u = max (- (2 ^ 63)) (min (2 ^ 63 - 1) (t - u))"

definition perform :: "('a \<Rightarrow> call) \<Rightarrow> ('a, 's) service \<Rightarrow> 's world \<Rightarrow> 'a \<times> 's world" where
  "perform c f w = (let (x, s) = f (w_state w) in (x, w\<lparr>w_state := s, w_calls := w_calls w @ [c x]\<rparr>))"

definition time_now :: "'s BackupRunner \<Rightarrow> 's world \<Rightarrow> instant \<times> 's world" where
  "time_now r w = (br_Now r (w_reads w), w\<lparr>w_reads := Suc (w_reads w)\<rparr>)"

definition ctx_err :: "'s BackupRunner \<Rightarrow> 's world \<Rightarrow> go_error option \<times> 's world" where
  "ctx_err r w = (let (e, s) = br_CtxErr r (w_state w) in (e, w\<lparr>w_state := s\<rparr>))"

definition run_session :: "'s BackupRunner \<Rightarrow> 's world Session" where
  "run_session r w cmd = perform (CRun cmd) (br_Run r cmd) w"

section \<open>Handling a request\<close>

definition RulesetVersion :: string where
  "RulesetVersion = ''2026-06-23.1''"

definition audit_entry :: "instant \<Rightarrow> string \<Rightarrow> Request \<Rightarrow> string \<Rightarrow> string \<Rightarrow> (string \<rightharpoonup> string) \<Rightarrow> AuditEvent" where
  "audit_entry now action req jobID outcome metadata =
     \<lparr>ae_ID = [], ae_ActorType = ''system'', ae_ActorID = j_Actor (rq_Job req), ae_Action = action,
      ae_TargetID = t_ID (rq_Target req), ae_CredentialRef = t_CredentialRef (rq_Target req),
      ae_JobID = jobID, ae_RequestID = [], ae_SourceIP = [], ae_Outcome = outcome,
      ae_Metadata = metadata, ae_CreatedAt = now\<rparr>"

definition audit :: "'s BackupRunner \<Rightarrow> string \<Rightarrow> Request \<Rightarrow> string \<Rightarrow> string \<Rightarrow> (string \<rightharpoonup> string) \<Rightarrow> 's world \<Rightarrow> go_error option \<times> 's world" where
  "audit r action req jobID outcome metadata w =
     (let (now, w1) = time_now r w; ev = audit_entry now action req jobID outcome metadata
      in perform (\<lambda>_. CAudit ev) (br_Audit r ev) w1)"

text \<open>The closure \<open>fail\<close>: record the failure, audit it, return it.\<close>

definition fail :: "'s BackupRunner \<Rightarrow> Request \<Rightarrow> Job \<Rightarrow> instant \<Rightarrow> go_error \<Rightarrow> 's world \<Rightarrow> JobResult \<times> 's world" where
  "fail r req job start err w =
     (let status = StatusForFailure (ClassifyError err);
          (now, w1) = time_now r w;
          res = \<lparr>jr_JobID = j_ID job, jr_TargetID = t_ID (rq_Target req), jr_Status = status,
                 jr_Attempt = j_Attempt job, jr_Err = Some err, jr_ErrorText = error_text err,
                 jr_StartedAt = start, jr_FinishedAt = now, jr_Duration = time_sub now start,
                 jr_RevisionID = []\<rparr>;
          (_, w2) = perform (\<lambda>_. CFinish res) (br_RecordJobFinish r res) w1;
          (_, w3) = audit r ''backup_failed'' req (j_ID job) ''failure'' [''status'' \<mapsto> status_text status] w2
      in (res, w3))"

definition notify :: "'s BackupRunner \<Rightarrow> Request \<Rightarrow> EventType \<Rightarrow> string \<Rightarrow> DiffResult \<Rightarrow> 's world \<Rightarrow> 's world" where
  "notify r req ty msg diff w =
     (case br_Notifier r of
        None \<Rightarrow> w
      | Some f \<Rightarrow>
          (let (now, w1) = time_now r w;
               ev = \<lparr>ev_Type = ty, ev_TargetID = t_ID (rq_Target req), ev_Message = msg,
                     ev_Diff = d_UnifiedDiff diff, ev_Timestamp = now\<rparr>
           in snd (perform (\<lambda>_. CNotify ev) (f ev) w1)))"

text \<open>The end of a backup that was stored: the result, its audit entry and the notifications.\<close>

definition handle_complete :: "'s BackupRunner \<Rightarrow> Request \<Rightarrow> Job \<Rightarrow> instant \<Rightarrow> Revision \<Rightarrow> DiffResult \<Rightarrow> 's world \<Rightarrow> JobResult \<times> 's world" where
  "handle_complete r req job start rv diff w =
     (let status = (if r_Changed rv then StatusSuccessChanged else StatusSuccessNoChange);
          (now, w1) = time_now r w;
          res = \<lparr>jr_JobID = j_ID job, jr_TargetID = t_ID (rq_Target req), jr_Status = status,
                 jr_Attempt = j_Attempt job, jr_Err = None, jr_ErrorText = [],
                 jr_StartedAt = start, jr_FinishedAt = now, jr_Duration = time_sub now start,
                 jr_RevisionID = r_ID rv\<rparr>;
          (_, w2) = perform (\<lambda>_. CFinish res) (br_RecordJobFinish r res) w1;
          (_, w3) = audit r ''backup_complete'' req (j_ID job) ''success''
                      [''status'' \<mapsto> status_text status, ''revision'' \<mapsto> r_ID rv] w2;
          w4 = (if r_Changed rv
                then notify r req EventConfigChanged ''configuration changed'' diff w3 else w3);
          w5 = (if r_Changed rv \<and> d_Risk diff \<in> {RiskHigh, RiskCritical}
                then notify r req EventHighRiskDiffDetected ''high-risk configuration change detected'' diff w4
                else w4)
      in (res, w5))"

text \<open>The diff of a saved revision: against the previous one when there is one and something changed.\<close>

definition saved_diff :: "'s BackupRunner \<Rightarrow> Request \<Rightarrow> RedactedConfig \<Rightarrow> RedactedConfig \<times> Revision \<Rightarrow> Revision \<Rightarrow> 's world \<Rightarrow> (go_error + DiffResult) \<times> 's world" where
  "saved_diff r req redacted previous rv w =
     (if r_ID (snd previous) \<noteq> [] \<and> r_Changed rv
      then (let (ce, w1) = ctx_err r w
            in (UnifiedDiff ce (t_ID (rq_Target req)) (r_ID (snd previous)) (r_ID rv)
                  (rc_Content (fst previous)) (rc_Content redacted), w1))
      else (Inr \<lparr>d_TargetID = t_ID (rq_Target req), d_FromRevision = [], d_ToRevision = r_ID rv,
                 d_UnifiedDiff = [], d_AddedLines = 0, d_RemovedLines = 0, d_Risk = RiskLow,
                 d_Categories = {}, d_RuleHits = {}\<rparr>, w))"

text \<open>After the content was saved: the diff, and the records of the revision and the diff.\<close>

definition handle_saved :: "'s BackupRunner \<Rightarrow> Request \<Rightarrow> Job \<Rightarrow> instant \<Rightarrow> CommitMeta \<Rightarrow> RedactedConfig
    \<Rightarrow> RedactedConfig \<times> Revision \<Rightarrow> Revision \<Rightarrow> 's world \<Rightarrow> JobResult \<times> 's world" where
  "handle_saved r req job start meta redacted previous rv w =
     (let (diff, w1) = saved_diff r req redacted previous rv w
      in case diff of
           Inl e \<Rightarrow> fail r req job start (BackupError FailureStorage ''diff'' e) w1
         | Inr diff \<Rightarrow>
             (let meta' = meta\<lparr>cm_Risk := Some (d_Risk diff)\<rparr>;
                  (err, w2) = perform (CSaveRevision rv meta') (br_SaveRevision r rv meta') w1
              in case err of
                   Some e \<Rightarrow> fail r req job start (BackupError FailureStorage ''metadata revision'' e) w2
                 | None \<Rightarrow>
                     if r_Changed rv
                     then (let (err, w3) = perform (CSaveDiff diff) (br_SaveDiff r diff) w2
                           in case err of
                                Some e \<Rightarrow> fail r req job start (BackupError FailureStorage ''metadata diff'' e) w3
                              | None \<Rightarrow> handle_complete r req job start rv diff w3)
                     else handle_complete r req job start rv diff w2))"

text \<open>With the redacted content: the previous revision is read, then the content is saved.\<close>

definition handle_redacted :: "'s BackupRunner \<Rightarrow> Request \<Rightarrow> Job \<Rightarrow> instant \<Rightarrow> ConfigResult \<Rightarrow> RedactedConfig
    \<Rightarrow> RedactionReport \<Rightarrow> 's world \<Rightarrow> JobResult \<times> 's world" where
  "handle_redacted r req job start cfg redacted report w =
     (let t = rq_Target req;
          (previous, w1) = perform (CLatest (t_ID t)) (br_Latest r (t_ID t)) w;
          meta = \<lparr>cm_JobID = j_ID job, cm_Trigger = j_Trigger job, cm_Actor = j_Actor job,
                  cm_RulesetVersion = RulesetVersion, cm_RedactionReport = report, cm_Risk = None,
                  cm_DeviceMetadata = cr_Metadata cfg, cm_AdditionalTrails = Map.empty\<rparr>;
          (saved, w2) = perform (CSave t redacted meta) (br_Save r t redacted meta) w1
      in case saved of
           Inl e \<Rightarrow> fail r req job start (BackupError FailureStorage ''git save'' e) w2
         | Inr rv \<Rightarrow> handle_saved r req job start meta redacted previous rv w2)"

text \<open>With an open session: prepare, fetch, normalise, redact and save.\<close>

definition handle_session :: "'s BackupRunner \<Rightarrow> Request \<Rightarrow> Job \<Rightarrow> instant \<Rightarrow> CLIDriver \<Rightarrow> 's world \<Rightarrow> JobResult \<times> 's world" where
  "handle_session r req job start driver w =
     (let t = rq_Target req; (err, w1) = Prepare driver (run_session r) w
      in case err of
           Some e \<Rightarrow> fail r req job start e w1
         | None \<Rightarrow>
     (let (t0, w2) = time_now r w1; (t1, w3) = time_now r w2;
          (cfg, w4) = FetchConfig driver t0 t1 t (run_session r) w3
      in case cfg of
           Inl e \<Rightarrow> fail r req job start e w4
         | Inr cfg \<Rightarrow>
     (let (ce, w5) = ctx_err r w4
      in case Driver_Normalize driver ce cfg of
           Inl e \<Rightarrow> fail r req job start e w5
         | Inr normal \<Rightarrow>
     (let (ce, w6) = ctx_err r w5
      in case Driver_Redact driver ce normal of
           Inl (e, _) \<Rightarrow> fail r req job start e w6
         | Inr (redacted, report) \<Rightarrow>
     handle_redacted r req job start cfg redacted report w6))))"

definition uses_telnet :: "Target \<Rightarrow> bool" where
  "uses_telnet t = (t_TelnetEnabled t \<or> t_Metadata t ''transport'' = Some ''telnet'')"

text \<open>With the credentials: the driver, the dialer and the session, closed on every way out.\<close>

definition handle_dial :: "'s BackupRunner \<Rightarrow> Request \<Rightarrow> Job \<Rightarrow> instant \<Rightarrow> Credentials \<Rightarrow> 's world \<Rightarrow> JobResult \<times> 's world" where
  "handle_dial r req job start creds w =
     (let t = rq_Target req in
      case br_Drivers r (t_Vendor t) of
        Inl e \<Rightarrow> fail r req job start (BackupError FailureCommand ''driver lookup'' e) w
      | Inr driver \<Rightarrow>
          (case (if uses_telnet t then br_TelnetDialer r else br_SSHDialer r) of
             None \<Rightarrow> fail r req job start (BackupError FailureConnect ''transport'' (errors_New ''dialer not configured'')) w
           | Some dial \<Rightarrow>
               (let (err, w1) = perform (CDial (uses_telnet t) t) (dial t creds) w
                in case err of
                     Some e \<Rightarrow> fail r req job start e w1
                   | None \<Rightarrow>
                       (let (res, w2) = handle_session r req job start driver w1;
                            (_, w3) = perform (\<lambda>_. CClose) (br_Close r) w2
                        in (res, w3)))))"

definition Handle :: "'s BackupRunner \<Rightarrow> Request \<Rightarrow> 's world \<Rightarrow> JobResult \<times> 's world" where
  "Handle r req w =
     (let (start, w1) = time_now r w;
          (started, w2) = perform (CRecordJobStart (rq_Job req)) (br_RecordJobStart r (rq_Job req)) w1
      in case started of
           Inl e \<Rightarrow>
             (let (now, w3) = time_now r w2
              in (\<lparr>jr_JobID = j_ID (rq_Job req), jr_TargetID = t_ID (rq_Target req),
                   jr_Status = StatusFailedStorage, jr_Attempt = 0, jr_Err = Some e,
                   jr_ErrorText = error_text e, jr_StartedAt = start, jr_FinishedAt = now,
                   jr_Duration = 0, jr_RevisionID = []\<rparr>, w3))
         | Inr job \<Rightarrow>
             (let ref = t_CredentialRef (rq_Target req);
                  (creds, w3) = perform (CResolve ref) (br_Resolve r ref) w2
              in case creds of
                   Inl e \<Rightarrow>
                     (let (_, w4) = audit r ''credential_resolve'' req (j_ID job) ''failure'' Map.empty w3
                      in fail r req job start e w4)
                 | Inr creds \<Rightarrow>
                     (let (_, w4) = audit r ''credential_resolve'' req (j_ID job) ''success''
                            [''provider'' \<mapsto> c_Source creds, ''auth_type'' \<mapsto> c_AuthType creds] w3
                      in handle_dial r req job start creds w4)))"

section \<open>The calls of each stage\<close>

lemma calls_perform [simp]: "w_calls (snd (perform c f w)) = w_calls w @ [c (fst (perform c f w))]"
  by (simp add: perform_def case_prod_beta Let_def)

lemma calls_time_now [simp]: "w_calls (snd (time_now r w)) = w_calls w"
  by (simp add: time_now_def)

lemma calls_ctx_err [simp]: "w_calls (snd (ctx_err r w)) = w_calls w"
  by (simp add: ctx_err_def case_prod_beta Let_def)

text \<open>The kinds of events among the calls.\<close>

fun events :: "call list \<Rightarrow> EventType list" where
  "events [] = []"
| "events (CNotify ev # cs) = ev_Type ev # events cs"
| "events (_ # cs) = events cs"

lemma events_append [simp]: "events (cs @ ds) = events cs @ events ds"
  by (induction cs rule: events.induct) simp_all

text \<open>
  The calls that end a job that was started: the result is recorded and audited, and what
  follows are notifications, only of a changed configuration.
\<close>

definition finished :: "Request \<Rightarrow> Job \<Rightarrow> JobResult \<Rightarrow> call list \<Rightarrow> bool" where
  "finished req job res cs \<longleftrightarrow>
     jr_JobID res = j_ID job \<and> jr_TargetID res = t_ID (rq_Target req) \<and> jr_Attempt res = j_Attempt job
   \<and> (case jr_Err res of
        Some e \<Rightarrow> jr_Status res = StatusForFailure (ClassifyError e) \<and> jr_ErrorText res = error_text e
      | None \<Rightarrow> jr_Status res \<in> {StatusSuccessChanged, StatusSuccessNoChange})
   \<and> (\<exists>a told. cs = CFinish res # CAudit a # map CNotify told
        \<and> ae_JobID a = j_ID job \<and> ae_TargetID a = t_ID (rq_Target req)
        \<and> ae_Outcome a = (if jr_Err res = None then ''success'' else ''failure'')
        \<and> (\<forall>ev\<in>set told. ev_TargetID ev = t_ID (rq_Target req))
        \<and> (jr_Status res \<noteq> StatusSuccessChanged \<longrightarrow> told = []))"

lemma calls_audit [simp]:
  "w_calls (snd (audit r action req jid outcome md w)) =
     w_calls w @ [CAudit (audit_entry (fst (time_now r w)) action req jid outcome md)]"
  by (simp add: audit_def Let_def case_prod_beta)

lemma audit_entry_simps [simp]:
  "ae_JobID (audit_entry now action req jid outcome md) = jid"
  "ae_TargetID (audit_entry now action req jid outcome md) = t_ID (rq_Target req)"
  "ae_Outcome (audit_entry now action req jid outcome md) = outcome"
  by (simp_all add: audit_entry_def)

lemma fail_calls:
  assumes "fail r req job start e w = (res, w')"
  obtains cs where "w_calls w' = w_calls w @ cs" "finished req job res cs" "jr_Err res = Some e"
proof -
  obtain a where a: "w_calls w' = w_calls w @ [CFinish res, CAudit a]"
    "ae_JobID a = j_ID job" "ae_TargetID a = t_ID (rq_Target req)" "ae_Outcome a = ''failure''"
    using assms by (auto simp: fail_def Let_def case_prod_beta intro!: that)
  have r: "jr_JobID res = j_ID job" "jr_TargetID res = t_ID (rq_Target req)" "jr_Attempt res = j_Attempt job"
    "jr_Err res = Some e" "jr_Status res = StatusForFailure (ClassifyError e)" "jr_ErrorText res = error_text e"
    using assms by (auto simp: fail_def Let_def case_prod_beta)
  have "StatusForFailure (ClassifyError e) \<noteq> StatusSuccessChanged"
    using StatusForFailure_failed [of "ClassifyError e"] by auto
  then have "finished req job res [CFinish res, CAudit a]"
    using a r by (fastforce simp: finished_def intro: exI [of _ "[]"])
  with a(1) r(4) show ?thesis by (auto intro: that)
qed

lemma notify_calls:
  "w_calls (notify r req ty msg diff w) = w_calls w \<and> br_Notifier r = None
   \<or> (\<exists>ev. w_calls (notify r req ty msg diff w) = w_calls w @ [CNotify ev] \<and> br_Notifier r \<noteq> None
        \<and> ev_Type ev = ty \<and> ev_TargetID ev = t_ID (rq_Target req))"
  by (auto simp: notify_def Let_def case_prod_beta split: option.splits)

text \<open>What the notifier is told after a stored backup.\<close>

definition expected_events :: "'s BackupRunner \<Rightarrow> Revision \<Rightarrow> DiffResult \<Rightarrow> EventType list" where
  "expected_events r rv diff =
     (if br_Notifier r = None \<or> \<not> r_Changed rv then []
      else EventConfigChanged # (if d_Risk diff \<in> {RiskHigh, RiskCritical} then [EventHighRiskDiffDetected] else []))"

lemma notes_calls:
  "\<exists>told. w_calls (let w4 = (if r_Changed rv then notify r req EventConfigChanged m1 diff w else w)
       in if r_Changed rv \<and> d_Risk diff \<in> {RiskHigh, RiskCritical}
          then notify r req EventHighRiskDiffDetected m2 diff w4 else w4) = w_calls w @ map CNotify told
     \<and> (\<forall>ev\<in>set told. ev_TargetID ev = t_ID (rq_Target req))
     \<and> events (map CNotify told) = expected_events r rv diff"
proof (cases "r_Changed rv \<and> br_Notifier r \<noteq> None")
  case True
  then obtain e1 where e1: "w_calls (notify r req EventConfigChanged m1 diff w) = w_calls w @ [CNotify e1]"
    "ev_Type e1 = EventConfigChanged" "ev_TargetID e1 = t_ID (rq_Target req)"
    using notify_calls [of r req EventConfigChanged m1 diff w] by auto
  from True obtain e2 where e2: "w_calls (notify r req EventHighRiskDiffDetected m2 diff
        (notify r req EventConfigChanged m1 diff w)) = w_calls w @ [CNotify e1, CNotify e2]"
    "ev_Type e2 = EventHighRiskDiffDetected" "ev_TargetID e2 = t_ID (rq_Target req)"
    using notify_calls [of r req EventHighRiskDiffDetected m2 diff "notify r req EventConfigChanged m1 diff w"] e1(1)
    by auto
  show ?thesis
    using True e1 e2
    by (intro exI [of _ "e1 # (if d_Risk diff \<in> {RiskHigh, RiskCritical} then [e2] else [])"])
      (auto simp: expected_events_def Let_def)
next
  case False
  then show ?thesis
    by (intro exI [of _ "[]"]) (auto simp: expected_events_def Let_def notify_def)
qed

lemma handle_complete_calls:
  assumes "handle_complete r req job start rv diff w = (res, w')"
  obtains cs where "w_calls w' = w_calls w @ cs" "finished req job res cs" "jr_Err res = None"
    "jr_RevisionID res = r_ID rv" "events cs = expected_events r rv diff"
    "jr_Status res = (if r_Changed rv then StatusSuccessChanged else StatusSuccessNoChange)"
proof -
  obtain w3 a where w: "w' = (let w4 = (if r_Changed rv then notify r req EventConfigChanged ''configuration changed'' diff w3 else w3)
       in if r_Changed rv \<and> d_Risk diff \<in> {RiskHigh, RiskCritical}
          then notify r req EventHighRiskDiffDetected ''high-risk configuration change detected'' diff w4 else w4)"
    and w3: "w_calls w3 = w_calls w @ [CFinish res, CAudit a]"
    and a: "ae_JobID a = j_ID job" "ae_TargetID a = t_ID (rq_Target req)" "ae_Outcome a = ''success''"
    using assms by (auto simp: handle_complete_def Let_def case_prod_beta intro!: that)
  have r: "jr_JobID res = j_ID job" "jr_TargetID res = t_ID (rq_Target req)" "jr_Attempt res = j_Attempt job"
    "jr_Err res = None" "jr_RevisionID res = r_ID rv"
    "jr_Status res = (if r_Changed rv then StatusSuccessChanged else StatusSuccessNoChange)"
    using assms by (auto simp: handle_complete_def Let_def case_prod_beta)
  obtain told where n: "w_calls w' = w_calls w3 @ map CNotify told"
    "\<forall>ev\<in>set told. ev_TargetID ev = t_ID (rq_Target req)" "events (map CNotify told) = expected_events r rv diff"
    unfolding w using notes_calls [where r = r and rv = rv and req = req and diff = diff and w = w3] by blast
  have e: "told = []" if "events (map CNotify told) = []" using that by (cases told) auto
  let ?cs = "CFinish res # CAudit a # map CNotify told"
  have "finished req job res ?cs"
    unfolding finished_def using r a n(2,3) e by (auto simp: expected_events_def)
  then show ?thesis using that [of ?cs] n w3 r by simp
qed

text \<open>
  What a successful backup left behind: the revision and, if the configuration changed,
  its diff are recorded with the risk the diff has, and the notifier was told.
\<close>

definition recorded :: "'s BackupRunner \<Rightarrow> Request \<Rightarrow> Revision \<Rightarrow> CommitMeta \<Rightarrow> JobResult \<Rightarrow> call list \<Rightarrow> bool" where
  "recorded r req rv meta res cs \<longleftrightarrow>
     (\<exists>diff. CSaveRevision rv (meta\<lparr>cm_Risk := Some (d_Risk diff)\<rparr>) None \<in> set cs
        \<and> (r_Changed rv \<longrightarrow> CSaveDiff diff None \<in> set cs)
        \<and> d_TargetID diff = t_ID (rq_Target req) \<and> d_ToRevision diff = r_ID rv
        \<and> jr_RevisionID res = r_ID rv
        \<and> jr_Status res = (if r_Changed rv then StatusSuccessChanged else StatusSuccessNoChange)
        \<and> events cs = expected_events r rv diff)"

fun recording :: "call \<Rightarrow> bool" where
  "recording (CSaveRevision _ _ _) = True"
| "recording (CSaveDiff _ _) = True"
| "recording _ = False"

lemma UnifiedDiff_ids: "UnifiedDiff ce t f t' old new = Inr d \<Longrightarrow> d_TargetID d = t \<and> d_ToRevision d = t'"
  by (auto simp: UnifiedDiff_def Let_def case_prod_beta split: option.splits)

text \<open>A stage that makes some calls of its own and then ends the job.\<close>

definition ends :: "Request \<Rightarrow> Job \<Rightarrow> JobResult \<Rightarrow> (call \<Rightarrow> bool) \<Rightarrow> (call list \<Rightarrow> bool) \<Rightarrow> call list \<Rightarrow> bool" where
  "ends req job res P Q cs \<longleftrightarrow>
     (\<exists>mid tail. cs = mid @ tail \<and> (\<forall>c\<in>set mid. P c) \<and> finished req job res tail
        \<and> (jr_Err res = None \<longrightarrow> Q cs))"

lemma endsI:
  "\<forall>c\<in>set mid. P c \<Longrightarrow> finished req job res tail \<Longrightarrow> (jr_Err res = None \<Longrightarrow> Q (mid @ tail))
    \<Longrightarrow> ends req job res P Q (mid @ tail)"
  unfolding ends_def by (rule exI [of _ mid], rule exI [of _ tail]) simp

lemma endsE:
  assumes "ends req job res P Q cs"
  obtains mid tail where "cs = mid @ tail" "\<forall>c\<in>set mid. P c" "finished req job res tail"
    "jr_Err res = None \<longrightarrow> Q cs"
  using assms unfolding ends_def by (elim exE conjE) simp

lemma ends_fail:
  assumes "fail r req job start e w = (res, w')" "w_calls w = w0 @ mid" "\<forall>c\<in>set mid. P c"
  shows "\<exists>cs. w_calls w' = w0 @ cs \<and> ends req job res P Q cs"
  using fail_calls [OF assms(1)] assms(2,3) unfolding ends_def by (metis append.assoc option.distinct(1))

lemma ends_complete:
  assumes "handle_complete r req job start rv diff w = (res, w')" "w_calls w = w0 @ mid"
    and "\<forall>c\<in>set mid. recording c" "CSaveRevision rv (meta\<lparr>cm_Risk := Some (d_Risk diff)\<rparr>) None \<in> set mid"
    and "r_Changed rv \<longrightarrow> CSaveDiff diff None \<in> set mid"
    and "d_TargetID diff = t_ID (rq_Target req)" "d_ToRevision diff = r_ID rv"
  shows "\<exists>cs. w_calls w' = w0 @ cs \<and> ends req job res recording (recorded r req rv meta res) cs"
proof -
  obtain tail where t: "w_calls w' = w_calls w @ tail" "finished req job res tail" "jr_Err res = None"
    "jr_RevisionID res = r_ID rv" "events tail = expected_events r rv diff"
    "jr_Status res = (if r_Changed rv then StatusSuccessChanged else StatusSuccessNoChange)"
    using handle_complete_calls [OF assms(1)] by blast
  have e: "events mid = []" using assms(3) by (induction mid rule: events.induct) auto
  have "recorded r req rv meta res (mid @ tail)"
    unfolding recorded_def using assms(4-) t e by (intro exI [of _ diff]) auto
  with t(1,2) assms(2,3) show ?thesis
    unfolding ends_def by (intro exI [of _ "mid @ tail"]) auto
qed

lemma saved_diff_facts:
  assumes "saved_diff r req redacted previous rv w = (d, w1)"
  shows "w_calls w1 = w_calls w"
    "d = Inr diff \<Longrightarrow> d_TargetID diff = t_ID (rq_Target req) \<and> d_ToRevision diff = r_ID rv"
  using assms by (auto simp: saved_diff_def case_prod_beta Let_def UnifiedDiff_ids split: if_splits)

lemma perform_calls: "perform c f w = (x, w') \<Longrightarrow> w_calls w' = w_calls w @ [c x]"
  by (metis calls_perform fst_conv snd_conv)

lemma handle_saved_calls:
  assumes "handle_saved r req job start meta redacted previous rv w = (res, w')"
  shows "\<exists>cs. w_calls w' = w_calls w @ cs \<and> ends req job res recording (recorded r req rv meta res) cs"
proof -
  obtain d w1 where s: "saved_diff r req redacted previous rv w = (d, w1)" by fastforce
  note w1 = saved_diff_facts(1) [OF s]
  show ?thesis
  proof (cases d)
    case (Inl e)
    with assms have "fail r req job start (BackupError FailureStorage ''diff'' e) w1 = (res, w')"
      by (simp add: handle_saved_def s)
    from ends_fail [OF this, of "w_calls w" "[]"] w1 show ?thesis by simp
  next
    case (Inr diff)
    note d = saved_diff_facts(2) [OF s Inr]
    let ?meta = "meta\<lparr>cm_Risk := Some (d_Risk diff)\<rparr>"
    obtain e2 w2 where p2: "perform (CSaveRevision rv ?meta) (br_SaveRevision r rv ?meta) w1 = (e2, w2)" by fastforce
    obtain e3 w3 where p3: "perform (CSaveDiff diff) (br_SaveDiff r diff) w2 = (e3, w3)" by fastforce
    have c2: "w_calls w2 = w_calls w @ [CSaveRevision rv ?meta e2]"
      and c3: "w_calls w3 = w_calls w @ [CSaveRevision rv ?meta e2, CSaveDiff diff e3]"
      using perform_calls [OF p2] perform_calls [OF p3] w1 by simp_all
    from assms Inr consider
        e where "fail r req job start (BackupError FailureStorage ''metadata revision'' e) w2 = (res, w')"
      | e where "fail r req job start (BackupError FailureStorage ''metadata diff'' e) w3 = (res, w')"
      | "e2 = None" "e3 = None" "r_Changed rv" "handle_complete r req job start rv diff w3 = (res, w')"
      | "e2 = None" "\<not> r_Changed rv" "handle_complete r req job start rv diff w2 = (res, w')"
      by (auto simp: handle_saved_def s p2 p3 split: option.splits if_splits)
    then show ?thesis
    proof cases
      case 1 from ends_fail [OF 1 c2] show ?thesis by simp
    next
      case 2 from ends_fail [OF 2 c3] show ?thesis by simp
    next
      case 3 from ends_complete [OF 3(4) c3] d 3 show ?thesis by simp
    next
      case 4 from ends_complete [OF 4(3) c2] d 4 show ?thesis by simp
    qed
  qed
qed

fun is_run :: "call \<Rightarrow> bool" where
  "is_run (CRun _ _) = True"
| "is_run _ = False"

lemma run_session_calls: "run_session r w cmd = (x, w') \<Longrightarrow> \<exists>c. w_calls w' = w_calls w @ [c] \<and> is_run c"
  unfolding run_session_def by (drule perform_calls) auto

lemma prepare_calls:
  "prepare_commands d (run_session r) cmds w = (x, w') \<Longrightarrow> \<exists>cs. w_calls w' = w_calls w @ cs \<and> (\<forall>c\<in>set cs. is_run c)"
proof (induction cmds arbitrary: w)
  case (Cons cmd cmds)
  obtain out err w1 where s: "run_session r w (pc_Command cmd) = ((out, err), w1)" by (metis prod.exhaust)
  obtain c where c: "w_calls w1 = w_calls w @ [c]" "is_run c" using run_session_calls [OF s] by blast
  from Cons.prems s consider "w' = w1" | "prepare_commands d (run_session r) cmds w1 = (x, w')"
    by (auto split: option.splits if_splits)
  then show ?case
  proof cases
    case 1 with c show ?thesis by (intro exI [of _ "[c]"]) simp
  next
    case 2
    from Cons.IH [OF this] obtain cs where "w_calls w' = w_calls w1 @ cs" "\<forall>c\<in>set cs. is_run c" by blast
    with c show ?thesis by (intro exI [of _ "c # cs"]) simp
  qed
qed simp

lemma fetch_calls:
  assumes "FetchConfig d t0 t1 t (run_session r) w = (x, w')"
  shows "\<exists>c. w_calls w' = w_calls w @ [c] \<and> is_run c" "x = Inr cfg \<Longrightarrow> cr_TargetID cfg = t_ID t"
proof -
  obtain out err w1 where s: "run_session r w (cp_FetchCommand (dr_profile d)) = ((out, err), w1)" by (metis prod.exhaust)
  with assms have "w' = w1" by (simp add: FetchConfig_def Let_def)
  with run_session_calls [OF s] show "\<exists>c. w_calls w' = w_calls w @ [c] \<and> is_run c" by blast
  show "x = Inr cfg \<Longrightarrow> cr_TargetID cfg = t_ID t"
    using assms s by (auto simp: FetchConfig_def Let_def split: option.splits if_splits)
qed

text \<open>The calls made while the session is open; only redacted content of the target is saved.\<close>

definition session_call :: "CLIDriver \<Rightarrow> Request \<Rightarrow> call \<Rightarrow> bool" where
  "session_call driver req c \<longleftrightarrow>
     (case c of
        CSave t cfg meta _ \<Rightarrow>
          t = rq_Target req
          \<and> (\<exists>normal. Driver_Redact driver None normal = Inr (cfg, cm_RedactionReport meta) \<and> cr_TargetID normal = t_ID t)
      | CLatest tid _ \<Rightarrow> tid = t_ID (rq_Target req)
      | _ \<Rightarrow> is_run c \<or> recording c)"

definition stored :: "'s BackupRunner \<Rightarrow> Request \<Rightarrow> Job \<Rightarrow> JobResult \<Rightarrow> call list \<Rightarrow> bool" where
  "stored r req job res cs \<longleftrightarrow>
     (\<exists>cfg meta rv. CSave (rq_Target req) cfg meta (Inr rv) \<in> set cs \<and> cm_JobID meta = j_ID job
        \<and> recorded r req rv meta res cs)"

lemma is_run_session_call: "is_run c \<Longrightarrow> session_call d req c"
  by (cases c) (auto simp: session_call_def)

lemma recording_session_call: "recording c \<Longrightarrow> session_call d req c"
  by (cases c) (auto simp: session_call_def)

lemma session_call_events: "\<forall>c\<in>set cs. session_call d req c \<Longrightarrow> events cs = []"
  by (induction cs rule: events.induct) (auto simp: session_call_def)

lemma Driver_Normalize_target: "Driver_Normalize d ce cfg = Inr n \<Longrightarrow> cr_TargetID n = cr_TargetID cfg"
  by (auto simp: Driver_Normalize_def split: sum.splits)

lemma Driver_Redact_None: "Driver_Redact d ce n = Inr x \<Longrightarrow> ce = None"
  by (auto simp: Driver_Redact_def Redact_def split: sum.splits option.splits)

lemma handle_redacted_calls:
  assumes "handle_redacted r req job start cfg redacted report w = (res, w')" "w_calls w = w0 @ mid"
    and "\<forall>c\<in>set mid. session_call d req c"
    and "Driver_Redact d None normal = Inr (redacted, report)" "cr_TargetID normal = t_ID (rq_Target req)"
  shows "\<exists>cs. w_calls w' = w0 @ cs \<and> ends req job res (session_call d req) (stored r req job res) cs"
proof -
  let ?t = "rq_Target req"
  define meta where "meta = \<lparr>cm_JobID = j_ID job, cm_Trigger = j_Trigger job, cm_Actor = j_Actor job,
     cm_RulesetVersion = RulesetVersion, cm_RedactionReport = report, cm_Risk = None,
     cm_DeviceMetadata = cr_Metadata cfg, cm_AdditionalTrails = Map.empty\<rparr>"
  have meta: "cm_JobID meta = j_ID job" "cm_RedactionReport meta = report" by (simp_all add: meta_def)
  obtain previous w1 where p1: "perform (CLatest (t_ID ?t)) (br_Latest r (t_ID ?t)) w = (previous, w1)" by fastforce
  obtain saved w2 where p2: "perform (CSave ?t redacted meta) (br_Save r ?t redacted meta) w1 = (saved, w2)" by fastforce
  let ?mid = "mid @ [CLatest (t_ID ?t) previous, CSave ?t redacted meta saved]"
  have c2: "w_calls w2 = w0 @ ?mid" using perform_calls [OF p1] perform_calls [OF p2] assms(2) by simp
  have "session_call d req (CSave ?t redacted meta saved)" "session_call d req (CLatest (t_ID ?t) previous)"
    using assms(4,5) by (auto simp: session_call_def meta)
  then have s2: "\<forall>c\<in>set ?mid. session_call d req c" using assms(3) by simp
  note e2 = session_call_events [OF s2]
  show ?thesis
  proof (cases saved)
    case (Inl e)
    with assms(1) p1 p2 have "fail r req job start (BackupError FailureStorage ''git save'' e) w2 = (res, w')"
      by (simp add: handle_redacted_def Let_def meta_def)
    from ends_fail [OF this c2 s2] show ?thesis .
  next
    case (Inr rv)
    with assms(1) p1 p2 have "handle_saved r req job start meta redacted previous rv w2 = (res, w')"
      by (simp add: handle_redacted_def Let_def meta_def)
    from handle_saved_calls [OF this] obtain cs' where cs': "w_calls w' = w_calls w2 @ cs'"
      "ends req job res recording (recorded r req rv meta res) cs'" by (elim exE conjE)
    from cs'(2) obtain m tl where m: "cs' = m @ tl" "\<forall>c\<in>set m. recording c" "finished req job res tl"
      "jr_Err res = None \<longrightarrow> recorded r req rv meta res cs'" by (rule endsE)
    note cs = cs'(1) [unfolded m(1)] m(2,3) m(4) [unfolded m(1)]
    have "\<forall>c\<in>set (?mid @ m). session_call d req c" using s2 cs(2) recording_session_call by auto
    moreover have "stored r req job res ((?mid @ m) @ tl)" if "jr_Err res = None"
    proof -
      have "recorded r req rv meta res (m @ tl)" using cs(4) that by simp
      then have "recorded r req rv meta res (?mid @ m @ tl)"
        unfolding recorded_def using e2 by auto
      then show ?thesis unfolding stored_def Inr using meta(1) by auto
    qed
    ultimately have "ends req job res (session_call d req) (stored r req job res) ((?mid @ m) @ tl)"
      using cs(3) by (intro endsI)
    moreover have "w_calls w' = w0 @ ((?mid @ m) @ tl)" using cs(1) c2 by simp
    ultimately show ?thesis by (intro exI conjI)
  qed
qed

lemma handle_session_calls:
  assumes "handle_session r req job start d w = (res, w')"
  shows "\<exists>cs. w_calls w' = w_calls w @ cs \<and> ends req job res (session_call d req) (stored r req job res) cs"
proof -
  let ?t = "rq_Target req"
  obtain e1 w1 where p1: "Prepare d (run_session r) w = (e1, w1)" by fastforce
  then obtain cs1 where c1: "w_calls w1 = w_calls w @ cs1" "\<forall>c\<in>set cs1. is_run c"
    unfolding Prepare_def using prepare_calls by blast
  then have s1: "\<forall>c\<in>set cs1. session_call d req c" using is_run_session_call by blast
  obtain t0 w2 where p2: "time_now r w1 = (t0, w2)" by fastforce
  obtain t1 w3 where p3: "time_now r w2 = (t1, w3)" by fastforce
  obtain x w4 where p4: "FetchConfig d t0 t1 ?t (run_session r) w3 = (x, w4)" by fastforce
  obtain c where c: "w_calls w4 = w_calls w3 @ [c]" "is_run c" using fetch_calls(1) [OF p4] by blast
  have "w_calls w3 = w_calls w1" using p2 p3 by (metis calls_time_now snd_conv)
  with c c1 have c4: "w_calls w4 = w_calls w @ (cs1 @ [c])" by simp
  have s4: "\<forall>c\<in>set (cs1 @ [c]). session_call d req c" using s1 c(2) is_run_session_call by auto
  obtain ce5 w5 where p5: "ctx_err r w4 = (ce5, w5)" by fastforce
  obtain ce6 w6 where p6: "ctx_err r w5 = (ce6, w6)" by fastforce
  have c5: "w_calls w5 = w_calls w @ (cs1 @ [c])" and c6: "w_calls w6 = w_calls w @ (cs1 @ [c])"
    using p5 p6 c4 by (metis calls_ctx_err snd_conv)+
  show ?thesis
  proof (cases e1)
    case (Some e)
    with assms have "fail r req job start e w1 = (res, w')" by (simp add: handle_session_def p1)
    from ends_fail [OF this c1(1) s1] show ?thesis .
  next
    case None
    show ?thesis
    proof (cases x)
      case (Inl e)
      with assms None have "fail r req job start e w4 = (res, w')" by (simp add: handle_session_def p1 p2 p3 p4)
      from ends_fail [OF this c4 s4] show ?thesis .
    next
      case (Inr cfg)
      show ?thesis
      proof (cases "Driver_Normalize d ce5 cfg")
        case (Inl e)
        with assms None Inr have "fail r req job start e w5 = (res, w')"
          by (simp add: handle_session_def p1 p2 p3 p4 p5)
        from ends_fail [OF this c5 s4] show ?thesis .
      next
        case n: (Inr normal)
        show ?thesis
        proof (cases "Driver_Redact d ce6 normal")
          case (Inl ex)
          with assms None Inr n have "fail r req job start (fst ex) w6 = (res, w')"
            by (cases ex) (simp add: handle_session_def p1 p2 p3 p4 p5 p6)
          from ends_fail [OF this c6 s4] show ?thesis .
        next
          case red: (Inr rr)
          obtain redacted report where rr: "rr = (redacted, report)" by fastforce
          note ce = Driver_Redact_None [OF red]
          have "cr_TargetID normal = t_ID ?t"
            using fetch_calls(2) [OF p4] Inr Driver_Normalize_target [OF n] by simp
          moreover have "handle_redacted r req job start cfg redacted report w6 = (res, w')"
            using assms None Inr n red by (simp add: handle_session_def p1 p2 p3 p4 p5 p6 rr)
          moreover have "Driver_Redact d None normal = Inr (redacted, report)" using red ce rr by simp
          ultimately show ?thesis using handle_redacted_calls [OF _ c6 s4] by blast
        qed
      qed
    qed
  qed
qed

text \<open>From the driver lookup on: no session, or one that is closed at the very end.\<close>

definition dialed :: "'s BackupRunner \<Rightarrow> Request \<Rightarrow> Job \<Rightarrow> JobResult \<Rightarrow> call list \<Rightarrow> bool" where
  "dialed r req job res cs \<longleftrightarrow>
     (let t = rq_Target req in
      (\<exists>dial tail. cs = dial @ tail \<and> finished req job res tail \<and> jr_Err res \<noteq> None
         \<and> (dial = [] \<or> (\<exists>e. dial = [CDial (uses_telnet t) t (Some e)])))
    \<or> (\<exists>d body. cs = CDial (uses_telnet t) t None # body @ [CClose] \<and> br_Drivers r (t_Vendor t) = Inr d
         \<and> ends req job res (session_call d req) (stored r req job res) body))"

lemma handle_dial_calls:
  assumes "handle_dial r req job start creds w = (res, w')"
  shows "\<exists>cs. w_calls w' = w_calls w @ cs \<and> dialed r req job res cs"
proof -
  let ?t = "rq_Target req"
  have failed: "\<exists>cs. w_calls w' = w_calls w @ cs \<and> dialed r req job res cs"
    if f: "fail r req job start e w1 = (res, w')" and c: "w_calls w1 = w_calls w @ dial"
      and d: "dial = [] \<or> (\<exists>e. dial = [CDial (uses_telnet ?t) ?t (Some e)])" for e w1 dial
  proof -
    obtain tail where t: "w_calls w' = w_calls w1 @ tail" "finished req job res tail" "jr_Err res = Some e"
      using fail_calls [OF f] by blast
    then have "dialed r req job res (dial @ tail)" unfolding dialed_def Let_def using d by auto
    moreover have "w_calls w' = w_calls w @ dial @ tail" using t(1) c by simp
    ultimately show ?thesis by (intro exI conjI)
  qed
  show ?thesis
  proof (cases "br_Drivers r (t_Vendor ?t)")
    case (Inl e)
    with assms have "fail r req job start (BackupError FailureCommand ''driver lookup'' e) w = (res, w')"
      by (simp add: handle_dial_def)
    then show ?thesis by (rule failed [where dial = "[]"]) simp_all
  next
    case (Inr d)
    show ?thesis
    proof (cases "if uses_telnet ?t then br_TelnetDialer r else br_SSHDialer r")
      case None
      with assms Inr have "fail r req job start (BackupError FailureConnect ''transport'' (errors_New ''dialer not configured'')) w = (res, w')"
        by (simp add: handle_dial_def)
      then show ?thesis by (rule failed [where dial = "[]"]) simp_all
    next
      case (Some dial)
      obtain err w1 where p1: "perform (CDial (uses_telnet ?t) ?t) (dial ?t creds) w = (err, w1)" by fastforce
      note c1 = perform_calls [OF p1]
      show ?thesis
      proof (cases err)
        case e: (Some e)
        with assms Inr Some p1 have "fail r req job start e w1 = (res, w')" by (simp add: handle_dial_def)
        then show ?thesis by (rule failed [OF _ c1]) (simp add: e)
      next
        case None
        obtain res2 w2 where p2: "handle_session r req job start d w1 = (res2, w2)" by fastforce
        define w3 where "w3 = snd (perform (\<lambda>_. CClose) (br_Close r) w2)"
        then have p3: "perform (\<lambda>_. CClose) (br_Close r) w2 = ((), w3)" by (simp add: prod_eq_iff)
        have r: "res = res2" "w' = w3" using assms Inr Some None p1 p2 p3 by (simp_all add: handle_dial_def)
        from handle_session_calls [OF p2] obtain body where b: "w_calls w2 = w_calls w1 @ body"
          "ends req job res2 (session_call d req) (stored r req job res2) body" by (elim exE conjE)
        have "dialed r req job res (CDial (uses_telnet ?t) ?t None # body @ [CClose])"
          unfolding dialed_def Let_def using b(2) Inr r(1) by blast
        moreover have "w_calls w' = w_calls w @ CDial (uses_telnet ?t) ?t None # body @ [CClose]"
          using perform_calls [OF p3] b(1) c1 None r(2) by simp
        ultimately show ?thesis by (intro exI conjI)
      qed
    qed
  qed
qed

text \<open>All the calls of a request.\<close>

definition resolved :: "Request \<Rightarrow> Job \<Rightarrow> (go_error + Credentials) \<Rightarrow> call list \<Rightarrow> bool" where
  "resolved req job creds cs \<longleftrightarrow>
     (\<exists>a. cs = [CRecordJobStart (rq_Job req) (Inr job), CResolve (t_CredentialRef (rq_Target req)) creds, CAudit a]
        \<and> ae_Outcome a = (case creds of Inl _ \<Rightarrow> ''failure'' | Inr _ \<Rightarrow> ''success''))"

lemma Handle_calls:
  assumes "Handle r req w = (res, w')"
  obtains (not_started) e where "w_calls w' = w_calls w @ [CRecordJobStart (rq_Job req) (Inl e)]"
      "jr_Err res = Some e" "jr_Status res = StatusFailedStorage"
  | (no_credentials) job e ops tail where "w_calls w' = w_calls w @ ops @ tail" "resolved req job (Inl e) ops"
      "finished req job res tail" "jr_Err res = Some e"
  | (credentials) job creds ops cs where "w_calls w' = w_calls w @ ops @ cs" "resolved req job (Inr creds) ops"
      "dialed r req job res cs"
proof -
  let ?ref = "t_CredentialRef (rq_Target req)"
  obtain start w1 where p1: "time_now r w = (start, w1)" by fastforce
  obtain st w2 where p2: "perform (CRecordJobStart (rq_Job req)) (br_RecordJobStart r (rq_Job req)) w1 = (st, w2)" by fastforce
  have c2: "w_calls w2 = w_calls w @ [CRecordJobStart (rq_Job req) st]"
    using perform_calls [OF p2] p1 by (metis calls_time_now snd_conv)
  show ?thesis
  proof (cases st)
    case (Inl e)
    obtain now w3 where p3: "time_now r w2 = (now, w3)" by fastforce
    then have "w_calls w3 = w_calls w2" by (metis calls_time_now snd_conv)
    with assms p1 p2 p3 c2 Inl show ?thesis by (intro not_started) (auto simp: Handle_def)
  next
    case (Inr job)
    obtain cr w3 where p3: "perform (CResolve ?ref) (br_Resolve r ?ref) w2 = (cr, w3)" by fastforce
    note c3 = perform_calls [OF p3]
    show ?thesis
    proof (cases cr)
      case (Inl e)
      obtain u w4 where p4: "audit r ''credential_resolve'' req (j_ID job) ''failure'' Map.empty w3 = (u, w4)" by fastforce
      then obtain a where a: "w_calls w4 = w_calls w3 @ [CAudit a]" "ae_Outcome a = ''failure''"
        by (metis calls_audit audit_entry_simps(3) snd_conv)
      from assms p1 p2 Inr p3 Inl p4 have "fail r req job start e w4 = (res, w')" by (simp add: Handle_def Let_def)
      then obtain tail where t: "w_calls w' = w_calls w4 @ tail" "finished req job res tail" "jr_Err res = Some e"
        using fail_calls by blast
      have "resolved req job (Inl e) [CRecordJobStart (rq_Job req) (Inr job), CResolve ?ref (Inl e), CAudit a]"
        using a(2) by (simp add: resolved_def)
      moreover have "w_calls w' = w_calls w @ [CRecordJobStart (rq_Job req) (Inr job), CResolve ?ref (Inl e), CAudit a] @ tail"
        using t(1) a(1) c3 c2 Inl Inr by simp
      ultimately show ?thesis using no_credentials t(2,3) by blast
    next
      case c: (Inr creds)
      obtain u w4 where p4: "audit r ''credential_resolve'' req (j_ID job) ''success''
          [''provider'' \<mapsto> c_Source creds, ''auth_type'' \<mapsto> c_AuthType creds] w3 = (u, w4)" by fastforce
      then obtain a where a: "w_calls w4 = w_calls w3 @ [CAudit a]" "ae_Outcome a = ''success''"
        by (metis calls_audit audit_entry_simps(3) snd_conv)
      from assms p1 p2 Inr p3 c p4 have "handle_dial r req job start creds w4 = (res, w')" by (simp add: Handle_def Let_def)
      from handle_dial_calls [OF this] obtain cs where t: "w_calls w' = w_calls w4 @ cs" "dialed r req job res cs"
        by (elim exE conjE)
      have "resolved req job (Inr creds) [CRecordJobStart (rq_Job req) (Inr job), CResolve ?ref (Inr creds), CAudit a]"
        using a(2) by (simp add: resolved_def)
      moreover have "w_calls w' = w_calls w @ [CRecordJobStart (rq_Job req) (Inr job), CResolve ?ref (Inr creds), CAudit a] @ cs"
        using t(1) a(1) c3 c2 c Inr by simp
      ultimately show ?thesis using credentials t(2) by blast
    qed
  qed
qed

section \<open>What a backup guarantees\<close>

fun ending :: "call \<Rightarrow> bool" where
  "ending (CFinish _) = True"
| "ending (CNotify _) = True"
| "ending _ = False"

fun session_bound :: "call \<Rightarrow> bool" where
  "session_bound (CDial _ _ None) = True"
| "session_bound (CRun _ _) = True"
| "session_bound (CSave _ _ _ _) = True"
| "session_bound CClose = True"
| "session_bound _ = False"

lemma session_call_kinds:
  assumes "session_call d req c"
  shows "\<not> ending c" "c \<noteq> CClose" "c \<noteq> CDial tel t x"
  using assms by (cases c; simp add: session_call_def)+

lemma resolved_kinds: "resolved req job x ops \<Longrightarrow> c \<in> set ops \<Longrightarrow> \<not> ending c \<and> \<not> session_bound c"
  by (auto simp: resolved_def)


lemma finished_kinds: "finished req job res tail \<Longrightarrow> c \<in> set tail \<Longrightarrow> \<not> session_bound c"
  by (auto simp: finished_def)

lemma finished_opens:
  "finished req job res tail \<Longrightarrow> list_all (\<lambda>c. c \<noteq> CClose \<and> (\<forall>tel t x. c \<noteq> CDial tel t x)) tail"
  by (auto simp: finished_def list_all_iff)

lemma session_opens:
  assumes "\<forall>c\<in>set mid. session_call d req c"
  shows "list_all (\<lambda>c. c \<noteq> CClose \<and> (\<forall>tel t x. c \<noteq> CDial tel t x)) mid"
  unfolding list_all_iff
proof (intro ballI conjI allI)
  fix c tel t x assume "c \<in> set mid"
  with assms have s: "session_call d req c" by simp
  show "c \<noteq> CClose" "c \<noteq> CDial tel t x" using session_call_kinds(2,3) [OF s] by simp_all
qed

text \<open>Every started job is closed by exactly one record.\<close>

definition closes :: "Request \<Rightarrow> Job \<Rightarrow> JobResult \<Rightarrow> call list \<Rightarrow> bool" where
  "closes req job res cs \<longleftrightarrow>
     (\<exists>pre tail close. cs = pre @ tail @ close \<and> finished req job res tail
        \<and> list_all (\<lambda>c. \<not> ending c) pre \<and> (close = [] \<or> close = [CClose]))"

lemma closes_Cons: "closes req job res cs \<Longrightarrow> list_all (\<lambda>c. \<not> ending c) ds \<Longrightarrow> closes req job res (ds @ cs)"
proof -
  assume "closes req job res cs" and d: "list_all (\<lambda>c. \<not> ending c) ds"
  then obtain pre tail close where "cs = pre @ tail @ close" "finished req job res tail"
    "list_all (\<lambda>c. \<not> ending c) pre" "close = [] \<or> close = [CClose]" unfolding closes_def by auto
  with d show "closes req job res (ds @ cs)"
    unfolding closes_def by (intro exI [of _ "ds @ pre"] exI [of _ tail] exI [of _ close]) simp
qed

lemma closes_finished: "finished req job res tail \<Longrightarrow> closes req job res tail"
  unfolding closes_def by (rule exI [of _ "[]"], rule exI [of _ tail], rule exI [of _ "[]"]) simp

lemma dialedE:
  assumes "dialed r req job res cs"
  obtains (no_session) dial tail where "cs = dial @ tail" "finished req job res tail" "jr_Err res \<noteq> None"
      "list_all (\<lambda>c. \<not> ending c \<and> \<not> session_bound c) dial"
  | (session) d mid tail where
      "cs = CDial (uses_telnet (rq_Target req)) (rq_Target req) None # (mid @ tail) @ [CClose]"
      "br_Drivers r (t_Vendor (rq_Target req)) = Inr d" "\<forall>c\<in>set mid. session_call d req c"
      "finished req job res tail" "jr_Err res = None \<longrightarrow> stored r req job res (mid @ tail)"
proof -
  let ?t = "rq_Target req"
  have "(\<exists>dial tail. cs = dial @ tail \<and> finished req job res tail \<and> jr_Err res \<noteq> None
         \<and> (dial = [] \<or> (\<exists>e. dial = [CDial (uses_telnet ?t) ?t (Some e)])))
    \<or> (\<exists>d body. cs = CDial (uses_telnet ?t) ?t None # body @ [CClose] \<and> br_Drivers r (t_Vendor ?t) = Inr d
         \<and> ends req job res (session_call d req) (stored r req job res) body)"
    using assms unfolding dialed_def Let_def .
  then show ?thesis
  proof
    assume "\<exists>dial tail. cs = dial @ tail \<and> finished req job res tail \<and> jr_Err res \<noteq> None
         \<and> (dial = [] \<or> (\<exists>e. dial = [CDial (uses_telnet ?t) ?t (Some e)]))"
    then obtain dial tail where t: "cs = dial @ tail" "finished req job res tail" "jr_Err res \<noteq> None"
      and "dial = [] \<or> (\<exists>e. dial = [CDial (uses_telnet ?t) ?t (Some e)])" by (elim exE conjE) simp
    then have "list_all (\<lambda>c. \<not> ending c \<and> \<not> session_bound c) dial" by auto
    with t show ?thesis by (intro no_session)
  next
    assume "\<exists>d body. cs = CDial (uses_telnet ?t) ?t None # body @ [CClose] \<and> br_Drivers r (t_Vendor ?t) = Inr d
         \<and> ends req job res (session_call d req) (stored r req job res) body"
    then show ?thesis using session by (elim exE conjE endsE) simp
  qed
qed

lemma dialed_closes:
  assumes "dialed r req job res cs"
  shows "closes req job res cs"
  using assms
proof (cases rule: dialedE)
  case no_session
  then show ?thesis using closes_Cons [OF closes_finished] by (simp add: list_all_iff)
next
  case (session d mid tail)
  then show ?thesis
    unfolding closes_def using session_call_kinds(1)
    by (intro exI [of _ "CDial (uses_telnet (rq_Target req)) (rq_Target req) None # mid"] exI [of _ tail] exI [of _ "[CClose]"])
      (auto simp: list_all_iff)
qed

lemma Handle_closes:
  assumes "Handle r req w = (res, w')"
  shows "\<exists>cs. w_calls w' = w_calls w @ cs
     \<and> ((\<exists>e. cs = [CRecordJobStart (rq_Job req) (Inl e)] \<and> jr_Err res = Some e \<and> jr_Status res = StatusFailedStorage)
        \<or> (\<exists>job. CRecordJobStart (rq_Job req) (Inr job) = hd cs \<and> closes req job res cs))"
  using assms
proof (cases rule: Handle_calls)
  case not_started then show ?thesis by auto
next
  case (no_credentials job e ops tail)
  have "closes req job res (ops @ tail)"
    using closes_Cons [OF closes_finished [OF no_credentials(3)]] resolved_kinds [OF no_credentials(2)]
    by (auto simp: list_all_iff)
  then show ?thesis using no_credentials(1,2) by (intro exI [of _ "ops @ tail"]) (auto simp: resolved_def)
next
  case (credentials job creds ops cs)
  have "closes req job res (ops @ cs)"
    using closes_Cons [OF dialed_closes [OF credentials(3)]] resolved_kinds [OF credentials(2)]
    by (auto simp: list_all_iff)
  then show ?thesis using credentials(1,2) by (intro exI [of _ "ops @ cs"]) (auto simp: resolved_def)
qed

text \<open>
  C3: a job whose start was recorded is closed by exactly one record of the result that
  is returned, with the job's identifier and attempt and the status its error classifies
  to, and by one audit entry with the matching outcome; only notifications of a changed
  configuration and the closing of the session come after it. When the start could not
  be recorded, nothing else happens and the result is a storage failure.
\<close>

theorem Handle_one_record:
  assumes "Handle r req w = (res, w')"
  shows "\<exists>cs. w_calls w' = w_calls w @ cs
     \<and> ((\<exists>e. cs = [CRecordJobStart (rq_Job req) (Inl e)] \<and> jr_Err res = Some e \<and> jr_Status res = StatusFailedStorage)
        \<or> (\<exists>job. CRecordJobStart (rq_Job req) (Inr job) = hd cs \<and> closes req job res cs))"
  using assms by (rule Handle_closes)

lemma stored_mono:
  assumes "stored r req job res cs" "set cs \<subseteq> set ds" "events ds = events cs"
  shows "stored r req job res ds"
proof -
  from assms(1) obtain cfg meta rv diff where
    "CSave (rq_Target req) cfg meta (Inr rv) \<in> set cs" "cm_JobID meta = j_ID job"
    "CSaveRevision rv (meta\<lparr>cm_Risk := Some (d_Risk diff)\<rparr>) None \<in> set cs"
    "r_Changed rv \<longrightarrow> CSaveDiff diff None \<in> set cs"
    "d_TargetID diff = t_ID (rq_Target req)" "d_ToRevision diff = r_ID rv" "jr_RevisionID res = r_ID rv"
    "jr_Status res = (if r_Changed rv then StatusSuccessChanged else StatusSuccessNoChange)"
    "events cs = expected_events r rv diff"
    unfolding stored_def recorded_def by auto
  with assms(2,3) show ?thesis
    unfolding stored_def recorded_def
    by (intro exI [of _ cfg] exI [of _ meta] exI [of _ rv] exI [of _ diff] conjI) auto
qed

lemma Handle_stored:
  assumes "Handle r req w = (res, w')" "jr_Err res = None"
  shows "\<exists>job cs. w_calls w' = w_calls w @ cs \<and> hd cs = CRecordJobStart (rq_Job req) (Inr job)
     \<and> stored r req job res cs"
  using assms(1)
proof (cases rule: Handle_calls)
  case (credentials job creds ops cs)
  from credentials(3) assms(2) obtain d mid tail where b:
    "cs = CDial (uses_telnet (rq_Target req)) (rq_Target req) None # (mid @ tail) @ [CClose]"
    "stored r req job res (mid @ tail)" by (auto elim: dialedE)
  note b(2)
  moreover have "events ops = []" "hd (ops @ cs) = CRecordJobStart (rq_Job req) (Inr job)"
    using credentials(2) by (auto simp: resolved_def)
  ultimately have "stored r req job res (ops @ cs)" by (auto intro!: stored_mono [of r req job res "mid @ tail"] simp: b(1))
  with credentials(1) \<open>hd (ops @ cs) = _\<close> show ?thesis by blast
qed (use assms(2) in simp_all)

text \<open>
  C2: success means stored. A backup without an error had its content saved for the
  target under the job, the revision the storage returned was recorded with the risk of
  the diff, a changed configuration also has its diff recorded, the status says which it
  was, and the notifier hears of a change, and of a high risk, exactly then.
\<close>

theorem Handle_success_stored:
  assumes "Handle r req w = (res, w')" "jr_Err res = None"
  shows "\<exists>job cs. w_calls w' = w_calls w @ cs \<and> hd cs = CRecordJobStart (rq_Job req) (Inr job)
     \<and> stored r req job res cs"
  using assms by (rule Handle_stored)

lemma Handle_session:
  assumes "Handle r req w = (res, w')"
  shows "\<exists>cs. w_calls w' = w_calls w @ cs
     \<and> (list_all (\<lambda>c. \<not> session_bound c) cs
        \<or> (\<exists>pre body. cs = pre @ CDial (uses_telnet (rq_Target req)) (rq_Target req) None # body @ [CClose]
             \<and> list_all (\<lambda>c. \<not> session_bound c) pre
             \<and> list_all (\<lambda>c. c \<noteq> CClose \<and> (\<forall>tel t x. c \<noteq> CDial tel t x)) body))"
  using assms
proof (cases rule: Handle_calls)
  case not_started then show ?thesis by auto
next
  case (no_credentials job e ops tail)
  then have "list_all (\<lambda>c. \<not> session_bound c) (ops @ tail)"
    using resolved_kinds finished_kinds by (fastforce simp: list_all_iff)
  with no_credentials(1) show ?thesis by blast
next
  case (credentials job creds ops cs)
  have ops: "list_all (\<lambda>c. \<not> session_bound c) ops"
    using resolved_kinds [OF credentials(2)] by (auto simp: list_all_iff)
  from credentials(3) show ?thesis
  proof (cases rule: dialedE)
    case (no_session dial tail)
    then have "list_all (\<lambda>c. \<not> session_bound c) (ops @ cs)"
      using ops finished_kinds by (fastforce simp: list_all_iff)
    with credentials(1) show ?thesis by (intro exI [of _ "ops @ cs"]) simp
  next
    case (session d mid tail)
    have "list_all (\<lambda>c. c \<noteq> CClose \<and> (\<forall>tel t x. c \<noteq> CDial tel t x)) (mid @ tail)"
      using session_opens [OF session(3)] finished_opens [OF session(4)] by simp
    with ops credentials(1) session(1) show ?thesis
      by (intro exI [of _ "ops @ cs"] conjI disjI2 exI [of _ ops] exI [of _ "mid @ tail"]) auto
  qed
qed

text \<open>
  C4: at most one session is opened for a request, over the transport the target asks
  for; commands are only run and content is only saved while it is open, and it is closed
  on every way out, as the last call. When no session was opened none of this happens.
\<close>

theorem Handle_session_closed:
  assumes "Handle r req w = (res, w')"
  shows "\<exists>cs. w_calls w' = w_calls w @ cs
     \<and> (list_all (\<lambda>c. \<not> session_bound c) cs
        \<or> (\<exists>pre body. cs = pre @ CDial (uses_telnet (rq_Target req)) (rq_Target req) None # body @ [CClose]
             \<and> list_all (\<lambda>c. \<not> session_bound c) pre
             \<and> list_all (\<lambda>c. c \<noteq> CClose \<and> (\<forall>tel t x. c \<noteq> CDial tel t x)) body))"
  using assms by (rule Handle_session)




section \<open>A run\<close>

text \<open>A first backup of a device that answers every command with one line.\<close>

definition demo_runner :: "unit BackupRunner" where
  "demo_runner =
     \<lparr>br_RecordJobStart = (\<lambda>j s. (Inr j, s)), br_RecordJobFinish = (\<lambda>_ s. (None, s)),
      br_SaveRevision = (\<lambda>_ _ s. (None, s)), br_SaveDiff = (\<lambda>_ s. (None, s)), br_Audit = (\<lambda>_ s. (None, s)),
      br_Latest = (\<lambda>tid s. ((\<lparr>rc_TargetID = tid, rc_Content = []\<rparr>, empty_revision), s)),
      br_Save = (\<lambda>t cfg meta s. (Inr (empty_revision\<lparr>r_ID := ''c1'', r_Changed := True\<rparr>), s)),
      br_Resolve = (\<lambda>ref s. (Inr \<lparr>c_Username = ''u'', c_Password = NewSecretString ''p'',
                       c_PrivateKeyPEM = NewSecretBytes [], c_EnableSecret = NewSecretString [],
                       c_Source = ''demo'', c_AuthType = ''password''\<rparr>, s)),
      br_SSHDialer = Some (\<lambda>t creds s. (None, s)), br_TelnetDialer = None,
      br_Run = (\<lambda>cmd s. ((''ntp a'', None), s)), br_Close = (\<lambda>s. ((), s)),
      br_Drivers = (\<lambda>_. Inr demo_driver), br_Notifier = Some (\<lambda>ev s. (None, s)),
      br_CtxErr = (\<lambda>s. (None, s)), br_Now = int\<rparr>"

definition backup_world :: "unit world" where
  "backup_world = \<lparr>w_state = (), w_reads = 0, w_calls = []\<rparr>"

definition saves_text :: "string \<Rightarrow> call \<Rightarrow> bool" where
  "saves_text txt c = (case c of CSave t cfg meta x \<Rightarrow> rc_Content cfg = txt | _ \<Rightarrow> False)"

lemma saves_text_elim:
  "saves_text txt c \<Longrightarrow> \<exists>t cfg meta x. c = CSave t cfg meta x \<and> rc_Content cfg = txt"
  by (cases c) (simp_all add: saves_text_def)

lemma demo_backup:
  obtains res w' where "Handle demo_runner demo_request backup_world = (res, w')" "jr_Err res = None"
    "list_ex (saves_text (''ntp a'' @ [CHR 0x0A])) (w_calls w')" "events (w_calls w') = [EventConfigChanged]"
    "length (w_calls w') = 14" "w_calls backup_world = []"
proof -
  have n: "Normalize None (dr_processor demo_driver) (stripTranscriptArtifacts demo_driver ''ntp a'')
      = Inr (''ntp a'' @ [CHR 0x0A])" by code_simp
  have "(case Redact None (dr_processor demo_driver) (''ntp a'' @ [CHR 0x0A]) of
      Inl _ \<Rightarrow> False | Inr (out, rep) \<Rightarrow> out = ''ntp a'' @ [CHR 0x0A])" by code_simp
  then obtain rep where r: "Redact None (dr_processor demo_driver) (''ntp a'' @ [CHR 0x0A]) = Inr (''ntp a'' @ [CHR 0x0A], rep)"
    by (auto split: sum.splits)
  have p: "cp_Prepare (dr_profile demo_driver) = [\<lparr>pc_Command = ''terminal length 0'', pc_AllowFailure = False\<rparr>]"
    "cp_Markers (dr_profile demo_driver) = []" "cp_MaxBytes (dr_profile demo_driver) = 64"
    by (simp_all add: demo_driver_def commands_def)
  define out where "out = Handle demo_runner demo_request backup_world"
  have "jr_Err (fst out) = None \<and> list_ex (saves_text (''ntp a'' @ [CHR 0x0A])) (w_calls (snd out))
      \<and> events (w_calls (snd out)) = [EventConfigChanged] \<and> length (w_calls (snd out)) = 14"
    unfolding out_def
    by (simp add: Handle_def handle_dial_def handle_session_def handle_redacted_def handle_saved_def handle_complete_def
        saved_diff_def notify_def audit_def demo_runner_def demo_request_def backup_world_def perform_def time_now_def
        ctx_err_def run_session_def Prepare_def FetchConfig_def classifyOutput_def p Driver_Normalize_def
        Driver_Redact_def n [simplified] r [simplified] saves_text_def uses_telnet_def empty_target_def
        empty_revision_def Let_def)
  then show ?thesis using that unfolding out_def by (cases "Handle demo_runner demo_request backup_world") (simp add: backup_world_def)
qed

theorem Handle_one_record_witness:
  "\<exists>cs res. cs = w_calls (snd (Handle demo_runner demo_request backup_world)) \<and> cs \<noteq> []
     \<and> ((\<exists>e. cs = [CRecordJobStart (rq_Job demo_request) (Inl e)])
        \<or> (\<exists>job. CRecordJobStart (rq_Job demo_request) (Inr job) = hd cs \<and> closes demo_request job res cs))"
proof -
  obtain res w' where h: "Handle demo_runner demo_request backup_world = (res, w')" "length (w_calls w') = 14"
    "w_calls backup_world = []" by (rule demo_backup)
  have "w_calls w' \<noteq> []" using h(2) by auto
  with Handle_one_record [OF h(1)] h show ?thesis by auto
qed

theorem Handle_success_stored_witness:
  "\<exists>job res cs. cs = w_calls (snd (Handle demo_runner demo_request backup_world)) \<and> events cs = [EventConfigChanged]
     \<and> stored demo_runner demo_request job res cs"
proof -
  obtain res w' where h: "Handle demo_runner demo_request backup_world = (res, w')" "jr_Err res = None"
    "events (w_calls w') = [EventConfigChanged]" "w_calls backup_world = []" by (rule demo_backup)
  from Handle_success_stored [OF h(1,2)] h show ?thesis by auto
qed

theorem Handle_session_closed_witness:
  "let cs = w_calls (snd (Handle demo_runner demo_request backup_world))
   in list_ex (saves_text (''ntp a'' @ [CHR 0x0A])) cs \<and> last cs = CClose"
proof -
  obtain res w' where h: "Handle demo_runner demo_request backup_world = (res, w')"
    "list_ex (saves_text (''ntp a'' @ [CHR 0x0A])) (w_calls w')" "w_calls backup_world = []" by (rule demo_backup)
  from h(2) obtain t cfg meta x where "CSave t cfg meta x \<in> set (w_calls w')"
    by (auto simp: list_ex_iff dest!: saves_text_elim)
  then have "\<not> list_all (\<lambda>c. \<not> session_bound c) (w_calls w')"
    unfolding list_all_iff using session_bound.simps(3) by blast
  with Handle_session_closed [OF h(1)] h show ?thesis by auto
qed


end
