(* ===== verification/Configuration.thy ===== *)
theory Configuration
  imports Core_Types Complex_Main
begin

text \<open>
  The configuration of the program, config/config.go: its sections as records, the
  defaults, and the validation with the first check that fails. Reading the file and
  decoding the YAML text over the defaults is the work of a library and a parameter of
  \<open>Load\<close>; the environment is a function from names to values. The connection rate is a
  rational number, without the special values of a float.
\<close>

section \<open>The sections\<close>

record OIDCConfig =
  oi_Enabled :: bool
  oi_IssuerURL :: string
  oi_ClientID :: string
  oi_ClientSecretEnv :: string
  oi_RedirectURL :: string
  oi_Scopes :: "string list"
  oi_SessionTTL :: duration
  oi_CookieName :: string
  oi_RequireEmailVerified :: bool

record AuthConfig =
  au_APITokensEnabled :: bool
  au_BootstrapTokenEnv :: string
  au_OIDCEnabled :: bool
  au_OIDC :: OIDCConfig

record ServerConfig =
  sv_ListenAddress :: string
  sv_TLSEnabled :: bool
  sv_TLSCertFile :: string
  sv_TLSKeyFile :: string
  sv_Auth :: AuthConfig

record RetryConfig =
  rt_MaxAttempts :: int
  rt_BackoffInitial :: duration
  rt_BackoffMax :: duration

record LeaseConfig =
  le_Enabled :: bool
  le_WorkerID :: string
  le_TTL :: duration
  le_RenewInterval :: duration

record WindowConfig =
  wc_Name :: string
  wc_Days :: "string list"
  wc_Start :: string
  wc_End :: string
  wc_Timezone :: string
  wc_Groups :: "string list"
  wc_Sites :: "string list"
  wc_Vendors :: "string list"
  wc_Roles :: "string list"

record SchedulerConfig =
  sc_DefaultInterval :: duration
  sc_Cron :: string
  sc_Timezone :: string
  sc_JitterPercent :: int
  sc_JitterMax :: duration
  sc_MaxGlobalConcurrency :: int
  sc_MaxNewConnectionsPerSecond :: rat
  sc_MaxPerSiteConcurrency :: int
  sc_MaxPerVendorConcurrency :: int
  sc_MaxPerGroupConcurrency :: int
  sc_QueueSize :: int
  sc_Retry :: RetryConfig
  sc_Lease :: LeaseConfig
  sc_Windows :: "WindowConfig list"
  sc_Blackouts :: "WindowConfig list"

record InventorySource =
  is_Name :: string
  is_Type :: string
  is_Path :: string

record InventoryConfig =
  iv_RefreshInterval :: duration
  iv_Sources :: "InventorySource list"

record DotenvConfig =
  de_FilePath :: string
  de_RequireChmod600 :: bool

record EncryptedFileConfig =
  ef_Path :: string
  ef_KeyEnv :: string
  ef_NonceSize :: int

record ProviderConfig =
  pv_Type :: string

record CredentialsConfig =
  cc_DefaultProvider :: string
  cc_Dotenv :: DotenvConfig
  cc_EncryptedFile :: EncryptedFileConfig
  cc_Providers :: "string \<rightharpoonup> ProviderConfig"

record MetadataStorageConfig =
  ms_Type :: string
  ms_DSNEnv :: string
  ms_DSN :: string

record ConfigStorageConfig =
  cs_Type :: string
  cs_ShardStrategy :: ShardStrategy
  cs_ShardCount :: int
  cs_BasePath :: string
  cs_AuthorName :: string
  cs_AuthorEmail :: string

record StorageConfig =
  st_Metadata :: MetadataStorageConfig
  st_Config :: ConfigStorageConfig

record RedactionConfig =
  rd_Enabled :: bool
  rd_StrictMode :: bool
  rd_RawStorageEnabled :: bool
  rd_HMACKeyEnv :: string

record SSHConfig =
  ss_ConnectTimeout :: duration
  ss_AuthTimeout :: duration
  ss_CommandTimeout :: duration
  ss_IdleTimeout :: duration
  ss_SessionDeadline :: duration
  ss_InteractiveShell :: bool
  ss_PromptPattern :: string
  ss_MaxOutputBytes :: int
  ss_HostKeyMode :: string
  ss_KnownHostsPath :: string
  ss_TOFUPath :: string

record TelnetConfig =
  te_Enabled :: bool
  te_ConnectTimeout :: duration
  te_LoginTimeout :: duration
  te_CommandTimeout :: duration
  te_IdleTimeout :: duration
  te_PromptPattern :: string
  te_MaxOutputBytes :: int

record TransportConfig =
  tr_SSH :: SSHConfig
  tr_Telnet :: TelnetConfig

record RetentionConfig =
  re_Days :: int

record ObservabilityConfig =
  ob_MetricsEnabled :: bool
  ob_TracingEnabled :: bool
  ob_LogFormat :: string

record AppConfig =
  ac_Server :: ServerConfig
  ac_Scheduler :: SchedulerConfig
  ac_Inventory :: InventoryConfig
  ac_Credentials :: CredentialsConfig
  ac_Storage :: StorageConfig
  ac_Redaction :: RedactionConfig
  ac_Transport :: TransportConfig
  ac_Retention :: RetentionConfig
  ac_Observability :: ObservabilityConfig

definition OIDCActive :: "AuthConfig \<Rightarrow> bool" where
  "OIDCActive a \<longleftrightarrow> oi_Enabled (au_OIDC a) \<or> au_OIDCEnabled a"

section \<open>Defaults\<close>

text \<open>The prompt pattern of the source, its backslashes written as backquotes.\<close>

definition default_prompt :: string where
  "default_prompt =
     map (\<lambda>c. if c = CHR 0x60 then CHR 0x5C else c) ''(?m)(^|`n)[^`n]{1,96}[>#]`s*$''"

definition default_server :: ServerConfig where
  "default_server =
     \<lparr>sv_ListenAddress = ''127.0.0.1:8080'', sv_TLSEnabled = False, sv_TLSCertFile = [], sv_TLSKeyFile = [],
      sv_Auth = \<lparr>au_APITokensEnabled = True, au_BootstrapTokenEnv = ''GOXIDIZED_BOOTSTRAP_TOKEN'',
                 au_OIDCEnabled = False,
                 au_OIDC = \<lparr>oi_Enabled = False, oi_IssuerURL = [], oi_ClientID = [],
                            oi_ClientSecretEnv = ''GOXIDIZED_OIDC_CLIENT_SECRET'', oi_RedirectURL = [],
                            oi_Scopes = [''openid'', ''profile'', ''email''], oi_SessionTTL = 8 * Hour,
                            oi_CookieName = ''goxidized_session'', oi_RequireEmailVerified = True\<rparr>\<rparr>\<rparr>"

definition default_scheduler :: SchedulerConfig where
  "default_scheduler =
     \<lparr>sc_DefaultInterval = 24 * Hour, sc_Cron = [], sc_Timezone = ''UTC'', sc_JitterPercent = 20,
      sc_JitterMax = 0, sc_MaxGlobalConcurrency = 250, sc_MaxNewConnectionsPerSecond = 10,
      sc_MaxPerSiteConcurrency = 30, sc_MaxPerVendorConcurrency = 100, sc_MaxPerGroupConcurrency = 100,
      sc_QueueSize = 10000,
      sc_Retry = \<lparr>rt_MaxAttempts = 3, rt_BackoffInitial = 30 * Second, rt_BackoffMax = 30 * Minute\<rparr>,
      sc_Lease = \<lparr>le_Enabled = True, le_WorkerID = [], le_TTL = 15 * Minute, le_RenewInterval = 5 * Minute\<rparr>,
      sc_Windows = [], sc_Blackouts = []\<rparr>"

definition default_transport :: TransportConfig where
  "default_transport =
     \<lparr>tr_SSH = \<lparr>ss_ConnectTimeout = 20 * Second, ss_AuthTimeout = 20 * Second, ss_CommandTimeout = 60 * Second,
                ss_IdleTimeout = 30 * Second, ss_SessionDeadline = 3 * Minute, ss_InteractiveShell = True,
                ss_PromptPattern = default_prompt, ss_MaxOutputBytes = 16 * 2 ^ 20, ss_HostKeyMode = ''strict'',
                ss_KnownHostsPath = ''known_hosts'', ss_TOFUPath = ''known_hosts.tofu''\<rparr>,
      tr_Telnet = \<lparr>te_Enabled = False, te_ConnectTimeout = 20 * Second, te_LoginTimeout = 20 * Second,
                   te_CommandTimeout = 60 * Second, te_IdleTimeout = 30 * Second,
                   te_PromptPattern = default_prompt, te_MaxOutputBytes = 16 * 2 ^ 20\<rparr>\<rparr>"

definition Default :: AppConfig where
  "Default =
     \<lparr>ac_Server = default_server,
      ac_Scheduler = default_scheduler,
      ac_Inventory = \<lparr>iv_RefreshInterval = 5 * Minute,
                      iv_Sources = [\<lparr>is_Name = ''primary-csv'', is_Type = ''csv'', is_Path = ''devices.csv''\<rparr>]\<rparr>,
      ac_Credentials = \<lparr>cc_DefaultProvider = ''dotenv'',
                        cc_Dotenv = \<lparr>de_FilePath = ''.env'', de_RequireChmod600 = True\<rparr>,
                        cc_EncryptedFile = \<lparr>ef_Path = ''secrets.enc'', ef_KeyEnv = ''GOXIDIZED_KMS_KEY'', ef_NonceSize = 12\<rparr>,
                        cc_Providers = Map.empty\<rparr>,
      ac_Storage = \<lparr>st_Metadata = \<lparr>ms_Type = ''postgres'', ms_DSNEnv = ''GOXIDIZED_POSTGRES_DSN'', ms_DSN = []\<rparr>,
                    st_Config = \<lparr>cs_Type = ''git'', cs_ShardStrategy = ShardByRole, cs_ShardCount = 0,
                                 cs_BasePath = ''data/repos'', cs_AuthorName = ''GoXidized'',
                                 cs_AuthorEmail = ''goxidized@example.invalid''\<rparr>\<rparr>,
      ac_Redaction = \<lparr>rd_Enabled = True, rd_StrictMode = True, rd_RawStorageEnabled = False,
                      rd_HMACKeyEnv = ''GOXIDIZED_REDACTION_HMAC_KEY''\<rparr>,
      ac_Transport = default_transport,
      ac_Retention = \<lparr>re_Days = 365\<rparr>,
      ac_Observability = \<lparr>ob_MetricsEnabled = True, ob_TracingEnabled = False, ob_LogFormat = ''json''\<rparr>\<rparr>"

section \<open>Validation\<close>

fun contains :: "string list \<Rightarrow> string \<Rightarrow> bool" where
  "contains [] want = False"
| "contains (v # vs) want = (v = want \<or> contains vs want)"

definition ContainsAny :: "string \<Rightarrow> string \<Rightarrow> bool" where
  "ContainsAny s chars = list_ex (\<lambda>c. c \<in> set chars) s"

definition validate_oidc :: "OIDCConfig \<Rightarrow> go_error option" where
  "validate_oidc oidc =
     (if oi_IssuerURL oidc = [] then Some (errors_New ''server.auth.oidc.issuer_url is required when OIDC is enabled'')
      else if oi_ClientID oidc = [] then Some (errors_New ''server.auth.oidc.client_id is required when OIDC is enabled'')
      else if oi_ClientSecretEnv oidc = [] then Some (errors_New ''server.auth.oidc.client_secret_env is required when OIDC is enabled'')
      else if oi_RedirectURL oidc = [] then Some (errors_New ''server.auth.oidc.redirect_url is required when OIDC is enabled'')
      else if oi_SessionTTL oidc \<le> 0 then Some (errors_New ''server.auth.oidc.session_ttl must be > 0 when OIDC is enabled'')
      else if oi_CookieName oidc = [] \<or> ContainsAny (oi_CookieName oidc) ('' '' @ [CHR 0x09, CHR 0x0D, CHR 0x0A] @ '';'')
      then Some (errors_New ''server.auth.oidc.cookie_name must be a valid cookie name'')
      else if \<not> contains (oi_Scopes oidc) ''openid'' then Some (errors_New ''server.auth.oidc.scopes must include openid'')
      else None)"

fun validate_windows :: "WindowConfig list \<Rightarrow> go_error option" where
  "validate_windows [] = None"
| "validate_windows (w # ws) =
     (if wc_Start w = [] \<or> wc_End w = []
      then Some (Errorf ''scheduler window %q must include start and end'' [wc_Name w]) else validate_windows ws)"

fun validate_sources :: "InventorySource list \<Rightarrow> go_error option" where
  "validate_sources [] = None"
| "validate_sources (s # ss) =
     (if is_Type s = [] \<or> is_Path s = []
      then Some (Errorf ''inventory source %q must include type and path'' [is_Name s]) else validate_sources ss)"

definition validate_scheduler :: "SchedulerConfig \<Rightarrow> go_error option" where
  "validate_scheduler s =
     (if sc_MaxGlobalConcurrency s \<le> 0 then Some (errors_New ''scheduler.max_global_concurrency must be > 0'')
      else if sc_MaxNewConnectionsPerSecond s \<le> 0 then Some (errors_New ''scheduler.max_new_connections_per_second must be > 0'')
      else if sc_JitterPercent s < 0 \<or> sc_JitterPercent s > 100
      then Some (errors_New ''scheduler.jitter_percent must be between 0 and 100'')
      else if sc_Cron s = [] \<and> sc_DefaultInterval s \<le> 0
      then Some (errors_New ''scheduler.default_interval must be > 0 when scheduler.cron is empty'')
      else if le_Enabled (sc_Lease s) \<and> le_TTL (sc_Lease s) \<le> 0
      then Some (errors_New ''scheduler.lease.ttl must be > 0 when leases are enabled'')
      else if le_Enabled (sc_Lease s) \<and> le_RenewInterval (sc_Lease s) \<le> 0
      then Some (errors_New ''scheduler.lease.renew_interval must be > 0 when leases are enabled'')
      else validate_windows (sc_Windows s @ sc_Blackouts s))"

text \<open>The checks in the order of the code: the first error is the result.\<close>

fun first_error :: "go_error option list \<Rightarrow> go_error option" where
  "first_error [] = None"
| "first_error (Some e # es) = Some e"
| "first_error (None # es) = first_error es"

definition Validate :: "AppConfig \<Rightarrow> go_error option" where
  "Validate c =
     (let srv = ac_Server c; store = st_Config (ac_Storage c) in first_error
       [if sv_ListenAddress srv = [] then Some (errors_New ''server.listen_address is required'') else None,
        if sv_TLSEnabled srv \<and> (sv_TLSCertFile srv = [] \<or> sv_TLSKeyFile srv = [])
        then Some (errors_New ''server.tls_cert_file and server.tls_key_file are required when tls_enabled is true'') else None,
        if OIDCActive (sv_Auth srv) then validate_oidc (au_OIDC (sv_Auth srv)) else None,
        validate_scheduler (ac_Scheduler c),
        if iv_Sources (ac_Inventory c) = [] then Some (errors_New ''at least one inventory source is required'') else None,
        validate_sources (iv_Sources (ac_Inventory c)),
        if cs_Type store = [] \<or> cs_BasePath store = []
        then Some (errors_New ''storage.config.type and storage.config.base_path are required'') else None,
        if cs_ShardStrategy store = ShardByHash \<and> cs_ShardCount store \<le> 0
        then Some (errors_New ''storage.config.shard_count must be > 0 for hash sharding'') else None,
        if \<not> rd_Enabled (ac_Redaction c) \<and> rd_StrictMode (ac_Redaction c)
        then Some (errors_New ''redaction.strict_mode requires redaction.enabled'') else None])"

text \<open>\<open>read\<close> is \<open>os.ReadFile\<close>, \<open>unmarshal\<close> the YAML library: it decodes a text over a configuration.\<close>

definition Load :: "(string \<Rightarrow> go_error + string) \<Rightarrow> (string \<Rightarrow> AppConfig \<Rightarrow> go_error + AppConfig) \<Rightarrow> string \<Rightarrow> go_error + AppConfig" where
  "Load read unmarshal path =
     (let check = (\<lambda>cfg. case Validate cfg of None \<Rightarrow> Inr cfg | Some e \<Rightarrow> Inl e)
      in if path = [] then check Default
         else case read path of
                Inl e \<Rightarrow> Inl e
              | Inr data \<Rightarrow> (case unmarshal data Default of Inl e \<Rightarrow> Inl e | Inr cfg \<Rightarrow> check cfg))"

definition MetadataDSN :: "(string \<Rightarrow> string) \<Rightarrow> AppConfig \<Rightarrow> string" where
  "MetadataDSN getenv c =
     (let md = st_Metadata (ac_Storage c)
      in if ms_DSN md \<noteq> [] then ms_DSN md
         else if ms_DSNEnv md = [] then [] else getenv (ms_DSNEnv md))"

section \<open>What validation ensures\<close>

lemma first_error_None: "first_error es = None \<longleftrightarrow> (\<forall>e\<in>set es. e = None)"
  by (induction es rule: first_error.induct) auto

lemma contains_iff [simp]: "contains vs want \<longleftrightarrow> want \<in> set vs"
  by (induction vs) auto

lemma validate_windows_None: "validate_windows ws = None \<longleftrightarrow> (\<forall>w\<in>set ws. wc_Start w \<noteq> [] \<and> wc_End w \<noteq> [])"
  by (induction ws) auto

lemma validate_sources_None: "validate_sources ss = None \<longleftrightarrow> (\<forall>s\<in>set ss. is_Type s \<noteq> [] \<and> is_Path s \<noteq> [])"
  by (induction ss) auto

lemma Validate_scheduler_usable:
  assumes "Validate c = None"
  shows "sc_MaxGlobalConcurrency (ac_Scheduler c) > 0" "sc_MaxNewConnectionsPerSecond (ac_Scheduler c) > 0"
    "0 \<le> sc_JitterPercent (ac_Scheduler c)" "sc_JitterPercent (ac_Scheduler c) \<le> 100"
    "sc_Cron (ac_Scheduler c) \<noteq> [] \<or> sc_DefaultInterval (ac_Scheduler c) > 0"
    "le_Enabled (sc_Lease (ac_Scheduler c)) \<Longrightarrow> le_TTL (sc_Lease (ac_Scheduler c)) > 0 \<and> le_RenewInterval (sc_Lease (ac_Scheduler c)) > 0"
  using assms by (auto simp: Validate_def first_error_None Let_def validate_scheduler_def split: if_splits)

lemma Default_valid: "Validate Default = None"
  by (simp add: Validate_def Default_def default_server_def default_scheduler_def OIDCActive_def
      validate_scheduler_def Let_def)

end
