(* ===== verification/Go_Encoding.thy ===== *)
theory Go_Encoding
  imports Core_Types Go_Crypto
begin

text \<open>
  The scanner of lines of \<open>bufio\<close> and the decoders of \<open>encoding/hex\<close> and
  \<open>encoding/base64\<close> (the standard encoding), with the encoder of the latter for the
  round trips.
\<close>

section \<open>Lines\<close>

text \<open>\<open>bufio.Scanner\<close> with lines: the final empty line is dropped, and so is a carriage
  return at the end of a line; a line that does not fit its buffer is an error.\<close>

definition drop_cr :: "string \<Rightarrow> string" where
  "drop_cr l = (if l \<noteq> [] \<and> last l = CHR 0x0D then butlast l else l)"

definition scan_lines :: "string \<Rightarrow> go_error + string list" where
  "scan_lines text =
     (let ls = Split text (CHR 0x0A); ls1 = (if last ls = [] then butlast ls else ls)
      in if list_ex (\<lambda>l. int (length l) \<ge> 65536) ls1 then Inl (errors_New ''bufio.Scanner: token too long'')
         else Inr (map drop_cr ls1))"

section \<open>Hexadecimal\<close>

definition hex_val :: "char \<Rightarrow> nat option" where
  "hex_val c =
     (let n = code c in
      if 48 \<le> n \<and> n \<le> 57 then Some (n - 48)
      else if 97 \<le> n \<and> n \<le> 102 then Some (n - 87)
      else if 65 \<le> n \<and> n \<le> 70 then Some (n - 55) else None)"

fun hex_DecodeString :: "string \<Rightarrow> string option" where
  "hex_DecodeString [] = Some []"
| "hex_DecodeString [c] = None"
| "hex_DecodeString (a # b # s) =
     (case (hex_val a, hex_val b, hex_DecodeString s) of
        (Some x, Some y, Some r) \<Rightarrow> Some (char_of (16 * x + y) # r)
      | _ \<Rightarrow> None)"

section \<open>Base 64\<close>

definition b64_digit :: "nat \<Rightarrow> char" where
  "b64_digit n = char_of (if n < 26 then n + 65 else if n < 52 then n + 71 else if n < 62 then n - 4
                          else if n = 62 then 43 else 47)"

definition b64_val :: "char \<Rightarrow> nat option" where
  "b64_val c =
     (let n = code c in
      if 65 \<le> n \<and> n \<le> 90 then Some (n - 65)
      else if 97 \<le> n \<and> n \<le> 122 then Some (n - 71)
      else if 48 \<le> n \<and> n \<le> 57 then Some (n + 4)
      else if n = 43 then Some 62 else if n = 47 then Some 63 else None)"

fun b64_EncodeToString :: "string \<Rightarrow> string" where
  "b64_EncodeToString [] = []"
| "b64_EncodeToString [a] = [b64_digit (code a div 4), b64_digit (code a mod 4 * 16), CHR ''='', CHR ''='']"
| "b64_EncodeToString [a, b] =
     [b64_digit (code a div 4), b64_digit (code a mod 4 * 16 + code b div 16), b64_digit (code b mod 16 * 4), CHR ''='']"
| "b64_EncodeToString (a # b # c # s) =
     b64_digit (code a div 4) # b64_digit (code a mod 4 * 16 + code b div 16)
     # b64_digit (code b mod 16 * 4 + code c div 64) # b64_digit (code c mod 64) # b64_EncodeToString s"

text \<open>
  Quanta of four digits after line breaks were dropped; padding only in the last quantum,
  and the bits it leaves over are ignored, as the decoder that is not strict does.
\<close>

fun b64_quanta :: "string \<Rightarrow> string option" where
  "b64_quanta [] = Some []"
| "b64_quanta (a # b # c # d # s) =
     (case (b64_val a, b64_val b) of
        (Some w, Some x) \<Rightarrow>
          (if c = CHR ''='' then
             (if d = CHR ''='' \<and> s = [] then Some [char_of (w * 4 + x div 16)] else None)
           else
             (case b64_val c of
                None \<Rightarrow> None
              | Some y \<Rightarrow>
                  (if d = CHR ''='' then
                     (if s = [] then Some [char_of (w * 4 + x div 16), char_of (x mod 16 * 16 + y div 4)] else None)
                   else
                     (case (b64_val d, b64_quanta s) of
                        (Some z, Some r) \<Rightarrow>
                          Some (char_of (w * 4 + x div 16) # char_of (x mod 16 * 16 + y div 4) # char_of (y mod 4 * 64 + z) # r)
                      | _ \<Rightarrow> None))))
      | _ \<Rightarrow> None)"
| "b64_quanta s = None"

definition b64_DecodeString :: "string \<Rightarrow> string option" where
  "b64_DecodeString s = b64_quanta (filter (\<lambda>c. c \<noteq> CHR 0x0A \<and> c \<noteq> CHR 0x0D) s)"

section \<open>Round trips\<close>

lemma hex_val_digit [simp]: "n < 16 \<Longrightarrow> hex_val (hex_digit n) = Some n"
  by (auto simp: hex_val_def hex_digit_def Let_def)

lemma char_of_code [simp]: "char_of (code c) = c"
  by (simp add: code_def)

lemma hex_Decode_Encode [simp, go_string]: "hex_DecodeString (EncodeToString bs) = Some bs"
proof (induction bs)
  case (Cons c bs)
  have "code c div 16 < 16" using code_less_256 [of c] by linarith
  with Cons show ?case by (simp add: EncodeToString_def)
qed (simp add: EncodeToString_def)

lemma hex_Decode_Some:
  "hex_DecodeString s = Some r \<Longrightarrow> length s = 2 * length r \<and> (\<forall>c\<in>set s. hex_val c \<noteq> None)"
  by (induction s arbitrary: r rule: hex_DecodeString.induct) (auto split: option.splits)

lemma b64_digit_facts:
  assumes "n < 64"
  shows "b64_val (b64_digit n) = Some n" "b64_digit n \<noteq> CHR ''=''" "b64_digit n \<noteq> CHR 0x0A" "b64_digit n \<noteq> CHR 0x0D"
proof -
  have c: "code (b64_digit n) = (if n < 26 then n + 65 else if n < 52 then n + 71 else if n < 62 then n - 4
      else if n = 62 then 43 else 47)" using assms by (simp add: b64_digit_def)
  show "b64_val (b64_digit n) = Some n" using assms by (simp add: b64_val_def c Let_def) linarith
  have k: "code (CHR ''='') = 61" "code (CHR 0x0A) = 10" "code (CHR 0x0D) = 13" by (simp_all add: code_def)
  show "b64_digit n \<noteq> CHR ''=''" "b64_digit n \<noteq> CHR 0x0A" "b64_digit n \<noteq> CHR 0x0D"
    using c k by (auto split: if_splits)
qed

lemma sextets:
  fixes a b c :: nat
  assumes "a < 256" "b < 256" "c < 256"
  shows "a div 4 < 64" "a mod 4 * 16 < 64" "a mod 4 * 16 + b div 16 < 64" "b mod 16 * 4 < 64"
    "b mod 16 * 4 + c div 64 < 64" "c mod 64 < 64"
    "a div 4 * 4 + (a mod 4 * 16 + b div 16) div 16 = a" "a div 4 * 4 + a mod 4 * 16 div 16 = a"
    "(a mod 4 * 16 + b div 16) mod 16 * 16 + b mod 16 * 4 div 4 = b"
    "(a mod 4 * 16 + b div 16) mod 16 * 16 + (b mod 16 * 4 + c div 64) div 4 = b"
    "(b mod 16 * 4 + c div 64) mod 4 * 64 + c mod 64 = c"
proof -
  have b: "b div 16 < 16" "c div 64 < 4" "a mod 4 \<le> 3" "b mod 16 \<le> 15" using assms by auto
  show "a div 4 < 64" "a mod 4 * 16 < 64" "a mod 4 * 16 + b div 16 < 64" "b mod 16 * 4 < 64"
    "b mod 16 * 4 + c div 64 < 64" "c mod 64 < 64" using assms b by linarith+
  have d: "(a mod 4 * 16 + b div 16) div 16 = a mod 4" "(a mod 4 * 16 + b div 16) mod 16 = b div 16"
    "(b mod 16 * 4 + c div 64) div 4 = b mod 16" "(b mod 16 * 4 + c div 64) mod 4 = c div 64"
    using b by simp_all
  show "a div 4 * 4 + (a mod 4 * 16 + b div 16) div 16 = a" "a div 4 * 4 + a mod 4 * 16 div 16 = a"
    "(a mod 4 * 16 + b div 16) mod 16 * 16 + b mod 16 * 4 div 4 = b"
    "(a mod 4 * 16 + b div 16) mod 16 * 16 + (b mod 16 * 4 + c div 64) div 4 = b"
    "(b mod 16 * 4 + c div 64) mod 4 * 64 + c mod 64 = c"
    unfolding d by simp_all
qed

lemma b64_quanta_Encode: "b64_quanta (b64_EncodeToString bs) = Some bs"
proof (induction bs rule: b64_EncodeToString.induct)
  case (2 a)
  then show ?case using sextets [of "code a" 0 0] by (simp add: b64_digit_facts)
next
  case (3 a b)
  then show ?case using sextets [of "code a" "code b" 0] by (simp add: b64_digit_facts)
next
  case (4 a b c s)
  have "code b div 16 < 16" using code_less_256 [of b] by linarith
  with 4 show ?case using sextets [of "code a" "code b" "code c"] by (simp add: b64_digit_facts)
qed simp

lemma b64_Encode_no_breaks:
  "c \<in> set (b64_EncodeToString bs) \<Longrightarrow> c \<noteq> CHR 0x0A \<and> c \<noteq> CHR 0x0D"
proof (induction bs rule: b64_EncodeToString.induct)
  case (2 a)
  then show ?case using sextets [of "code a" 0 0] by (auto simp: b64_digit_facts)
next
  case (3 a b)
  then show ?case using sextets [of "code a" "code b" 0] by (auto simp: b64_digit_facts)
next
  case (4 a b c s)
  then show ?case using sextets [of "code a" "code b" "code c"] by (auto simp: b64_digit_facts)
qed simp

lemma b64_Decode_Encode [simp, go_string]: "b64_DecodeString (b64_EncodeToString bs) = Some bs"
proof -
  have "filter (\<lambda>c. c \<noteq> CHR 0x0A \<and> c \<noteq> CHR 0x0D) (b64_EncodeToString bs) = b64_EncodeToString bs"
    using b64_Encode_no_breaks by (auto intro: filter_True)
  then show ?thesis by (simp add: b64_DecodeString_def b64_quanta_Encode)
qed

lemma b64_quanta_Cons:
  assumes "b64_quanta (a # b # c # d # s) = Some r"
  shows "length r \<le> 2 \<or> (\<exists>x y z r'. b64_quanta s = Some r' \<and> r = x # y # z # r')"
proof -
  obtain w x where "b64_val a = Some w" "b64_val b = Some x"
    using assms by (cases "b64_val a"; cases "b64_val b") auto
  then show ?thesis using assms
    by (cases "c = CHR ''=''"; cases "d = CHR ''=''") (auto split: if_splits option.splits)
qed

lemma b64_quanta_length: "b64_quanta s = Some r \<Longrightarrow> 4 * length r \<le> 3 * length s"
proof (induction "length s" arbitrary: s r rule: less_induct)
  case less
  show ?case
  proof (cases s rule: b64_quanta.cases)
    case (2 a b c d s')
    from b64_quanta_Cons [OF less.prems [unfolded 2]] show ?thesis
    proof (elim disjE exE conjE)
      fix x y z r' assume r: "b64_quanta s' = Some r'" "r = x # y # z # r'"
      have "4 * length r' \<le> 3 * length s'" by (rule less.hyps [OF _ r(1)]) (simp add: 2)
      with r 2 show ?thesis by simp
    qed (simp add: 2)
  qed (use less.prems in auto)
qed

lemma b64_Decode_length: "b64_DecodeString s = Some r \<Longrightarrow> 4 * length r \<le> 3 * length s"
  unfolding b64_DecodeString_def
  by (rule order_trans [OF b64_quanta_length]) (assumption, simp add: length_filter_le)

text \<open>An encoding whose length is no multiple of three ends in padding.\<close>

lemma b64_Encode_padded: "length bs mod 3 \<noteq> 0 \<Longrightarrow> CHR ''='' \<in> set (b64_EncodeToString bs)"
proof (induction bs rule: b64_EncodeToString.induct)
  case (4 a b c s)
  then have "length s mod 3 \<noteq> 0" by (simp add: add.commute [of _ 3] flip: numeral_3_eq_3)
  with 4 show ?case by simp
qed simp_all

lemma b64_Encode_not_Nil: "bs \<noteq> [] \<Longrightarrow> b64_EncodeToString bs \<noteq> []"
  by (induction bs rule: b64_EncodeToString.induct) auto

end
