(* ===== verification/Inventory.thy ===== *)
theory Inventory
  imports Go_Encoding
begin

text \<open>
  The inventory file, inventory/csv/source.go: scanning its lines, the comma-separated form
  with a header, the colon-separated form of router.db, and the validation of each device.
  The reader of \<open>encoding/csv\<close> is modelled as the program configures it (leading space
  trimmed, any number of fields); it is given lines that are trimmed and not blank. The
  context is asked once per row: \<open>ctx i\<close> is its error before the \<open>i\<close>-th row.
\<close>

section \<open>Lines\<close>

text \<open>The lines that are neither blank nor comments.\<close>

fun raw_lines :: "string list \<Rightarrow> string list" where
  "raw_lines [] = []"
| "raw_lines (l # ls) =
     (let line = TrimSpace l
      in if line = [] \<or> HasPrefix line ''#'' then raw_lines ls else line # raw_lines ls)"

section \<open>The reader of comma-separated values\<close>

abbreviation (input) DQ :: char where "DQ \<equiv> CHR 0x22"

definition ErrQuote :: go_error where
  "ErrQuote = Errorf ''extraneous or missing quote in quoted-field'' []"

definition ErrBareQuote :: go_error where
  "ErrBareQuote = Errorf ''bare quote in non-quoted field'' []"

text \<open>
  After an opening quote: what was read so far, the rest of the line, the following lines.
  The result is the field, the rest of the line after a comma (\<open>None\<close> at the end of the
  record) and the lines left.
\<close>

fun csv_quoted :: "string \<Rightarrow> string \<Rightarrow> string list \<Rightarrow> go_error + (string \<times> string option \<times> string list)" where
  "csv_quoted acc [] [] = Inl ErrQuote"
| "csv_quoted acc [] (l # ls) = csv_quoted (acc @ [CHR 0x0A]) l ls"
| "csv_quoted acc (c # s) ls =
     (if c \<noteq> DQ then csv_quoted (acc @ [c]) s ls
      else case s of
             [] \<Rightarrow> Inr (acc, None, ls)
           | d # t \<Rightarrow>
               if d = DQ then csv_quoted (acc @ [DQ]) t ls
               else if d = CHR '','' then Inr (acc, Some t, ls)
               else Inl ErrQuote)"

lemma csv_quoted_shorter:
  "csv_quoted acc s ls = Inr (f, Some t, ls') \<Longrightarrow>
     length t + sum_list (map length ls') < length s + sum_list (map length ls)"
  "csv_quoted acc s ls = Inr (f, r, ls') \<Longrightarrow> length ls' \<le> length ls"
  by (induction acc s ls rule: csv_quoted.induct) (fastforce split: if_splits list.splits)+

text \<open>One field, with the rest of the line after its comma.\<close>

definition csv_field :: "string \<Rightarrow> string list \<Rightarrow> go_error + (string \<times> string option \<times> string list)" where
  "csv_field line ls =
     (let l = dropWhile is_space line in
      if l \<noteq> [] \<and> hd l = DQ then csv_quoted [] (tl l) ls
      else
        (case Cut l (CHR '','') of
           None \<Rightarrow> if DQ \<in> set l then Inl ErrBareQuote else Inr (l, None, ls)
         | Some (f, t) \<Rightarrow> if DQ \<in> set f then Inl ErrBareQuote else Inr (f, Some t, ls)))"

lemma Cut_shorter: "Cut s c = Some (a, b) \<Longrightarrow> length b < length s"
  by (induction s c arbitrary: a rule: Cut.induct) (auto split: if_splits)

lemma csv_field_shorter:
  "csv_field line ls = Inr (f, Some t, ls') \<Longrightarrow>
     length t + sum_list (map length ls') < length line + sum_list (map length ls)"
  "csv_field line ls = Inr (f, r, ls') \<Longrightarrow> length ls' \<le> length ls"
proof -
  have l: "length (dropWhile is_space line) \<le> length line" by (simp add: length_dropWhile_le)
  assume f: "csv_field line ls = Inr (f, Some t, ls')"
  show "length t + sum_list (map length ls') < length line + sum_list (map length ls)"
  proof (cases "dropWhile is_space line \<noteq> [] \<and> hd (dropWhile is_space line) = DQ")
    case True
    with f have "csv_quoted [] (tl (dropWhile is_space line)) ls = Inr (f, Some t, ls')" by (simp add: csv_field_def Let_def)
    from csv_quoted_shorter(1) [OF this] l show ?thesis by simp
  next
    case False
    with f l show ?thesis
      by (auto simp: csv_field_def Let_def dest!: Cut_shorter split: option.splits if_splits)
  qed
next
  assume "csv_field line ls = Inr (f, r, ls')"
  then show "length ls' \<le> length ls"
    by (auto simp: csv_field_def Let_def dest: csv_quoted_shorter(2) split: option.splits if_splits)
qed

function csv_record :: "string \<Rightarrow> string list \<Rightarrow> go_error + (string list \<times> string list)" where
  "csv_record line ls =
     (case csv_field line ls of
        Inl e \<Rightarrow> Inl e
      | Inr (f, None, ls') \<Rightarrow> Inr ([f], ls')
      | Inr (f, Some t, ls') \<Rightarrow>
          (case csv_record t ls' of Inl e \<Rightarrow> Inl e | Inr (fs, r) \<Rightarrow> Inr (f # fs, r)))"
  by pat_completeness auto
termination
  by (relation "measure (\<lambda>(line, ls). length line + sum_list (map length ls))")
    (auto dest: csv_field_shorter(1))

declare csv_record.simps [simp del]

lemma csv_record_shorter: "csv_record line ls = Inr (fs, r) \<Longrightarrow> length r \<le> length ls"
proof (induction line ls arbitrary: fs r rule: csv_record.induct)
  case (1 line ls)
  from 1(2) show ?case
  proof (subst (asm) csv_record.simps, cases "csv_field line ls")
    case (Inr x)
    obtain f t ls' where x: "x = (f, t, ls')" by (cases x)
    note le = csv_field_shorter(2) [OF Inr [unfolded x]]
    show ?thesis
    proof (cases t)
      case None
      with 1(2) Inr x le show ?thesis by (subst (asm) csv_record.simps) simp
    next
      case (Some t')
      with 1(2) Inr x obtain fs' where "csv_record t' ls' = Inr (fs', r)"
        by (subst (asm) csv_record.simps) (auto split: sum.splits)
      from 1(1) [OF Inr [unfolded x] refl refl Some this] le show ?thesis by simp
    qed
  qed simp
qed

text \<open>\<open>ReadAll\<close>.\<close>

function csv_all :: "string list \<Rightarrow> go_error + string list list" where
  "csv_all [] = Inr []"
| "csv_all (l # ls) =
     (case csv_record l ls of
        Inl e \<Rightarrow> Inl e
      | Inr (fs, r) \<Rightarrow> (case csv_all r of Inl e \<Rightarrow> Inl e | Inr rs \<Rightarrow> Inr (fs # rs)))"
  by pat_completeness auto
termination
  by (relation "measure length") (auto dest: csv_record_shorter)

section \<open>Fields of a row\<close>

text \<open>The map from lower-cased header names to columns; a later column of the same name wins.\<close>

fun header_index :: "nat \<Rightarrow> string list \<Rightarrow> string \<Rightarrow> nat option" where
  "header_index i [] = Map.empty"
| "header_index i (h # hs) = [ToLower (TrimSpace h) \<mapsto> i] ++ header_index (Suc i) hs"

definition get :: "string list \<Rightarrow> (string \<Rightarrow> nat option) \<Rightarrow> string \<Rightarrow> string" where
  "get row header name =
     (case header name of
        None \<Rightarrow> []
      | Some i \<Rightarrow> if i \<ge> length row then [] else TrimSpace (row ! i))"

definition parseBoolDefault :: "string \<Rightarrow> bool \<Rightarrow> bool" where
  "parseBoolDefault v d = (if v = [] then d else case ParseBool v of None \<Rightarrow> d | Some b \<Rightarrow> b)"

definition parsePort :: "string \<Rightarrow> go_error + int" where
  "parsePort v =
     (if v = [] then Inr 22
      else case Atoi v of
             None \<Rightarrow> Inl (Errorf ''invalid port %q'' [v])
           | Some n \<Rightarrow> if n \<le> 0 \<or> n > 65535 then Inl (Errorf ''invalid port %q'' [v]) else Inr n)"

definition splitList :: "string \<Rightarrow> string list" where
  "splitList v =
     (if v = [] then []
      else filter (\<lambda>f. f \<noteq> []) (map TrimSpace (FieldsFunc v (\<lambda>c. c = CHR '';'' \<or> c = CHR ''|''))))"

definition validateTarget :: "Target \<Rightarrow> string list \<Rightarrow> go_error option" where
  "validateTarget t ids =
     (if t_ID t = [] then Some (errors_New ''id is required'')
      else if t_ID t \<in> set ids then Some (Errorf ''duplicate id %q'' [t_ID t])
      else if t_Hostname t = [] then Some (errors_New ''hostname is required'')
      else if t_IPAddress t = [] then Some (errors_New ''ip_address is required'')
      else if t_Vendor t = [] then Some (errors_New ''vendor is required'')
      else if t_Group t = [] then Some (errors_New ''group is required'')
      else if t_CredentialRef t = [] then Some (errors_New ''credential_ref is required'')
      else if t_Port t \<le> 0 \<or> t_Port t > 65535 then Some (errors_New ''port must be between 1 and 65535'')
      else None)"

section \<open>The two forms\<close>

text \<open>A validation error with its line number.\<close>

definition ValidationError :: "int \<Rightarrow> string \<Rightarrow> go_error" where
  "ValidationError line reason = Errorf ''line %d: %s'' [Itoa line, reason]"

definition comma_target :: "(string \<Rightarrow> nat option) \<Rightarrow> string list \<Rightarrow> go_error + Target" where
  "comma_target header row =
     (let g = get row header in
      case parsePort (g ''port'') of
        Inl e \<Rightarrow> Inl e
      | Inr port \<Rightarrow>
          Inr \<lparr>t_ID = (if g ''id'' = [] then g ''hostname'' else g ''id''), t_Hostname = g ''hostname'',
               t_IPAddress = g ''ip_address'', t_Port = port, t_Vendor = g ''vendor'', t_Group = g ''group'',
               t_Site = g ''site'', t_Role = g ''role'', t_Tags = splitList (g ''tags''),
               t_Metadata = Map.empty, t_JumpHost = g ''jump_host'', t_CredentialRef = g ''credential_ref'',
               t_Enabled = parseBoolDefault (g ''enabled'') True,
               t_TelnetEnabled = parseBoolDefault (g ''telnet_enabled'') False\<rparr>)"

text \<open>The loop over the rows: each gives a target or a validation error for its line.\<close>

fun read_rows :: "(nat \<Rightarrow> go_error option) \<Rightarrow> ('row \<Rightarrow> go_error + Target) \<Rightarrow> int \<Rightarrow> nat \<Rightarrow> 'row list
    \<Rightarrow> string list \<Rightarrow> go_error + (Target list \<times> go_error list)" where
  "read_rows ctx row first i [] ids = Inr ([], [])"
| "read_rows ctx row first i (r # rs) ids =
     (case ctx i of
        Some e \<Rightarrow> Inl e
      | None \<Rightarrow>
          (case row r of
             Inl e \<Rightarrow>
               (case read_rows ctx row first (Suc i) rs ids of
                  Inl e' \<Rightarrow> Inl e'
                | Inr (ts, es) \<Rightarrow> Inr (ts, ValidationError (int i + first) (error_text e) # es))
           | Inr t \<Rightarrow>
               (case validateTarget t ids of
                  Some e \<Rightarrow>
                    (case read_rows ctx row first (Suc i) rs ids of
                       Inl e' \<Rightarrow> Inl e'
                     | Inr (ts, es) \<Rightarrow> Inr (ts, ValidationError (int i + first) (error_text e) # es))
                | None \<Rightarrow>
                    (case read_rows ctx row first (Suc i) rs (t_ID t # ids) of
                       Inl e' \<Rightarrow> Inl e'
                     | Inr (ts, es) \<Rightarrow> Inr (t # ts, es)))))"

definition parseComma :: "(nat \<Rightarrow> go_error option) \<Rightarrow> string list \<Rightarrow> go_error + (Target list \<times> go_error list)" where
  "parseComma ctx lines =
     (case csv_all lines of
        Inl e \<Rightarrow> Inl e
      | Inr [] \<Rightarrow> Inr ([], [])
      | Inr (h # rows) \<Rightarrow> read_rows ctx (comma_target (header_index 0 h)) 2 0 rows [])"

text \<open>The credential reference, the site and the role at the end of a line of router.db.\<close>

definition nth_trim :: "string list \<Rightarrow> nat \<Rightarrow> string" where
  "nth_trim ps i = (if i < length ps then TrimSpace (ps ! i) else [])"

definition parseColonTail :: "string list \<Rightarrow> string \<times> string \<times> string" where
  "parseColonTail ps =
     (case ps of
        [] \<Rightarrow> ([], [], [])
      | p # rest \<Rightarrow>
          if rest \<noteq> [] \<and> HasPrefix (hd rest) ''//''
          then (TrimSpace (p @ '':'' @ hd rest), nth_trim ps 2, nth_trim ps 3)
          else (TrimSpace p, nth_trim ps 1, nth_trim ps 2))"

definition colon_target :: "string \<Rightarrow> go_error + Target" where
  "colon_target line =
     (let ps = Split line (CHR '':'') in
      if length ps < 5
      then Inl (errors_New ''router.db line must be hostname:vendor:ip_address:group:credential_ref[:site][:role]'')
      else (let (cref, site, role) = parseColonTail (drop 4 ps)
            in Inr (empty_target\<lparr>t_ID := TrimSpace (ps ! 0), t_Hostname := TrimSpace (ps ! 0),
                 t_Vendor := TrimSpace (ps ! 1), t_IPAddress := TrimSpace (ps ! 2),
                 t_Group := TrimSpace (ps ! 3), t_CredentialRef := cref, t_Site := site,
                 t_Role := role, t_Enabled := True, t_Port := 22\<rparr>)))"

definition parseColon :: "(nat \<Rightarrow> go_error option) \<Rightarrow> string list \<Rightarrow> go_error + (Target list \<times> go_error list)" where
  "parseColon ctx lines = read_rows ctx colon_target 1 0 lines []"

definition Parse :: "(nat \<Rightarrow> go_error option) \<Rightarrow> string \<Rightarrow> go_error + (Target list \<times> go_error list)" where
  "Parse ctx text =
     (case scan_lines text of
        Inl e \<Rightarrow> Inl e
      | Inr ls \<Rightarrow>
          (case raw_lines ls of
             [] \<Rightarrow> Inr ([], [])
           | l # rest \<Rightarrow> if Contains l '','' then parseComma ctx (l # rest) else parseColon ctx (l # rest)))"

text \<open>Targets and an error: with validation errors the program gets both.\<close>

definition Load_inventory :: "(nat \<Rightarrow> go_error option) \<Rightarrow> go_error + string \<Rightarrow> Target list \<times> go_error option" where
  "Load_inventory ctx opened =
     (case opened of
        Inl e \<Rightarrow> ([], Some e)
      | Inr text \<Rightarrow>
          (case Parse ctx text of
             Inl e \<Rightarrow> ([], Some e)
           | Inr (ts, errs) \<Rightarrow> (ts, if errs = [] then None else Some (Joined errs))))"

section \<open>What the parser yields\<close>

definition valid_target :: "Target \<Rightarrow> bool" where
  "valid_target t \<longleftrightarrow>
     t_ID t \<noteq> [] \<and> t_Hostname t \<noteq> [] \<and> t_IPAddress t \<noteq> [] \<and> t_Vendor t \<noteq> [] \<and> t_Group t \<noteq> []
   \<and> t_CredentialRef t \<noteq> [] \<and> 1 \<le> t_Port t \<and> t_Port t \<le> 65535"

lemma validateTarget_None: "validateTarget t ids = None \<longleftrightarrow> valid_target t \<and> t_ID t \<notin> set ids"
  by (auto simp: validateTarget_def valid_target_def)

text \<open>The trimmed form of the texts of a target.\<close>

definition trimmed :: "Target \<Rightarrow> bool" where
  "trimmed t \<longleftrightarrow> list_all (\<lambda>f. TrimSpace f = f)
     ([t_ID t, t_Hostname t, t_IPAddress t, t_Vendor t, t_Group t, t_Site t, t_Role t, t_JumpHost t, t_CredentialRef t] @ t_Tags t)"

lemma get_trimmed [simp]: "TrimSpace (get row header name) = get row header name"
  by (simp add: get_def split: option.splits)

lemma splitList_trimmed: "f \<in> set (splitList v) \<Longrightarrow> TrimSpace f = f"
  by (auto simp: splitList_def split: if_splits)

lemma comma_target_trimmed: "comma_target header row = Inr t \<Longrightarrow> trimmed t"
  by (auto simp: comma_target_def Let_def trimmed_def list_all_iff splitList_trimmed split: sum.splits)

lemma nth_trim_trimmed [simp]: "TrimSpace (nth_trim ps i) = nth_trim ps i"
  by (simp add: nth_trim_def)

lemma colon_target_trimmed: "colon_target line = Inr t \<Longrightarrow> trimmed t"
  by (auto simp: colon_target_def Let_def trimmed_def parseColonTail_def empty_target_def
      split: if_splits prod.splits list.splits)

lemma read_rows_spec:
  assumes "read_rows ctx row k i rs ids = Inr (ts, es)" "\<And>r t. row r = Inr t \<Longrightarrow> trimmed t"
  shows "list_all valid_target ts \<and> list_all trimmed ts \<and> distinct (map t_ID ts)
    \<and> set (map t_ID ts) \<inter> set ids = {} \<and> length ts + length es = length rs"
  using assms(1)
proof (induction rs arbitrary: i ids ts es)
  case (Cons r rs)
  note prems = Cons.prems
  then have c: "ctx i = None" by (auto split: option.splits)
  have skip: ?case if s: "read_rows ctx row k (Suc i) rs ids = Inr (ts, es')" "es = e # es'" for e es'
    using Cons.IH [OF s(1)] s(2) by simp
  show ?case
  proof (cases "row r")
    case (Inl e)
    with prems c obtain es' where "read_rows ctx row k (Suc i) rs ids = Inr (ts, es')"
      "es = ValidationError (int i + k) (error_text e) # es'" by (auto split: sum.splits)
    then show ?thesis by (rule skip)
  next
    case (Inr t)
    show ?thesis
    proof (cases "validateTarget t ids")
      case None
      with prems c Inr obtain ts' where r: "read_rows ctx row k (Suc i) rs (t_ID t # ids) = Inr (ts', es)" "ts = t # ts'"
        by (auto split: sum.splits)
      from Cons.IH [OF r(1)] r(2) None assms(2) [OF Inr] show ?thesis by (auto simp: validateTarget_None)
    next
      case (Some e)
      with prems c Inr obtain es' where "read_rows ctx row k (Suc i) rs ids = Inr (ts, es')"
        "es = ValidationError (int i + k) (error_text e) # es'" by (auto split: sum.splits)
      then show ?thesis by (rule skip)
    qed
  qed
qed simp

text \<open>The number of rows that stand for devices.\<close>

definition device_rows :: "string \<Rightarrow> nat" where
  "device_rows text =
     (case scan_lines text of
        Inl _ \<Rightarrow> 0
      | Inr ls \<Rightarrow>
          (case raw_lines ls of
             [] \<Rightarrow> 0
           | l # rest \<Rightarrow>
               if Contains l '','' then (case csv_all (l # rest) of Inl _ \<Rightarrow> 0 | Inr rows \<Rightarrow> length rows - 1)
               else Suc (length rest)))"

lemma Parse_spec:
  assumes "Parse ctx txt = Inr (ts, errs)"
  shows "list_all valid_target ts \<and> list_all trimmed ts \<and> distinct (map t_ID ts)
    \<and> length ts + length errs = device_rows txt"
proof -
  from assms obtain ls where ls: "scan_lines txt = Inr ls" by (auto simp: Parse_def split: sum.splits)
  show ?thesis
  proof (cases "raw_lines ls")
    case Nil
    with assms ls show ?thesis by (simp add: Parse_def device_rows_def)
  next
    case (Cons l rest)
    show ?thesis
    proof (cases "Contains l '',''")
      case False
      with assms ls Cons have "read_rows ctx colon_target 1 0 (l # rest) [] = Inr (ts, errs)"
        by (simp add: Parse_def parseColon_def)
      from read_rows_spec [OF this colon_target_trimmed] ls Cons False show ?thesis by (simp add: device_rows_def)
    next
      case True
      with assms ls Cons have p: "parseComma ctx (l # rest) = Inr (ts, errs)" by (simp add: Parse_def)
      then obtain rows where r: "csv_all (l # rest) = Inr rows" by (auto simp: parseComma_def split: sum.splits)
      show ?thesis
      proof (cases rows)
        case Nil
        with p r ls Cons True show ?thesis by (simp add: parseComma_def device_rows_def del: csv_all.simps)
      next
        case (Cons h rs)
        with p r have "read_rows ctx (comma_target (header_index 0 h)) 2 0 rs [] = Inr (ts, errs)"
          by (simp add: parseComma_def del: csv_all.simps)
        from read_rows_spec [OF this comma_target_trimmed] ls r Cons True \<open>raw_lines ls = _\<close>
        show ?thesis by (simp add: device_rows_def del: csv_all.simps)
      qed
    qed
  qed
qed

text \<open>
  C40: reading an inventory loses no row and lets no bad device in: every row of the file
  gives a device or a validation error, and the devices have different identifiers, all
  the required fields, a port between 1 and 65535, and no surrounding blanks.
\<close>

theorem Parse_inventory_valid:
  assumes "Parse ctx txt = Inr (ts, errs)"
  shows "list_all valid_target ts \<and> list_all trimmed ts \<and> distinct (map t_ID ts)
    \<and> length ts + length errs = device_rows txt"
  using assms by (rule Parse_spec)

definition demo_inventory :: string where
  \<open>demo_inventory =
     ''id,hostname,ip_address,vendor,group,credential_ref,port'' @ [CHR 0x0A] @ ''# lab'' @ [CHR 0x0A] @
     ''r1,"core, 1",10.0.0.1,cisco,lab,dotenv://r1,2222'' @ [CHR 0x0A] @
     ''r1,edge,10.0.0.2,cisco,lab,dotenv://r1,'' @ [CHR 0x0A]\<close>

lemma demo_inventory_read:
  "(case Parse (\<lambda>_. None) demo_inventory of Inl _ \<Rightarrow> False
    | Inr (ts, errs) \<Rightarrow> map t_Hostname ts = [''core, 1''] \<and> map t_Port ts = [2222]
        \<and> map error_text errs = [''line 3: duplicate id '' @ [DQ] @ ''r1'' @ [DQ]])"
  by code_simp

theorem Parse_inventory_valid_witness:
  "\<exists>ts errs. Parse (\<lambda>_. None) demo_inventory = Inr (ts, errs) \<and> map t_Hostname ts = [''core, 1'']
     \<and> length errs = 1 \<and> list_all valid_target ts \<and> device_rows demo_inventory = 2"
proof -
  obtain ts errs where p: "Parse (\<lambda>_. None) demo_inventory = Inr (ts, errs)" "map t_Hostname ts = [''core, 1'']"
    "length errs = 1"
    using demo_inventory_read by (auto split: sum.splits)
  from p(2) have "length ts = 1" by (metis length_map list.size(3,4) One_nat_def add_0)
  with Parse_inventory_valid [OF p(1)] p show ?thesis by auto
qed

text \<open>A word such as \<open>no\<close>, which \<open>ParseBool\<close> does not know, leaves a device enabled.\<close>

lemma enabled_no_is_enabled: "parseBoolDefault ''no'' True"
  by (simp add: parseBoolDefault_def ParseBool_def)

end
