(* ===== verification/Gitstore.thy ===== *)
theory Gitstore
  imports Pipeline Diff "HOL-Library.AList"
begin

text \<open>
  The archive of configurations in git repositories, storage/gitstore/store.go: shards,
  safe file names, saving with a commit, reading the latest content, the history and the
  diff of two commits. The file system is a map from absolute clean paths to contents
  whose operations may fail at any point; a repository is an opaque value of the git
  library, whose operations are parameters. What the code reads of a commit is a record.
  A panic of the code is the value \<open>None\<close>.
\<close>

section \<open>Paths\<close>

text \<open>\<open>filepath.Clean\<close> on the elements of a path: dots go, two dots remove the element before.\<close>

fun clean_elems :: "bool \<Rightarrow> string list \<Rightarrow> string list \<Rightarrow> string list" where
  "clean_elems rooted [] acc = rev acc"
| "clean_elems rooted (e # es) acc =
     (if e = [] \<or> e = ''.'' then clean_elems rooted es acc
      else if e = ''..'' then
        (if acc \<noteq> [] \<and> hd acc \<noteq> ''..'' then clean_elems rooted es (tl acc)
         else if rooted then clean_elems rooted es acc
         else clean_elems rooted es (''..'' # acc))
      else clean_elems rooted es (e # acc))"

fun rooted :: "string \<Rightarrow> bool" where
  "rooted [] = False"
| "rooted (c # s) = (c = CHR ''/'')"

definition Clean :: "string \<Rightarrow> string" where
  "Clean path =
     (let out = (if rooted path then ''/'' else []) @ Join (clean_elems (rooted path) (Split path (CHR ''/'')) []) ''/''
      in if out = [] then ''.'' else out)"

definition filepath_Join :: "string list \<Rightarrow> string" where
  "filepath_Join elems =
     (let es = dropWhile (\<lambda>e. e = []) elems in if es = [] then [] else Clean (Join es ''/''))"

text \<open>\<open>filepath.Abs\<close> in the working directory \<open>cwd\<close>, an absolute path.\<close>

definition Abs :: "string \<Rightarrow> string \<Rightarrow> string" where
  "Abs cwd path = (if rooted path then Clean path else filepath_Join [cwd, path])"

section \<open>Shards and names\<close>

definition valueOrDefault :: "string \<Rightarrow> string \<Rightarrow> string" where
  "valueOrDefault v def = (if TrimSpace v = [] then def else v)"

text \<open>The 32-bit FNV-1a hash of \<open>hash/fnv\<close>.\<close>

definition fnv32a :: "string \<Rightarrow> 32 word" where
  "fnv32a s = fold (\<lambda>c h. (xor h (word_of_int (int (code c)))) * 16777619) s 2166136261"

text \<open>The count is converted to 32 bits; a remainder by zero panics.\<close>

definition shardKey :: "Target \<Rightarrow> ShardStrategy \<Rightarrow> int \<Rightarrow> string option" where
  "shardKey t strategy count =
     (case strategy of
        ShardByRegion \<Rightarrow>
          (case t_Metadata t ''region'' of
             Some r \<Rightarrow> if r \<noteq> [] then Some r else Some (valueOrDefault (t_Site t) ''default'')
           | None \<Rightarrow> Some (valueOrDefault (t_Site t) ''default''))
      | ShardBySite \<Rightarrow> Some (valueOrDefault (t_Site t) ''default'')
      | ShardByVendor \<Rightarrow> Some (valueOrDefault (t_Vendor t) ''default'')
      | ShardByRole \<Rightarrow> Some (valueOrDefault (t_Role t) ''default'')
      | ShardByHash \<Rightarrow>
          (let n = (word_of_int (if count \<le> 0 then 1 else count) :: 32 word)
           in if n = 0 then None else Some (''shard-'' @ Itoa (uint (fnv32a (t_ID t)) mod uint n)))
      | ShardOther _ \<Rightarrow> Some ''default'')"

text \<open>\<open>sanitizeRe\<close> is \<open>[^a-zA-Z0-9._-]+\<close>: a run of other characters becomes one underscore.\<close>

definition safe_char :: "char \<Rightarrow> bool" where
  "safe_char c \<longleftrightarrow> is_lower c \<or> is_upper c \<or> is_digit c \<or> c \<in> {CHR ''.'', CHR ''_'', CHR ''-''}"

function replace_runs :: "(char \<Rightarrow> bool) \<Rightarrow> string \<Rightarrow> string \<Rightarrow> string" where
  "replace_runs bad new [] = []"
| "replace_runs bad new (c # s) =
     (if bad c then new @ replace_runs bad new (dropWhile bad s) else c # replace_runs bad new s)"
  by pat_completeness auto
termination
  by (relation "measure (\<lambda>(bad, new, s). length s)") (auto simp: length_dropWhile_le le_imp_less_Suc)

definition sanitize :: "string \<Rightarrow> string" where
  "sanitize v =
     (let v2 = Trim (replace_runs (\<lambda>c. \<not> safe_char c) ''_'' (TrimSpace v)) ''._-''
      in if v2 = [] then ''default'' else v2)"

section \<open>The file system and the git library\<close>

text \<open>What is read of a commit: its parents, the paths of its patch against the first
  parent (\<open>Inl\<close> when that fails), and the files of its tree.\<close>

record commit =
  co_Hash :: string
  co_When :: instant
  co_NumParents :: nat
  co_Patch :: "go_error + (string option \<times> string option) list"
  co_File :: "string \<Rightarrow> go_error + string"

text \<open>\<open>Log\<close> gives the commits from the head and the error that ends the iteration, if any.\<close>

record 'r git_lib =
  gl_Init :: 'r
  gl_Head :: "'r \<Rightarrow> go_error + string"
  gl_Log :: "'r \<Rightarrow> go_error + (commit list \<times> go_error option)"
  gl_CommitObject :: "'r \<Rightarrow> string \<Rightarrow> go_error + commit"
  gl_Add :: "string \<Rightarrow> string \<Rightarrow> 'r \<Rightarrow> go_error option \<times> 'r" \<comment> \<open>the path and what its file holds\<close>
  gl_Commit :: "string \<Rightarrow> string \<Rightarrow> string \<Rightarrow> instant \<Rightarrow> 'r \<Rightarrow> (go_error + string) \<times> 'r" \<comment> \<open>message and author\<close>
  gl_ErrEmptyCommit :: go_error

record 'r disk =
  dk_files :: "(string \<times> string) list"
  dk_repos :: "string \<Rightarrow> 'r option"
  dk_fault :: "nat \<Rightarrow> go_error option"
  dk_torn :: "nat \<Rightarrow> nat option" \<comment> \<open>what a failed write leaves of the new content\<close>
  dk_ops :: nat

record Store =
  gs_BasePath :: string
  gs_ShardStrategy :: ShardStrategy
  gs_ShardCount :: int
  gs_AuthorName :: string
  gs_AuthorEmail :: string
  gs_cwd :: string \<comment> \<open>the working directory of the process\<close>

definition New_store :: "string \<Rightarrow> string \<Rightarrow> ShardStrategy \<Rightarrow> int \<Rightarrow> string \<Rightarrow> string \<Rightarrow> Store" where
  "New_store cwd basePath strategy shardCount authorName authorEmail =
     \<lparr>gs_BasePath = basePath, gs_ShardStrategy = strategy, gs_ShardCount = shardCount,
      gs_AuthorName = authorName, gs_AuthorEmail = authorEmail, gs_cwd = cwd\<rparr>"

text \<open>One operation on the disk: its fault, if it has one.\<close>

definition disk_op :: "'r disk \<Rightarrow> go_error option \<times> 'r disk" where
  "disk_op d = (dk_fault d (dk_ops d), d\<lparr>dk_ops := Suc (dk_ops d)\<rparr>)"

definition ErrNotExist :: go_error where
  "ErrNotExist = Errorf ''file does not exist'' []"

definition ReadFile :: "string \<Rightarrow> 'r disk \<Rightarrow> (go_error + string) \<times> 'r disk" where
  "ReadFile path d =
     (let (e, d1) = disk_op d
      in (case e of
            Some e \<Rightarrow> Inl e
          | None \<Rightarrow> (case map_of (dk_files d) path of None \<Rightarrow> Inl ErrNotExist | Some c \<Rightarrow> Inr c), d1))"

text \<open>A write that fails leaves the file alone or holding a part of the new content.\<close>

definition WriteFile :: "string \<Rightarrow> string \<Rightarrow> 'r disk \<Rightarrow> go_error option \<times> 'r disk" where
  "WriteFile path c d =
     (let (e, d1) = disk_op d
      in (e, case (e, dk_torn d (dk_ops d)) of
               (None, _) \<Rightarrow> d1\<lparr>dk_files := AList.update path c (dk_files d1)\<rparr>
             | (Some _, Some k) \<Rightarrow> d1\<lparr>dk_files := AList.update path (take k c) (dk_files d1)\<rparr>
             | (Some _, None) \<Rightarrow> d1))"

text \<open>Opening a repository: the library reports a missing one apart from other errors.\<close>

definition PlainOpen :: "string \<Rightarrow> 'r disk \<Rightarrow> (go_error + 'r option) \<times> 'r disk" where
  "PlainOpen path d = (let (e, d1) = disk_op d in (case e of Some e \<Rightarrow> Inl e | None \<Rightarrow> Inr (dk_repos d path), d1))"

definition openOrInit :: "'r git_lib \<Rightarrow> string \<Rightarrow> 'r disk \<Rightarrow> (go_error + 'r) \<times> 'r disk" where
  "openOrInit lib path d =
     (let (opened, d1) = PlainOpen path d
      in case opened of
           Inl e \<Rightarrow> (Inl e, d1)
         | Inr (Some r) \<Rightarrow> (Inr r, d1)
         | Inr None \<Rightarrow>
             (let (e, d2) = disk_op d1
              in case e of
                   Some e \<Rightarrow> (Inl e, d2)
                 | None \<Rightarrow> (Inr (gl_Init lib), d2\<lparr>dk_repos := (dk_repos d2)(path \<mapsto> gl_Init lib)\<rparr>)))"

section \<open>Commits\<close>

definition fileAtCommit :: "'r git_lib \<Rightarrow> 'r \<Rightarrow> string \<Rightarrow> string \<Rightarrow> go_error + string" where
  "fileAtCommit lib r rv path =
     (case gl_CommitObject lib r rv of Inl e \<Rightarrow> Inl e | Inr c \<Rightarrow> co_File c path)"

definition touchedFile :: "commit \<Rightarrow> string \<Rightarrow> bool" where
  "touchedFile c path =
     (if co_NumParents c = 0 then (case co_File c path of Inl _ \<Rightarrow> False | Inr _ \<Rightarrow> True)
      else (case co_Patch c of
              Inl _ \<Rightarrow> False
            | Inr fps \<Rightarrow> list_ex (\<lambda>(from_path, to_path). from_path = Some path \<or> to_path = Some path) fps))"

definition headHash :: "'r git_lib \<Rightarrow> 'r \<Rightarrow> string" where
  "headHash lib r = (case gl_Head lib r of Inl _ \<Rightarrow> [] | Inr h \<Rightarrow> h)"

definition latestCommitForFile :: "'r git_lib \<Rightarrow> 'r \<Rightarrow> string \<Rightarrow> string" where
  "latestCommitForFile lib r path =
     (case gl_Log lib r of
        Inl _ \<Rightarrow> []
      | Inr (cs, _) \<Rightarrow> (case find (\<lambda>c. touchedFile c path) cs of None \<Rightarrow> [] | Some c \<Rightarrow> co_Hash c))"

definition commitMessage :: "Target \<Rightarrow> CommitMeta \<Rightarrow> string \<Rightarrow> string" where
  "commitMessage t meta contentSHA =
     Join [''backup '' @ t_ID t, [], ''Target-ID: '' @ t_ID t, ''Vendor: '' @ t_Vendor t,
           ''Trigger: '' @ cm_Trigger meta, ''Actor: '' @ cm_Actor meta, ''Job-ID: '' @ cm_JobID meta,
           ''Ruleset-Version: '' @ cm_RulesetVersion meta, ''Content-SHA256: '' @ contentSHA] [CHR 0x0A]
     @ [CHR 0x0A]"

definition trailers :: "Target \<Rightarrow> CommitMeta \<Rightarrow> string \<Rightarrow> string \<rightharpoonup> string" where
  "trailers t meta contentSHA =
     [''Target-ID'' \<mapsto> t_ID t, ''Vendor'' \<mapsto> t_Vendor t, ''Trigger'' \<mapsto> cm_Trigger meta,
      ''Actor'' \<mapsto> cm_Actor meta, ''Job-ID'' \<mapsto> cm_JobID meta,
      ''Ruleset-Version'' \<mapsto> cm_RulesetVersion meta, ''Content-SHA256'' \<mapsto> contentSHA]"

definition authorName :: "Store \<Rightarrow> string" where
  "authorName s = (if gs_AuthorName s = [] then ''GoXidized'' else gs_AuthorName s)"

definition authorEmail :: "Store \<Rightarrow> string" where
  "authorEmail s = (if gs_AuthorEmail s = [] then ''goxidized@example.invalid'' else gs_AuthorEmail s)"

section \<open>Saving\<close>

text \<open>The path of the repository and the shard.\<close>

definition repoPath :: "Store \<Rightarrow> Target \<Rightarrow> (string \<times> string) option" where
  "repoPath s t =
     map_option (\<lambda>shard. (filepath_Join [gs_BasePath s, sanitize (strategy_text (gs_ShardStrategy s)), sanitize shard],
                         sanitize shard))
       (shardKey t (gs_ShardStrategy s) (gs_ShardCount s))"

definition configPath :: "Store \<Rightarrow> string \<Rightarrow> Target \<Rightarrow> go_error + (string \<times> string)" where
  "configPath s repo t =
     (let rel = filepath_Join [sanitize (t_Vendor t), sanitize (t_ID t) @ ''.cfg''];
          full = filepath_Join [repo, rel];
          cleanRepo = Abs (gs_cwd s) repo;
          cleanAbs = Abs (gs_cwd s) full
      in if cleanAbs \<noteq> cleanRepo \<and> \<not> HasPrefix cleanAbs (cleanRepo @ ''/'')
         then Inl (errors_New ''resolved path escapes repository root'') else Inr (rel, full))"

definition plain_revision :: "string \<Rightarrow> Target \<Rightarrow> string \<Rightarrow> string \<Rightarrow> string \<Rightarrow> instant \<Rightarrow> Revision" where
  "plain_revision rid t shard rel sha now =
     empty_revision\<lparr>r_ID := rid, r_TargetID := t_ID t, r_Shard := shard, r_Path := rel, r_ContentSHA256 := sha,
       r_CommitSHA := rid, r_CreatedAt := now\<rparr>"

text \<open>The new content is written, staged and committed.\<close>

definition commit_content :: "'r git_lib \<Rightarrow> Store \<Rightarrow> instant \<Rightarrow> instant \<Rightarrow> Target \<Rightarrow> RedactedConfig \<Rightarrow> CommitMeta
    \<Rightarrow> string \<Rightarrow> string \<Rightarrow> string \<Rightarrow> string \<Rightarrow> 'r \<Rightarrow> 'r disk \<Rightarrow> (go_error + Revision) \<times> 'r disk" where
  "commit_content lib s now now' t cfg meta shard repo rel full r d =
     (let sha = SHA256Hex (rc_Content cfg); parent = headHash lib r; previous = latestCommitForFile lib r rel;
          repoKey = Abs (gs_cwd s) repo; (e, d1) = disk_op d
      in case e of Some e \<Rightarrow> (Inl e, d1) | None \<Rightarrow>
     (let (e, d2) = WriteFile (Abs (gs_cwd s) full) (rc_Content cfg) d1
      in case e of Some e \<Rightarrow> (Inl e, d2) | None \<Rightarrow>
     (let (e, d3) = disk_op d2
      in case e of Some e \<Rightarrow> (Inl e, d3) | None \<Rightarrow>
     (let (e, r1) = gl_Add lib rel (rc_Content cfg) r; d4 = d3\<lparr>dk_repos := (dk_repos d3)(repoKey \<mapsto> r1)\<rparr>
      in case e of Some e \<Rightarrow> (Inl e, d4) | None \<Rightarrow>
     (let (res, r2) = gl_Commit lib (commitMessage t meta sha) (authorName s) (authorEmail s) now r1;
          d5 = d4\<lparr>dk_repos := (dk_repos d4)(repoKey \<mapsto> r2)\<rparr>
      in case res of
           Inl e \<Rightarrow>
             if error_is e (gl_ErrEmptyCommit lib)
             then (Inr ((plain_revision (headHash lib r2) t shard rel sha now')\<lparr>r_ParentCommit := parent\<rparr>), d5)
             else (Inl e, d5)
         | Inr h \<Rightarrow>
             (Inr ((plain_revision h t shard rel sha now')\<lparr>r_ParentCommit := previous, r_Changed := True,
                     r_CommitTrailers := trailers t meta sha\<rparr>), d5))))))"

text \<open>\<open>now\<close> is the commit's time, \<open>now'\<close> that of the revision; \<open>None\<close> is a panic.\<close>

definition Save :: "'r git_lib \<Rightarrow> Store \<Rightarrow> instant \<Rightarrow> instant \<Rightarrow> go_error option \<Rightarrow> Target \<Rightarrow> RedactedConfig \<Rightarrow> CommitMeta
    \<Rightarrow> 'r disk \<Rightarrow> ((go_error + Revision) \<times> 'r disk) option" where
  "Save lib s now now' ctx t cfg meta d =
     (case ctx of Some e \<Rightarrow> Some (Inl e, d) | None \<Rightarrow>
     (case repoPath s t of None \<Rightarrow> None | Some (repo, shard) \<Rightarrow>
     (let (e, d1) = disk_op d
      in case e of Some e \<Rightarrow> Some (Inl e, d1) | None \<Rightarrow>
     (let (opened, d2) = openOrInit lib (Abs (gs_cwd s) repo) d1
      in case opened of Inl e \<Rightarrow> Some (Inl e, d2) | Inr r \<Rightarrow>
     (case configPath s repo t of Inl e \<Rightarrow> Some (Inl e, d2) | Inr (rel, full) \<Rightarrow>
     (let (old, d3) = ReadFile (Abs (gs_cwd s) full) d2;
          oldContent = (case old of Inl _ \<Rightarrow> [] | Inr c \<Rightarrow> c);
          sha = SHA256Hex (rc_Content cfg); previous = latestCommitForFile lib r rel
      in if oldContent = rc_Content cfg \<and> previous \<noteq> []
         then Some (Inr ((plain_revision previous t shard rel sha now')\<lparr>r_ParentCommit := previous,
                           r_CommitTrailers := trailers t meta sha\<rparr>), d3)
         else Some (commit_content lib s now now' t cfg meta shard repo rel full r d3)))))))"

section \<open>Reading\<close>

text \<open>
  \<open>filepath.Glob\<close> for the pattern of the code: the files three directories below the base
  with a given name. Directories are read in order, so results are ordered element by
  element, which is the order of the paths with the separator below all other characters.
\<close>

definition glob_key :: "string \<Rightarrow> string" where
  "glob_key p = map (\<lambda>c. if c = CHR ''/'' then CHR 0x00 else c) p"

fun insert_path :: "string \<Rightarrow> string list \<Rightarrow> string list" where
  "insert_path p [] = [p]"
| "insert_path p (q # qs) = (if str_less (glob_key q) (glob_key p) then q # insert_path p qs else p # q # qs)"

definition below :: "string \<Rightarrow> string \<Rightarrow> string \<Rightarrow> bool" where
  "below base name p \<longleftrightarrow>
     (let b = (if base = ''/'' then base else base @ ''/'') in
      HasPrefix p b \<and> (let es = Split (drop (length b) p) (CHR ''/'') in length es = 4 \<and> last es = name))"

definition Glob :: "string \<Rightarrow> string \<Rightarrow> 'r disk \<Rightarrow> string list" where
  "Glob base name d = foldr insert_path (filter (below base name) (map fst (dk_files d))) []"

definition Dir :: "string \<Rightarrow> string" where
  "Dir p = Clean (Join (butlast (Split p (CHR ''/''))) ''/'' @ ''/'')"

text \<open>The path below the repository and the repository of the first file found.\<close>

definition locateTargetFile :: "Store \<Rightarrow> string \<Rightarrow> 'r disk \<Rightarrow> (go_error + (string \<times> string)) \<times> 'r disk" where
  "locateTargetFile s targetID d =
     (let (e, d1) = disk_op d
      in case e of Some e \<Rightarrow> (Inl e, d1) | None \<Rightarrow>
        (case Glob (Abs (gs_cwd s) (gs_BasePath s)) (sanitize targetID @ ''.cfg'') d1 of
           [] \<Rightarrow> (Inl ErrNotExist, d1)
         | p # _ \<Rightarrow> (let repo = Dir (Dir p)
                     in (Inr (Join (drop (length (Split p (CHR ''/'')) - 2) (Split p (CHR ''/''))) ''/'', repo), d1))))"

text \<open>A repository to read: one that does not exist is an error.\<close>

definition open_existing :: "string \<Rightarrow> 'r disk \<Rightarrow> (go_error + 'r) \<times> 'r disk" where
  "open_existing repo d =
     (let (opened, d1) = PlainOpen repo d
      in (case opened of Inl e \<Rightarrow> Inl e | Inr None \<Rightarrow> Inl (Errorf ''repository does not exist'' []) | Inr (Some r) \<Rightarrow> Inr r, d1))"

definition Latest :: "'r git_lib \<Rightarrow> Store \<Rightarrow> instant \<Rightarrow> string \<Rightarrow> 'r disk \<Rightarrow> (go_error + (RedactedConfig \<times> Revision)) \<times> 'r disk" where
  "Latest lib s now targetID d =
     (let (located, d1) = locateTargetFile s targetID d
      in case located of Inl e \<Rightarrow> (Inl e, d1) | Inr (path, repo) \<Rightarrow>
     (let (content, d2) = ReadFile (filepath_Join [repo, path]) d1
      in case content of Inl e \<Rightarrow> (Inl e, d2) | Inr content \<Rightarrow>
     (let (opened, d3) = open_existing repo d2
      in case opened of Inl e \<Rightarrow> (Inl e, d3) | Inr r \<Rightarrow>
     (let found = latestCommitForFile lib r path; head = (if found = [] then headHash lib r else found)
      in (Inr (\<lparr>rc_TargetID = targetID, rc_Content = content\<rparr>,
               empty_revision\<lparr>r_ID := head, r_TargetID := targetID, r_Path := path, r_CommitSHA := head,
                              r_ContentSHA256 := SHA256Hex content, r_CreatedAt := now\<rparr>), d3)))))"

text \<open>The callback of \<open>History\<close>: enough revisions stop the iteration, its own error ends it.\<close>

fun history_loop :: "string \<Rightarrow> string \<Rightarrow> nat \<Rightarrow> commit list \<Rightarrow> Revision list \<Rightarrow> Revision list \<times> bool" where
  "history_loop targetID path limit [] revs = (revs, False)"
| "history_loop targetID path limit (c # cs) revs =
     (if length revs \<ge> limit then (revs, True)
      else if touchedFile c path
      then history_loop targetID path limit cs
             (revs @ [empty_revision\<lparr>r_ID := co_Hash c, r_TargetID := targetID, r_Path := path,
                                     r_CommitSHA := co_Hash c, r_CreatedAt := co_When c\<rparr>])
      else history_loop targetID path limit cs revs)"

definition History :: "'r git_lib \<Rightarrow> Store \<Rightarrow> string \<Rightarrow> int \<Rightarrow> 'r disk \<Rightarrow> (go_error + Revision list) \<times> 'r disk" where
  "History lib s targetID limit d =
     (let (located, d1) = locateTargetFile s targetID d
      in case located of Inl e \<Rightarrow> (Inl e, d1) | Inr (path, repo) \<Rightarrow>
     (let (opened, d2) = open_existing repo d1
      in case opened of Inl e \<Rightarrow> (Inl e, d2) | Inr r \<Rightarrow>
     (case gl_Log lib r of Inl e \<Rightarrow> (Inl e, d2) | Inr (cs, iter_err) \<Rightarrow>
     (let (revs, stopped) = history_loop targetID path (if limit \<le> 0 then 100 else nat limit) cs []
      in (case iter_err of
            Some e \<Rightarrow> if stopped then Inr revs else Inl e
          | None \<Rightarrow> Inr revs, d2)))))"

definition Diff_commits :: "'r git_lib \<Rightarrow> Store \<Rightarrow> go_error option \<Rightarrow> string \<Rightarrow> string \<Rightarrow> string \<Rightarrow> 'r disk \<Rightarrow> (go_error + string) \<times> 'r disk" where
  "Diff_commits lib s ctx targetID fromRev toRev d =
     (let (located, d1) = locateTargetFile s targetID d
      in case located of Inl e \<Rightarrow> (Inl e, d1) | Inr (path, repo) \<Rightarrow>
     (let (opened, d2) = open_existing repo d1
      in case opened of Inl e \<Rightarrow> (Inl e, d2) | Inr r \<Rightarrow>
        (case fileAtCommit lib r fromRev path of Inl e \<Rightarrow> Inl e | Inr old \<Rightarrow>
        (case fileAtCommit lib r toRev path of Inl e \<Rightarrow> Inl e | Inr new \<Rightarrow>
        (case UnifiedDiff ctx targetID fromRev toRev old new of Inl e \<Rightarrow> Inl e | Inr x \<Rightarrow> Inr (d_UnifiedDiff x))), d2)))"

section \<open>Facts about paths\<close>

abbreviation (input) SL :: char where "SL \<equiv> CHR ''/''"

lemma rooted_hd: "rooted s \<longleftrightarrow> s \<noteq> [] \<and> hd s = SL"
  by (cases s) auto

lemma Split_append: "Split (a @ sep # b) sep = Split a sep @ Split b sep"
  by (induction a) (auto split: list.splits)

lemma clean_elems_append:
  "clean_elems r (as @ bs) acc = clean_elems r bs (rev (clean_elems r as acc))"
  by (induction r as acc rule: clean_elems.induct) auto

text \<open>A plain element: a file name that is neither empty nor a dot or two.\<close>

definition plain_elem :: "string \<Rightarrow> bool" where
  "plain_elem e \<longleftrightarrow> e \<noteq> [] \<and> e \<noteq> ''.'' \<and> e \<noteq> ''..'' \<and> SL \<notin> set e"

lemma clean_elems_plain: "\<forall>e\<in>set bs. plain_elem e \<Longrightarrow> clean_elems r bs acc = rev acc @ bs"
  by (induction bs arbitrary: acc) (auto simp: plain_elem_def)

lemma clean_elems_set: "x \<in> set (clean_elems r es acc) \<Longrightarrow> x \<in> set es \<or> x \<in> set acc"
proof (induction r es acc rule: clean_elems.induct)
  case (2 rooted e es acc)
  have "y \<in> set (tl acc) \<Longrightarrow> y \<in> set acc" for y by (cases acc) auto
  with 2 show ?case by (auto split: if_splits)
qed simp

lemma clean_elems_elem:
  "\<forall>a\<in>set acc. a \<noteq> [] \<and> a \<noteq> ''.'' \<Longrightarrow> x \<in> set (clean_elems r es acc) \<Longrightarrow> x \<noteq> [] \<and> x \<noteq> ''.''"
proof (induction r es acc rule: clean_elems.induct)
  case (2 rooted e es acc)
  have "\<forall>a\<in>set (tl acc). a \<noteq> [] \<and> a \<noteq> ''.''" using 2(6) by (cases acc) auto
  with 2 show ?case by (auto split: if_splits)
qed auto

text \<open>Cleaning what was cleaned already changes nothing.\<close>

lemma clean_elems_clean:
  assumes "\<forall>a\<in>set acc. a \<noteq> [] \<and> a \<noteq> ''.''" "r \<longrightarrow> st = [] \<and> ''..'' \<notin> set acc"
  shows "clean_elems True (clean_elems r es acc) st = clean_elems True (rev acc @ es) st"
  using assms
proof (induction r es acc rule: clean_elems.induct)
  case (2 rooted e es acc)
  have skip: "clean_elems True (rev acc @ e # es) st = clean_elems True (rev acc @ es) st" if "e = [] \<or> e = ''.''"
    using that by (auto simp: clean_elems_append)
  have pop: "clean_elems True (rev acc @ ''..'' # es) st = clean_elems True (rev (tl acc) @ es) st"
    if p: "acc \<noteq> []" "hd acc \<noteq> ''..''"
  proof -
    obtain a as where a: "acc = a # as" using p(1) by (cases acc) auto
    have "a \<noteq> []" "a \<noteq> ''.''" "a \<noteq> ''..''" using a p(2) 2(6) by auto
    then show ?thesis by (simp add: a clean_elems_append)
  qed
  have tl: "\<forall>a\<in>set (tl acc). a \<noteq> [] \<and> a \<noteq> ''.''" "rooted \<longrightarrow> st = [] \<and> ''..'' \<notin> set (tl acc)"
    using 2(6,7) by (cases acc; auto)+
  show ?case
  proof (cases "e = [] \<or> e = ''.''")
    case True
    with 2(1) [OF True 2(6,7)] skip [OF True] show ?thesis by auto
  next
    case e: False
    show ?thesis
    proof (cases "e = ''..''")
      case True
      show ?thesis
      proof (cases "acc \<noteq> [] \<and> hd acc \<noteq> ''..''")
        case p: True
        from 2(2) [OF e True p tl] pop p True show ?thesis by simp
      next
        case p: False
        show ?thesis
        proof (cases rooted)
          case r: True
          then have "acc = []" using p 2(7) by (metis list.set_sel(1))
          with 2(3) [OF e True p r 2(6,7)] r 2(7) True show ?thesis by simp
        next
          case r: False
          have "\<forall>a\<in>set (''..'' # acc). a \<noteq> [] \<and> a \<noteq> ''.''" using 2(6) by auto
          with 2(4) [OF e True p r] r p True show ?thesis by auto
        qed
      qed
    next
      case d: False
      have "\<forall>a\<in>set (e # acc). a \<noteq> [] \<and> a \<noteq> ''.''" "rooted \<longrightarrow> st = [] \<and> ''..'' \<notin> set (e # acc)"
        using 2(6,7) e d by auto
      from 2(5) [OF e d this] e d show ?thesis by simp
    qed
  qed
qed simp

text \<open>The elements of the absolute form of a path.\<close>

definition abs_elems :: "string \<Rightarrow> string \<Rightarrow> string list" where
  "abs_elems cwd p =
     clean_elems True (if rooted p then Split p SL else Split cwd SL @ Split p SL) []"

lemma Split_Clean:
  assumes "xs = clean_elems r (Split p SL) []"
  shows "xs \<noteq> [] \<Longrightarrow> Split (Join xs ''/'') SL = xs"
proof -
  assume "xs \<noteq> []"
  moreover have "\<forall>x\<in>set xs. SL \<notin> set x"
    using assms clean_elems_set Split_parts by fastforce
  ultimately show ?thesis by (intro Split_Join) auto
qed

lemma Clean_no_dots: "x \<in> set (clean_elems True es []) \<Longrightarrow> x \<noteq> ''..''"
proof -
  have k: "''..'' \<notin> set acc \<Longrightarrow> x \<in> set (clean_elems r es acc) \<Longrightarrow> r \<Longrightarrow> x \<noteq> ''..''" for r acc
  proof (induction r es acc rule: clean_elems.induct)
    case (2 rooted e es acc)
    have "''..'' \<notin> set (tl acc)" using 2(6) by (cases acc) auto
    with 2 show ?case by (auto split: if_splits)
  qed auto
  show "x \<in> set (clean_elems True es []) \<Longrightarrow> x \<noteq> ''..''" using k [of "[]" True] by simp
qed

lemma clean_elems_True_plain: "\<forall>x\<in>set (clean_elems True (Split p SL) []). plain_elem x"
  using Clean_no_dots clean_elems_elem [of "[]"] clean_elems_set [of _ True "Split p SL" "[]"] Split_parts
  unfolding plain_elem_def by fastforce

lemma Clean_rooted: "rooted p \<Longrightarrow> Clean p = ''/'' @ Join (clean_elems True (Split p SL) []) ''/''"
  by (simp add: Clean_def Let_def)

lemma abs_elems_Clean:
  "abs_elems cwd (Clean p) = abs_elems cwd p"
proof (cases "rooted p")
  case True
  let ?xs = "clean_elems True (Split p SL) []"
  have c: "Clean p = SL # Join ?xs ''/''" using Clean_rooted [OF True] by simp
  have "clean_elems True (Split (Join ?xs ''/'') SL) [] = ?xs"
  proof (cases "?xs = []")
    case False
    then show ?thesis using clean_elems_clean [of "[]" True "[]" "Split p SL"] Split_Clean by simp
  qed simp
  then show ?thesis using True c by (simp add: abs_elems_def)
next
  case False
  let ?xs = "clean_elems False (Split p SL) []"
  have k: "clean_elems True ?xs st = clean_elems True (Split p SL) st" for st
    using clean_elems_clean [of "[]" False st "Split p SL"] by simp
  show ?thesis
  proof (cases "?xs = []")
    case True
    then have "Clean p = ''.''" using False by (simp add: Clean_def Let_def)
    moreover have "clean_elems True (Split p SL) st = rev st" for st using k [of st] True by simp
    ultimately show ?thesis using False by (simp add: abs_elems_def clean_elems_append)
  next
    case ne: False
    have x: "hd ?xs \<noteq> []" using ne clean_elems_elem [of "[]"] by (metis empty_iff list.set(1) list.set_sel(1))
    have s: "SL \<notin> set (hd ?xs)"
      using ne clean_elems_set [of "hd ?xs" False "Split p SL" "[]"] Split_parts by fastforce
    have j: "Join ?xs ''/'' \<noteq> []" "hd (Join ?xs ''/'') \<noteq> SL"
      using ne x s by (cases ?xs; cases "tl ?xs"; cases "hd ?xs"; auto)+
    have "Clean p = Join ?xs ''/''" using False ne j by (simp add: Clean_def Let_def)
    moreover have "\<not> rooted (Join ?xs ''/'')" using j by (simp add: rooted_hd)
    ultimately show ?thesis using False Split_Clean [OF refl ne] k by (simp add: abs_elems_def clean_elems_append)
  qed
qed

lemma Abs_elems:
  assumes "rooted cwd"
  shows "Abs cwd p = ''/'' @ Join (abs_elems cwd p) ''/''"
proof (cases "rooted p")
  case True
  then show ?thesis by (simp add: Abs_def Clean_rooted abs_elems_def)
next
  case False
  have "cwd \<noteq> []" using assms by auto
  then have "filepath_Join [cwd, p] = Clean (cwd @ SL # p)" by (simp add: filepath_Join_def)
  moreover have "rooted (cwd @ SL # p)" using assms by (cases cwd) auto
  ultimately show ?thesis using False by (simp add: Abs_def Clean_rooted abs_elems_def Split_append)
qed

text \<open>Joining plain names to a path appends them to its absolute form.\<close>

lemma abs_elems_Join:
  assumes "qs \<noteq> []" "\<forall>q\<in>set qs. plain_elem q"
  shows "abs_elems cwd (filepath_Join (p # qs)) = abs_elems cwd p @ qs"
proof -
  have ne: "\<forall>q\<in>set qs. q \<noteq> [] \<and> SL \<notin> set q" using assms(2) by (auto simp: plain_elem_def)
  have sq: "Split (Join qs ''/'') SL = qs" using assms(1) ne by (intro Split_Join) auto
  have jq: "Join qs ''/'' \<noteq> []" "hd (Join qs ''/'') \<noteq> SL"
    using assms(1) ne by (cases qs; cases "tl qs"; cases "hd qs"; auto)+
  show ?thesis
  proof (cases "p = []")
    case True
    have "dropWhile (\<lambda>e. e = []) qs = qs" using assms(1) ne by (cases qs) auto
    with True assms(1) have "filepath_Join (p # qs) = Clean (Join qs ''/'')" by (simp add: filepath_Join_def Let_def)
    then show ?thesis
      using True jq sq assms(2) by (simp add: abs_elems_Clean) (simp add: abs_elems_def clean_elems_append clean_elems_plain rooted_hd)
  next
    case False
    then have "filepath_Join (p # qs) = Clean (p @ SL # Join qs ''/'')"
      using assms(1) by (simp add: filepath_Join_def Let_def Join_Cons)
    moreover have "rooted (p @ SL # Join qs ''/'') = rooted p" using False by (cases p) auto
    ultimately show ?thesis
      using sq assms(2) by (simp add: abs_elems_Clean)
        (simp add: abs_elems_def Split_append clean_elems_append clean_elems_plain)
  qed
qed

section \<open>Where a configuration is kept\<close>

text \<open>A safe name: letters, digits, dots, underscores and dashes, the first and last a letter or digit.\<close>

definition safe_name :: "string \<Rightarrow> bool" where
  "safe_name v \<longleftrightarrow> v \<noteq> [] \<and> list_all safe_char v \<and> hd v \<notin> set ''._-'' \<and> last v \<notin> set ''._-''"

lemma replace_runs_set: "x \<in> set (replace_runs bad new s) \<Longrightarrow> x \<in> set new \<or> \<not> bad x"
  by (induction bad new s rule: replace_runs.induct) (auto split: if_splits)

lemma set_Trim: "set (Trim s cs) \<subseteq> set s"
  unfolding Trim_def trim_fun_def trim_left_fun_def using set_trim_right set_dropWhileD by fastforce

lemma Trim_ends:
  assumes "Trim s cs \<noteq> []"
  shows "hd (Trim s cs) \<notin> set cs" "last (Trim s cs) \<notin> set cs"
proof -
  let ?d = "dropWhile (\<lambda>c. c \<in> set cs) s"
  have t: "Trim s cs = trim_right_fun (\<lambda>c. c \<in> set cs) ?d" by (simp add: Trim_def trim_fun_def trim_left_fun_def)
  show "last (Trim s cs) \<notin> set cs" using assms trim_right_last unfolding t by fastforce
  have "?d \<noteq> []" using assms set_trim_right [of _ ?d] unfolding t by (metis set_empty subset_empty list.set(1))
  moreover have "hd (Trim s cs) = hd ?d" using assms trim_right_hd unfolding t by fastforce
  ultimately show "hd (Trim s cs) \<notin> set cs" using hd_dropWhile [of "\<lambda>c. c \<in> set cs" s] by simp
qed

lemma sanitize_safe: "safe_name (sanitize v)"
proof -
  let ?r = "replace_runs (\<lambda>c. \<not> safe_char c) ''_'' (TrimSpace v)"
  let ?t = "Trim ?r ''._-''"
  show ?thesis
  proof (cases "?t = []")
    case True
    then have "sanitize v = ''default''" by (simp add: sanitize_def)
    then show ?thesis by (simp add: safe_name_def) code_simp
  next
    case False
    have "safe_char c" if "c \<in> set ?t" for c
      using that set_Trim replace_runs_set [of c "\<lambda>c. \<not> safe_char c" "''_''" "TrimSpace v"]
      by (auto simp: safe_char_def)
    then have "list_all safe_char ?t" by (simp add: list_all_iff)
    with False Trim_ends [OF False] show ?thesis by (simp add: safe_name_def sanitize_def Let_def)
  qed
qed

lemma safe_char_no_slash: "safe_char c \<Longrightarrow> c \<noteq> SL"
  by (auto simp: safe_char_def is_lower_def is_upper_def is_digit_def code_def)

lemma safe_name_plain: "safe_name v \<Longrightarrow> plain_elem v" "safe_name v \<Longrightarrow> plain_elem (v @ ''.cfg'')"
  using safe_char_no_slash by (auto simp: safe_name_def plain_elem_def list_all_iff)

text \<open>The elements of the absolute path of the repository, and of the file in it.\<close>

definition repo_elems :: "Store \<Rightarrow> string \<Rightarrow> string list" where
  "repo_elems s shard = abs_elems (gs_cwd s) (gs_BasePath s) @ [sanitize (strategy_text (gs_ShardStrategy s)), shard]"

definition file_elems :: "Target \<Rightarrow> string list" where
  "file_elems t = [sanitize (t_Vendor t), sanitize (t_ID t) @ ''.cfg'']"

lemma Join_append: "xs \<noteq> [] \<Longrightarrow> ys \<noteq> [] \<Longrightarrow> Join (xs @ ys) sep = Join xs sep @ sep @ Join ys sep"
proof (induction xs)
  case (Cons a xs)
  then show ?case by (cases "xs = []") (simp_all add: Join_Cons)
qed simp

lemma configPath_facts:
  assumes "rooted (gs_cwd s)" "repoPath s t = Some (repo, shard)"
  shows "safe_name shard" "Abs (gs_cwd s) repo = ''/'' @ Join (repo_elems s shard) ''/''"
    "\<exists>full. configPath s repo t = Inr (Join (file_elems t) ''/'', full)
       \<and> Abs (gs_cwd s) full = ''/'' @ Join (repo_elems s shard @ file_elems t) ''/''"
proof -
  let ?cwd = "gs_cwd s" and ?v = "sanitize (t_Vendor t)" and ?i = "sanitize (t_ID t) @ ''.cfg''"
  let ?st = "sanitize (strategy_text (gs_ShardStrategy s))"
  obtain k where shard: "shard = sanitize k" and repo: "repo = filepath_Join [gs_BasePath s, ?st, shard]"
    using assms(2) by (auto simp: repoPath_def)
  then show "safe_name shard" using sanitize_safe by simp
  have plain: "plain_elem ?st" "plain_elem shard" "plain_elem ?v" "plain_elem ?i"
    using sanitize_safe safe_name_plain shard by simp_all
  have re: "abs_elems ?cwd repo = repo_elems s shard"
    using abs_elems_Join [of "[?st, shard]" ?cwd "gs_BasePath s"] plain unfolding repo repo_elems_def by simp
  then show rp: "Abs ?cwd repo = ''/'' @ Join (repo_elems s shard) ''/''" using Abs_elems [OF assms(1)] by simp
  have ne: "?v \<noteq> []" "?i \<noteq> []" "\<not> rooted (?v @ SL # ?i)"
    using plain(3,4) by (auto simp: plain_elem_def) (cases ?v, auto)
  have sp: "Split (?v @ SL # ?i) SL = [?v, ?i]"
    using plain(3,4) unfolding plain_elem_def by (subst Split_append_sep) (auto intro: Split_no_sep)
  have q: "\<forall>q\<in>set [?v, ?i]. plain_elem q" using plain(3,4) by simp
  have rel: "filepath_Join [?v, ?i] = ?v @ SL # ?i"
    using ne sp plain(3,4) clean_elems_plain [of "[?v, ?i]" False "[]"]
    by (simp add: filepath_Join_def Clean_def Let_def del: clean_elems.simps)
  let ?full = "filepath_Join [repo, ?v @ SL # ?i]"
  have "abs_elems ?cwd ?full = abs_elems ?cwd repo @ [?v, ?i]"
  proof (cases "repo = []")
    case True
    then have f: "?full = Clean (?v @ SL # ?i)" using ne by (simp add: filepath_Join_def)
    have "clean_elems True (Split ?cwd SL @ [?v, ?i]) [] = clean_elems True (Split ?cwd SL @ [[]]) [] @ [?v, ?i]"
      unfolding clean_elems_append clean_elems_plain [OF q] by simp
    then show ?thesis using ne(3) sp True unfolding f
      by (simp add: abs_elems_Clean) (simp add: abs_elems_def del: clean_elems.simps)
  next
    case False
    then have f: "?full = Clean (repo @ SL # ?v @ SL # ?i)" by (simp add: filepath_Join_def)
    have "rooted (repo @ SL # ?v @ SL # ?i) = rooted repo" using False by (cases repo) auto
    then show ?thesis
      using sp plain(3,4) unfolding f
      by (simp add: abs_elems_Clean)
        (simp add: abs_elems_def Split_append clean_elems_append clean_elems_plain del: clean_elems.simps)
  qed
  then have full: "Abs ?cwd ?full = ''/'' @ Join (repo_elems s shard @ file_elems t) ''/''"
    using Abs_elems [OF assms(1)] re by (simp add: file_elems_def)
  have "repo_elems s shard \<noteq> []" by (simp add: repo_elems_def)
  then have "Abs ?cwd ?full = Abs ?cwd repo @ ''/'' @ Join (file_elems t) ''/''"
    unfolding full rp by (simp add: Join_append file_elems_def)
  then have "configPath s repo t = Inr (Join (file_elems t) ''/'', ?full)"
    using rel by (simp add: configPath_def Let_def file_elems_def HasPrefix_iff)
  with full show "\<exists>full. configPath s repo t = Inr (Join (file_elems t) ''/'', full)
       \<and> Abs ?cwd full = ''/'' @ Join (repo_elems s shard @ file_elems t) ''/''" by blast
qed

text \<open>
  C18: no identifier, vendor or shard of a device leads out of the archive. The file of a
  device lies exactly two names below the repository of its shard, which lies two names
  below the base path; all four are made of letters, digits, dots, underscores and dashes
  and begin and end with a letter or digit, so the check for an escaping path never fires.
\<close>

theorem config_file_inside:
  assumes "rooted (gs_cwd s)" "repoPath s t = Some (repo, shard)"
  shows "\<exists>full. configPath s repo t = Inr (Join (file_elems t) ''/'', full)
     \<and> Abs (gs_cwd s) repo = ''/'' @ Join (repo_elems s shard) ''/''
     \<and> Abs (gs_cwd s) full = ''/'' @ Join (repo_elems s shard @ file_elems t) ''/''
     \<and> safe_name shard \<and> safe_name (sanitize (strategy_text (gs_ShardStrategy s)))
     \<and> safe_name (sanitize (t_Vendor t)) \<and> safe_name (sanitize (t_ID t))"
  using configPath_facts [OF assms] sanitize_safe by blast

section \<open>Saving refines an update of the archive\<close>

text \<open>
  The abstract archive: the content under each safe name, read as \<open>Latest\<close> finds it, from
  the first file of that name.
\<close>

definition archive :: "Store \<Rightarrow> 'r disk \<Rightarrow> string \<rightharpoonup> string" where
  "archive s d name =
     (case Glob (Abs (gs_cwd s) (gs_BasePath s)) (name @ ''.cfg'') d of
        [] \<Rightarrow> None | p # _ \<Rightarrow> map_of (dk_files d) p)"

lemma files_disk_op [simp]: "dk_files (snd (disk_op d)) = dk_files d"
  by (simp add: disk_op_def)

lemma disk_op_files: "disk_op d = (e, d1) \<Longrightarrow> dk_files d1 = dk_files d"
  by (metis files_disk_op snd_conv)

lemma openOrInit_files: "openOrInit lib p d = (x, d1) \<Longrightarrow> dk_files d1 = dk_files d"
  by (auto simp: openOrInit_def PlainOpen_def Let_def case_prod_beta split: sum.splits option.splits)

lemma ReadFile_files: "ReadFile p d = (x, d1) \<Longrightarrow> dk_files d1 = dk_files d"
  by (auto simp: ReadFile_def case_prod_beta)

lemma ReadFile_content: "ReadFile p d = (Inr c, d1) \<Longrightarrow> map_of (dk_files d) p = Some c"
  by (auto simp: ReadFile_def case_prod_beta Let_def split: option.splits)

lemma WriteFile_files:
  "WriteFile p c d = (e, d1) \<Longrightarrow> dk_files d1 = dk_files d \<or> (\<exists>c'. dk_files d1 = AList.update p c' (dk_files d))"
  "WriteFile p c d = (None, d1) \<Longrightarrow> dk_files d1 = AList.update p c (dk_files d)"
  by (auto simp: WriteFile_def case_prod_beta Let_def split: option.splits)

text \<open>At most the file of the device changes, and after success it holds the content.\<close>

definition saved_files :: "string \<Rightarrow> string \<Rightarrow> (go_error + Revision) \<Rightarrow> 'r disk \<Rightarrow> 'r disk \<Rightarrow> bool" where
  "saved_files p content res d d' \<longleftrightarrow>
     (dk_files d' = dk_files d \<or> (\<exists>c. dk_files d' = AList.update p c (dk_files d)))
   \<and> (\<forall>rv. res = Inr rv \<longrightarrow> map_of (dk_files d') p = Some content)"

lemma commit_content_files:
  assumes "commit_content lib s now now' t cfg meta shard repo rel full r d = (res, d')"
  shows "saved_files (Abs (gs_cwd s) full) (rc_Content cfg) res d d'"
proof -
  let ?p = "Abs (gs_cwd s) full"
  obtain e1 d1 where p1: "disk_op d = (e1, d1)" by fastforce
  obtain e2 d2 where p2: "WriteFile ?p (rc_Content cfg) d1 = (e2, d2)" by fastforce
  obtain e3 d3 where p3: "disk_op d2 = (e3, d3)" by fastforce
  note f1 = disk_op_files [OF p1] and f3 = disk_op_files [OF p3]
  show ?thesis
  proof (cases e1)
    case (Some e)
    with assms p1 have "res = Inl e" "d' = d1" by (simp_all add: commit_content_def Let_def)
    with f1 show ?thesis by (simp add: saved_files_def)
  next
    case n1: None
    show ?thesis
    proof (cases e2)
      case (Some e)
      with assms p1 p2 n1 have "res = Inl e" "d' = d2" by (simp_all add: commit_content_def Let_def)
      with WriteFile_files(1) [OF p2] f1 show ?thesis by (simp add: saved_files_def)
    next
      case n2: None
      have u: "dk_files d2 = AList.update ?p (rc_Content cfg) (dk_files d)"
        using WriteFile_files(2) [OF p2 [unfolded n2]] f1 by simp
      have "dk_files d' = dk_files d3 \<or> dk_files d' = dk_files d2"
        using assms p1 p2 p3 n1 n2
        by (auto simp: commit_content_def Let_def case_prod_beta split: option.splits sum.splits if_splits)
      then have "dk_files d' = AList.update ?p (rc_Content cfg) (dk_files d)" using f3 u by auto
      then show ?thesis by (auto simp: saved_files_def update_conv)
    qed
  qed
qed

definition file_path :: "Store \<Rightarrow> string \<Rightarrow> Target \<Rightarrow> string" where
  "file_path s shard t = ''/'' @ Join (repo_elems s shard @ file_elems t) ''/''"

lemma Save_files:
  assumes "rooted (gs_cwd s)" "repoPath s t = Some (repo, shard)"
    and "Save lib s now now' ctx t cfg meta d = Some (res, d')" "rc_Content cfg \<noteq> []"
  shows "saved_files (file_path s shard t) (rc_Content cfg) res d d'"
proof (cases ctx)
  case (Some e)
  with assms(3) show ?thesis by (auto simp: Save_def saved_files_def)
next
  case n: None
  obtain full where full: "configPath s repo t = Inr (Join (file_elems t) ''/'', full)"
    "Abs (gs_cwd s) full = file_path s shard t"
    using configPath_facts(3) [OF assms(1,2)] by (auto simp: file_path_def)
  obtain e1 d1 where p1: "disk_op d = (e1, d1)" by fastforce
  obtain x d2 where p2: "openOrInit lib (Abs (gs_cwd s) repo) d1 = (x, d2)" by fastforce
  obtain y d3 where p3: "ReadFile (file_path s shard t) d2 = (y, d3)" by fastforce
  note f = disk_op_files [OF p1] openOrInit_files [OF p2] ReadFile_files [OF p3]
  show ?thesis
  proof (cases e1)
    case (Some e)
    with assms(2,3) n p1 have "res = Inl e" "d' = d1" by (simp_all add: Save_def)
    with f show ?thesis by (simp add: saved_files_def)
  next
    case n1: None
    show ?thesis
    proof (cases x)
      case (Inl e)
      with assms(2,3) n p1 n1 p2 have "res = Inl e" "d' = d2" by (simp_all add: Save_def)
      with f show ?thesis by (simp add: saved_files_def)
    next
      case (Inr r)
      let ?old = "case y of Inl _ \<Rightarrow> [] | Inr c \<Rightarrow> c" and ?rel = "Join (file_elems t) ''/''"
      show ?thesis
      proof (cases "?old = rc_Content cfg \<and> latestCommitForFile lib r ?rel \<noteq> []")
        case True
        with assms(2,3) n p1 n1 p2 Inr full p3 have d: "d' = d3" by (simp add: Save_def Let_def)
        from True assms(4) have "y = Inr (rc_Content cfg)" by (cases y) auto
        with ReadFile_content p3 f have "map_of (dk_files d) (file_path s shard t) = Some (rc_Content cfg)" by metis
        with d f show ?thesis by (simp add: saved_files_def)
      next
        case False
        with assms(2,3) n p1 n1 p2 Inr full p3
        have "commit_content lib s now now' t cfg meta shard repo ?rel full r d3 = (res, d')"
          by (auto simp: Save_def Let_def)
        from commit_content_files [OF this] full(2) f show ?thesis by (simp add: saved_files_def)
      qed
    qed
  qed
qed

lemma set_insert_path [simp]: "set (insert_path p qs) = insert p (set qs)"
  by (induction qs) auto

lemma set_Glob: "set (Glob base name d) = {p \<in> fst ` set (dk_files d). below base name p}"
proof -
  have "set (foldr insert_path ps []) = set ps" for ps by (induction ps) auto
  then show ?thesis by (auto simp: Glob_def)
qed

lemma below_append:
  "b = (if base = ''/'' then base else base @ ''/'') \<Longrightarrow> Split r SL = es \<Longrightarrow>
     below base name (b @ r) \<longleftrightarrow> length es = 4 \<and> last es = name"
  by (simp add: below_def Let_def del: HasPrefix_Cons1)

lemma below_file_path:
  assumes "rooted (gs_cwd s)" "safe_name shard"
  shows "below (Abs (gs_cwd s) (gs_BasePath s)) name (file_path s shard t) \<longleftrightarrow> name = sanitize (t_ID t) @ ''.cfg''"
proof -
  let ?E = "abs_elems (gs_cwd s) (gs_BasePath s)" and ?st = "sanitize (strategy_text (gs_ShardStrategy s))"
  let ?rest = "[?st, shard] @ file_elems t"
  have plain: "\<forall>q\<in>set ?rest. plain_elem q"
    using assms(2) sanitize_safe safe_name_plain by (auto simp: file_elems_def)
  then have sp: "Split (Join ?rest ''/'') SL = ?rest" by (intro Split_Join) (auto simp: plain_elem_def)
  have base: "Abs (gs_cwd s) (gs_BasePath s) = ''/'' @ Join ?E ''/''" using Abs_elems [OF assms(1)] .
  have fp: "file_path s shard t = ''/'' @ Join (?E @ ?rest) ''/''" by (simp add: file_path_def repo_elems_def)
  have ne: "Join ?E ''/'' \<noteq> []" if "?E \<noteq> []"
  proof -
    have "hd ?E \<noteq> []" using that clean_elems_elem [of "[]"] by (metis abs_elems_def empty_iff list.set(1) list.set_sel(1))
    with that show ?thesis by (cases ?E; cases "tl ?E") auto
  qed
  have four: "length ?rest = 4 \<and> last ?rest = name \<longleftrightarrow> name = sanitize (t_ID t) @ ''.cfg''"
    by (auto simp: file_elems_def)
  show ?thesis
  proof (cases "?E = []")
    case True
    then have "file_path s shard t = ''/'' @ Join ?rest ''/''" "Abs (gs_cwd s) (gs_BasePath s) = ''/''"
      unfolding fp base by simp_all
    then show ?thesis using below_append [OF _ sp, of "''/''" "''/''" name] four by simp
  next
    case False
    then have p: "file_path s shard t = (''/'' @ Join ?E ''/'' @ ''/'') @ Join ?rest ''/''"
      unfolding fp using Join_append [of ?E ?rest "''/''"] by simp
    have "''/'' @ Join ?E ''/'' @ ''/'' = (if ''/'' @ Join ?E ''/'' = ''/'' then ''/'' @ Join ?E ''/'' else (''/'' @ Join ?E ''/'') @ ''/'')"
      using ne [OF False] by simp
    from below_append [OF this sp, of name] four show ?thesis unfolding p base by simp
  qed
qed

lemma keys_update:
  "map fst (AList.update p c al) = (if p \<in> fst ` set al then map fst al else map fst al @ [p])"
  by (induction al) auto

lemma Glob_update:
  "\<not> below base name p \<Longrightarrow> dk_files d' = AList.update p c (dk_files d) \<Longrightarrow> Glob base name d' = Glob base name d"
  by (simp add: Glob_def keys_update)

lemma Glob_same: "dk_files d' = dk_files d \<Longrightarrow> Glob base name d' = Glob base name d"
  by (simp add: Glob_def)

lemma Save_archive:
  assumes "rooted (gs_cwd s)" "repoPath s t = Some (repo, shard)"
    and "Save lib s now now' ctx t cfg meta d = Some (res, d')" "rc_Content cfg \<noteq> []"
    and placed: "\<forall>p\<in>set (Glob (Abs (gs_cwd s) (gs_BasePath s)) (sanitize (t_ID t) @ ''.cfg'') d). p = file_path s shard t"
  shows "case res of
     Inr _ \<Rightarrow> archive s d' = (archive s d)(sanitize (t_ID t) \<mapsto> rc_Content cfg)
   | Inl _ \<Rightarrow> \<forall>name. name \<noteq> sanitize (t_ID t) \<longrightarrow> archive s d' name = archive s d name"
proof -
  let ?base = "Abs (gs_cwd s) (gs_BasePath s)" and ?p = "file_path s shard t" and ?me = "sanitize (t_ID t)"
  have safe: "safe_name shard" using configPath_facts(1) [OF assms(1,2)] .
  note below = below_file_path [OF assms(1) safe, of _ t]
  have sf: "saved_files ?p (rc_Content cfg) res d d'" using Save_files [OF assms(1-4)] .
  then have either: "dk_files d' = dk_files d \<or> (\<exists>c. dk_files d' = AList.update ?p c (dk_files d))"
    unfolding saved_files_def by blast
  then have keys: "fst ` set (dk_files d') \<subseteq> insert ?p (fst ` set (dk_files d))"
    by (elim disjE exE) (auto simp: keys_update simp flip: set_map split: if_splits)
  have other: "archive s d' name = archive s d name" if n: "name \<noteq> ?me" for name
    using either
  proof (elim disjE exE)
    assume same: "dk_files d' = dk_files d"
    show ?thesis unfolding archive_def Glob_same [OF same] same ..
  next
    fix c assume u: "dk_files d' = AList.update ?p c (dk_files d)"
    have nb: "\<not> below ?base (name @ ''.cfg'') ?p" using n below by simp
    then have g: "Glob ?base (name @ ''.cfg'') d' = Glob ?base (name @ ''.cfg'') d" using u by (rule Glob_update)
    have "q \<noteq> ?p" if "q \<in> set (Glob ?base (name @ ''.cfg'') d)" for q using that nb by (auto simp: set_Glob)
    then show ?thesis unfolding archive_def g u by (auto simp: update_conv split: list.splits)
  qed
  show ?thesis
  proof (cases res)
    case (Inl e)
    with other show ?thesis by simp
  next
    case (Inr rv)
    with sf have content: "map_of (dk_files d') ?p = Some (rc_Content cfg)" by (simp add: saved_files_def)
    then have "?p \<in> fst ` set (dk_files d')" by (metis domI dom_map_of_conv_image_fst)
    then have "?p \<in> set (Glob ?base (?me @ ''.cfg'') d')" using below by (simp add: set_Glob)
    moreover have "\<forall>q\<in>set (Glob ?base (?me @ ''.cfg'') d'). q = ?p"
      using keys placed by (auto simp: set_Glob)
    ultimately obtain rest where "Glob ?base (?me @ ''.cfg'') d' = ?p # rest"
      by (metis list.set_intros(1) neq_Nil_conv empty_iff list.set(1))
    then have "archive s d' ?me = Some (rc_Content cfg)" using content by (simp add: archive_def)
    with other Inr show ?thesis by (auto simp: fun_eq_iff)
  qed
qed

section \<open>The archive as an interface\<close>

text \<open>
  What a client of the archive relies on: a save that succeeds puts its content under the
  name of its device, and no save touches another name. \<open>allowed\<close> are the requests the
  promise is about, \<open>tidy\<close> the states.
\<close>

locale config_archive =
  fixes save :: "'q \<Rightarrow> 's \<Rightarrow> bool \<times> 's"
    and key :: "'q \<Rightarrow> string"
    and val :: "'q \<Rightarrow> string"
    and content :: "'s \<Rightarrow> string \<rightharpoonup> string"
    and allowed :: "'q \<Rightarrow> bool"
    and tidy :: "'s \<Rightarrow> bool"
  assumes stays_tidy: "tidy s \<Longrightarrow> allowed q \<Longrightarrow> tidy (snd (save q s))"
    and saved: "tidy s \<Longrightarrow> allowed q \<Longrightarrow> fst (save q s) \<Longrightarrow> content (snd (save q s)) = (content s)(key q \<mapsto> val q)"
    and untouched: "tidy s \<Longrightarrow> allowed q \<Longrightarrow> n \<noteq> key q \<Longrightarrow> content (snd (save q s)) n = content s n"
begin

definition saves :: "'q list \<Rightarrow> 's \<Rightarrow> 's" where
  "saves qs s = fold (\<lambda>q s. snd (save q s)) qs s"

lemma saves_others:
  assumes "tidy s" "list_all allowed qs" "n \<notin> key ` set qs"
  shows "tidy (saves qs s) \<and> content (saves qs s) n = content s n"
  using assms
proof (induction qs arbitrary: s)
  case (Cons q qs)
  then show ?case using stays_tidy [of s q] untouched [of s q n] by (simp add: saves_def)
qed (simp add: saves_def)

text \<open>A content that was saved is there until its device is saved again, whatever happens to the others.\<close>

lemma saved_stays:
  assumes "tidy s" "list_all allowed (q # qs)" "fst (save q s)" "key q \<notin> key ` set qs"
  shows "content (saves (q # qs) s) (key q) = Some (val q)"
  using assms saves_others [OF stays_tidy [of s q], of qs "key q"] saved [of s q] by (simp add: saves_def)

end

text \<open>A request to the store, and its save with the success as a flag; a panic changes nothing.\<close>

record save_request =
  sq_now :: instant
  sq_end :: instant
  sq_ctx :: "go_error option"
  sq_target :: Target
  sq_config :: RedactedConfig
  sq_meta :: CommitMeta

definition git_save :: "'r git_lib \<Rightarrow> Store \<Rightarrow> save_request \<Rightarrow> 'r disk \<Rightarrow> bool \<times> 'r disk" where
  "git_save lib s q d =
     (case Save lib s (sq_now q) (sq_end q) (sq_ctx q) (sq_target q) (sq_config q) (sq_meta q) d of
        None \<Rightarrow> (False, d)
      | Some (res, d') \<Rightarrow> (\<not> isl res, d'))"

text \<open>Every device has one place, \<open>home\<close>, in the archive: its shard does not change.\<close>

definition at_home :: "Store \<Rightarrow> (string \<Rightarrow> string) \<Rightarrow> save_request \<Rightarrow> bool" where
  "at_home s home q \<longleftrightarrow> rooted (gs_cwd s) \<and> rc_Content (sq_config q) \<noteq> []
     \<and> (case repoPath s (sq_target q) of None \<Rightarrow> False
        | Some (repo, shard) \<Rightarrow> home (sanitize (t_ID (sq_target q))) = file_path s shard (sq_target q))"

definition housed :: "Store \<Rightarrow> (string \<Rightarrow> string) \<Rightarrow> 'r disk \<Rightarrow> bool" where
  "housed s home d \<longleftrightarrow>
     (\<forall>name. \<forall>p\<in>set (Glob (Abs (gs_cwd s) (gs_BasePath s)) (name @ ''.cfg'') d). p = home name)"

lemma Save_housed:
  assumes "rooted (gs_cwd s)" "repoPath s t = Some (repo, shard)"
    and "Save lib s now now' ctx t cfg meta d = Some (res, d')" "rc_Content cfg \<noteq> []"
    and "home (sanitize (t_ID t)) = file_path s shard t" "housed s home d"
  shows "housed s home d'"
proof -
  let ?p = "file_path s shard t"
  note below = below_file_path [OF assms(1) configPath_facts(1) [OF assms(1,2)], of _ t]
  have "dk_files d' = dk_files d \<or> (\<exists>c. dk_files d' = AList.update ?p c (dk_files d))"
    using Save_files [OF assms(1-4)] unfolding saved_files_def by blast
  then have "fst ` set (dk_files d') \<subseteq> insert ?p (fst ` set (dk_files d))"
    by (elim disjE exE) (auto simp: keys_update simp flip: set_map split: if_splits)
  then have q: "q = ?p \<or> q \<in> fst ` set (dk_files d)" if "q \<in> fst ` set (dk_files d')" for q using that by blast
  show ?thesis unfolding housed_def set_Glob
  proof (intro allI ballI)
    fix name q
    assume "q \<in> {q \<in> fst ` set (dk_files d'). below (Abs (gs_cwd s) (gs_BasePath s)) (name @ ''.cfg'') q}"
    then have "q = ?p \<or> q \<in> fst ` set (dk_files d)" and b: "below (Abs (gs_cwd s) (gs_BasePath s)) (name @ ''.cfg'') q"
      using q by blast+
    then show "q = home name"
      using assms(5,6) below unfolding housed_def set_Glob by auto
  qed
qed

interpretation git_archive: config_archive "git_save lib s" "\<lambda>q. sanitize (t_ID (sq_target q))" "\<lambda>q. rc_Content (sq_config q)"
    "archive s" "at_home s home" "housed s home" for lib s home
proof
  fix d :: "'a disk" and q n
  assume d: "housed s home d" and q: "at_home s home q"
  let ?me = "sanitize (t_ID (sq_target q))"
  obtain repo shard where r: "repoPath s (sq_target q) = Some (repo, shard)" "rooted (gs_cwd s)" "rc_Content (sq_config q) \<noteq> []"
    "home ?me = file_path s shard (sq_target q)"
    using q by (auto simp: at_home_def split: option.splits)
  have placed: "\<forall>p\<in>set (Glob (Abs (gs_cwd s) (gs_BasePath s)) (?me @ ''.cfg'') d). p = file_path s shard (sq_target q)"
    using d r(4) unfolding housed_def by metis
  let ?S = "Save lib s (sq_now q) (sq_end q) (sq_ctx q) (sq_target q) (sq_config q) (sq_meta q) d"
  have "housed s home (snd (git_save lib s q d))
      \<and> (fst (git_save lib s q d) \<longrightarrow> archive s (snd (git_save lib s q d)) = (archive s d)(?me \<mapsto> rc_Content (sq_config q)))
      \<and> (\<forall>n. n \<noteq> ?me \<longrightarrow> archive s (snd (git_save lib s q d)) n = archive s d n)"
  proof (cases ?S)
    case None
    then show ?thesis using d by (simp add: git_save_def)
  next
    case (Some x)
    obtain res d' where x: "?S = Some (res, d')" using Some by (cases x) simp
    note h = Save_housed [OF r(2,1) x r(3,4) d] and a = Save_archive [OF r(2,1) x r(3) placed]
    show ?thesis using h a x by (cases res) (simp_all add: git_save_def)
  qed
  then show "housed s home (snd (git_save lib s q d))"
    "fst (git_save lib s q d) \<Longrightarrow> archive s (snd (git_save lib s q d)) = (archive s d)(?me \<mapsto> rc_Content (sq_config q))"
    "n \<noteq> ?me \<Longrightarrow> archive s (snd (git_save lib s q d)) n = archive s d n" by blast+
qed


section \<open>Two weak spots\<close>

text \<open>
  A file that already holds the content counts as unchanged as soon as some commit touched
  it: when an earlier save wrote the file but its commit failed, saving again reports the
  older commit and no change, and the content stays out of the history.
\<close>

lemma unchanged_without_commit:
  assumes "rooted (gs_cwd s)" "repoPath s t = Some (repo, shard)"
    and "\<forall>i. dk_fault d i = None" "dk_repos d (Abs (gs_cwd s) repo) = Some r"
    and "map_of (dk_files d) (file_path s shard t) = Some (rc_Content cfg)"
    and "latestCommitForFile lib r (Join (file_elems t) ''/'') = h" "h \<noteq> []"
  shows "\<exists>rv d'. Save lib s now now' None t cfg meta d = Some (Inr rv, d') \<and> \<not> r_Changed rv \<and> r_ID rv = h"
proof -
  obtain full where full: "configPath s repo t = Inr (Join (file_elems t) ''/'', full)"
    "Abs (gs_cwd s) full = file_path s shard t"
    using configPath_facts(3) [OF assms(1,2)] by (auto simp: file_path_def)
  show ?thesis
    using assms(2-) full
    by (simp add: Save_def disk_op_def openOrInit_def PlainOpen_def ReadFile_def plain_revision_def empty_revision_def Let_def)
qed

text \<open>Two identifiers that differ only in replaced characters share one file.\<close>

lemma sanitize_collision: "sanitize ''core/1'' = sanitize ''core_1''"
  by code_simp

text \<open>A shard count that is a multiple of \<open>2 ^ 32\<close> passes validation and makes every save panic.\<close>

lemma shard_count_panic: "shardKey t ShardByHash (2 ^ 32) = None"
  by (simp add: shardKey_def)

section \<open>An example\<close>

definition demo_store :: Store where
  "demo_store = New_store ''/srv'' ''data'' ShardBySite 0 [] []"

definition demo_target :: Target where
  "demo_target = empty_target\<lparr>t_ID := ''../../etc/passwd'', t_Vendor := ''cisco'', t_Site := ''ams/1''\<rparr>"

lemma demo_repo: "repoPath demo_store demo_target = Some (''data/site/ams_1'', ''ams_1'')"
  by code_simp

lemma demo_names:
  "rooted (gs_cwd demo_store)" "sanitize (t_ID demo_target) = ''etc_passwd''"
  "file_path demo_store ''ams_1'' demo_target = ''/srv/data/site/ams_1/cisco/etc_passwd.cfg''"
  "Join (file_elems demo_target) ''/'' = ''cisco/etc_passwd.cfg''"
  by code_simp+

theorem config_file_inside_witness:
  "\<exists>full. configPath demo_store ''data/site/ams_1'' demo_target = Inr (''cisco/etc_passwd.cfg'', full)
     \<and> Abs ''/srv'' full = ''/srv/data/site/ams_1/cisco/etc_passwd.cfg''"
proof -
  have "gs_cwd demo_store = ''/srv''" by (simp add: demo_store_def New_store_def)
  with config_file_inside [OF demo_names(1) demo_repo] demo_names(3,4) show ?thesis
    by (auto simp: file_path_def)
qed





end
