(* ===== verification/Metadata.thy ===== *)
theory Metadata
  imports Lease_Store Go_Crypto
begin

text \<open>
  The PostgreSQL metadata store, metadata/postgres/store.go, beyond the lease statements of
  \<open>Lease_Store\<close>: devices, jobs and results, revisions and diffs, the audit trail, users,
  roles and API tokens. A table is a list of rows, the latest insertion first, and each
  SQL statement of the source is a function on the tables. The environment \<open>pg_env\<close> decides
  how a statement ends (\<open>db_outcome\<close>), what \<open>now()\<close>, the clock and the random source give,
  how a timestamp is rounded (\<open>pe_ts\<close>) and how text is collated. JSON columns hold the
  value that was marshalled; that a string with invalid UTF-8 changes on the way, and that
  SQL leaves the order of rows with equal keys open, is not modelled (the latest insertion
  comes first).
\<close>

section \<open>Principals\<close>

text \<open>
  \<open>goxidized.Principal\<close>, with the fields the program reads and writes; its file is not
  part of the sources, its methods \<open>IsZero\<close> and \<open>HasPermission\<close> are parameters where they
  are used.
\<close>

record Principal =
  p_ActorID :: string
  p_ActorType :: string
  p_AuthMethod :: string
  p_Subject :: string
  p_DisplayName :: string
  p_Roles :: "string list"
  p_Permissions :: "string list"
  p_TokenID :: string
  p_ExpiresAt :: instant

definition empty_principal :: Principal where
  "empty_principal = \<lparr>p_ActorID = [], p_ActorType = [], p_AuthMethod = [], p_Subject = [],
     p_DisplayName = [], p_Roles = [], p_Permissions = [], p_TokenID = [], p_ExpiresAt = 0\<rparr>"

definition tokenHash :: "string \<Rightarrow> string" where
  "tokenHash token = EncodeToString (Sum256 token)"

section \<open>Tables\<close>

record job_row = Job +
  jb_created_at :: instant

record result_row =
  rs_job_id :: string
  rs_target_id :: string
  rs_status :: JobStatus
  rs_attempt :: int
  rs_error_text :: string
  rs_started_at :: instant
  rs_finished_at :: instant
  rs_duration_ms :: int
  rs_revision_id :: string

record version_row = Revision +
  v_commit_meta :: CommitMeta

record diff_row =
  df_target_id :: string
  df_from_revision :: string
  df_to_revision :: string
  df_added_lines :: int
  df_removed_lines :: int
  df_risk_level :: RiskLevel
  df_categories :: "string set"
  df_rule_hits :: "string set"
  df_diff_preview :: string
  df_created_at :: instant

record user_row =
  u_id :: string
  u_subject :: string
  u_display_name :: string

text \<open>The permissions of a role as \<open>json.Unmarshal\<close> reads the column into a \<open>[]string\<close>.\<close>

record role_row =
  ro_id :: string
  ro_permissions :: "go_error + string list"

record token_row =
  tk_id :: string
  tk_token_hash :: string
  tk_actor_id :: string
  tk_role_id :: string
  tk_token_type :: string
  tk_expires_at :: "instant option"
  tk_created_at :: instant
  tk_revoked_at :: "instant option"
  tk_last_used_at :: "instant option"

record tables =
  tb_devices :: "Target list"
  tb_backup_jobs :: "job_row list"
  tb_backup_results :: "result_row list"
  tb_config_versions :: "version_row list"
  tb_config_diffs :: "diff_row list"
  tb_audit_events :: "AuditEvent list"
  tb_users :: "user_row list"
  tb_roles :: "role_row list"
  tb_user_roles :: "(string \<times> string) list"
  tb_api_tokens :: "token_row list"

section \<open>Statements and transactions\<close>

record pg_env =
  pe_out :: "nat \<Rightarrow> db_outcome" \<comment> \<open>how the n-th statement ends\<close>
  pe_now :: "nat \<Rightarrow> instant" \<comment> \<open>\<open>now()\<close> of the n-th statement\<close>
  pe_clock :: "nat \<Rightarrow> instant" \<comment> \<open>\<open>time.Now()\<close> after n statements\<close>
  pe_rand :: "nat \<Rightarrow> go_error + string" \<comment> \<open>\<open>rand.Read\<close> of 16 bytes after n statements\<close>
  pe_ts :: "instant \<Rightarrow> instant"
  pe_le :: "string \<Rightarrow> string \<Rightarrow> bool" \<comment> \<open>the collation of the data base\<close>

record pg =
  pg_tables :: tables
  pg_sent :: nat

type_synonym 'a statement = "instant \<Rightarrow> tables \<Rightarrow> (go_error + 'a) \<times> tables"

text \<open>One statement outside a transaction.\<close>

definition exec :: "pg_env \<Rightarrow> 'a statement \<Rightarrow> pg \<Rightarrow> (go_error + 'a) \<times> pg" where
  "exec E f s =
     (let n = pg_sent s; (x, d) = f (pe_now E n) (pg_tables s); s' = s\<lparr>pg_sent := Suc n\<rparr>
      in case pe_out E n of
           DbOk \<Rightarrow> (x, s'\<lparr>pg_tables := d\<rparr>)
         | DbFailed e \<Rightarrow> (Inl e, s')
         | DbLost e \<Rightarrow> (Inl e, s'\<lparr>pg_tables := d\<rparr>))"

text \<open>Sequencing of fallible steps over the store: the first error ends the method.\<close>

definition and_then :: "('s \<Rightarrow> ('e + 'a) \<times> 's) \<Rightarrow> ('a \<Rightarrow> 's \<Rightarrow> ('e + 'b) \<times> 's) \<Rightarrow> 's \<Rightarrow> ('e + 'b) \<times> 's" where
  "and_then f g s = (case f s of (Inl e, s') \<Rightarrow> (Inl e, s') | (Inr x, s') \<Rightarrow> g x s')"

definition give :: "'a \<Rightarrow> 's \<Rightarrow> ('e + 'a) \<times> 's" where
  "give x s = (Inr x, s)"

definition error_of :: "('e + 'a) \<times> 's \<Rightarrow> 'e option \<times> 's" where
  "error_of r = (case r of (Inl e, s) \<Rightarrow> (Some e, s) | (Inr x, s) \<Rightarrow> (None, s))"

text \<open>
  The statements of a transaction after \<open>Begin\<close>, on a private copy of the tables; the last
  outcome is that of \<open>Commit\<close>, which may be lost after it took effect. On an error the
  deferred \<open>rollback\<close> leaves the tables as they were.
\<close>

fun tx_body :: "pg_env \<Rightarrow> unit statement list \<Rightarrow> nat \<Rightarrow> tables \<Rightarrow> (go_error + tables) \<times> nat" where
  "tx_body E [] n d = (Inr d, n)"
| "tx_body E (f # fs) n d =
     (case pe_out E n of
        DbOk \<Rightarrow> (case f (pe_now E n) d of
                   (Inl e, _) \<Rightarrow> (Inl e, Suc n)
                 | (Inr _, d') \<Rightarrow> tx_body E fs (Suc n) d')
      | DbFailed e \<Rightarrow> (Inl e, Suc n)
      | DbLost e \<Rightarrow> (Inl e, Suc n))"

definition transaction :: "pg_env \<Rightarrow> unit statement list \<Rightarrow> pg \<Rightarrow> go_error option \<times> pg" where
  "transaction E fs s =
     (let n = pg_sent s in
      case pe_out E n of
        DbFailed e \<Rightarrow> (Some e, s\<lparr>pg_sent := Suc n\<rparr>)
      | DbLost e \<Rightarrow> (Some e, s\<lparr>pg_sent := Suc n\<rparr>)
      | DbOk \<Rightarrow>
          (case tx_body E fs (Suc n) (pg_tables s) of
             (Inl e, m) \<Rightarrow> (Some e, s\<lparr>pg_sent := m\<rparr>)
           | (Inr d, m) \<Rightarrow>
               (case pe_out E m of
                  DbOk \<Rightarrow> (None, s\<lparr>pg_sent := Suc m, pg_tables := d\<rparr>)
                | DbFailed e \<Rightarrow> (Some e, s\<lparr>pg_sent := Suc m\<rparr>)
                | DbLost e \<Rightarrow> (Some e, s\<lparr>pg_sent := Suc m, pg_tables := d\<rparr>))))"

text \<open>\<open>pgx.ErrNoRows\<close>, and the error of a violated unique constraint.\<close>

definition ErrNoRows :: go_error where
  "ErrNoRows = errors_New ''no rows in result set''"

definition unique_violation :: go_error where
  "unique_violation = errors_New ''duplicate key value violates unique constraint''"

text \<open>Nanoseconds since 1970; \<open>newID\<close> falls back to them when there is no randomness.\<close>

definition UnixNano :: "instant \<Rightarrow> int" where
  "UnixNano t = wrap64 (t - 62135596800000000000)"

definition store_newID :: "pg_env \<Rightarrow> string \<Rightarrow> pg \<Rightarrow> string" where
  "store_newID E kind s =
     (case pe_rand E (pg_sent s) of
        Inl _ \<Rightarrow> kind @ ''-'' @ Itoa (UnixNano (pe_clock E (pg_sent s)))
      | Inr b \<Rightarrow> kind @ ''-'' @ EncodeToString b)"

text \<open>\<open>ORDER BY\<close>: insertion sort, rows with equal keys keep their order.\<close>

fun insert_by :: "('a \<Rightarrow> 'a \<Rightarrow> bool) \<Rightarrow> 'a \<Rightarrow> 'a list \<Rightarrow> 'a list" where
  "insert_by le x [] = [x]"
| "insert_by le x (y # ys) = (if le x y then x # y # ys else y # insert_by le x ys)"

definition order_by :: "('a \<Rightarrow> 'a \<Rightarrow> bool) \<Rightarrow> 'a list \<Rightarrow> 'a list" where
  "order_by le xs = foldr (insert_by le) xs []"

definition newest_first :: "('a \<Rightarrow> instant) \<Rightarrow> 'a list \<Rightarrow> 'a list" where
  "newest_first at rows = order_by (\<lambda>a b. at b \<le> at a) rows"


lemma set_insert_by [simp]: "set (insert_by le x ys) = insert x (set ys)"
  by (induction ys) auto

lemma set_order_by [simp]: "set (order_by le xs) = set xs"
  by (induction xs) (auto simp: order_by_def)

lemma distinct_insert_by: "distinct (map f (insert_by le x ys)) = distinct (map f (x # ys))"
  by (induction ys) auto

lemma distinct_order_by [simp]: "distinct (map f (order_by le xs)) = distinct (map f xs)"
proof (induction xs)
  case (Cons x xs)
  then show ?case using distinct_insert_by [of f le x "order_by le xs"]
    by (simp add: order_by_def image_Un) (metis set_order_by order_by_def)
qed (simp add: order_by_def)

section \<open>Devices\<close>

text \<open>The upsert of one device: the row with its id is replaced, or a new row comes first.\<close>

definition sql_upsert_device :: "Target \<Rightarrow> unit statement" where
  "sql_upsert_device d now db =
     (Inr (), db\<lparr>tb_devices :=
        (if \<exists>t\<in>set (tb_devices db). t_ID t = t_ID d
         then map (\<lambda>t. if t_ID t = t_ID d then d else t) (tb_devices db)
         else d # tb_devices db)\<rparr>)"

definition UpsertDevices :: "pg_env \<Rightarrow> Target list \<Rightarrow> pg \<Rightarrow> go_error option \<times> pg" where
  "UpsertDevices E devices = transaction E (map sql_upsert_device devices)"

definition ListDevices :: "pg_env \<Rightarrow> pg \<Rightarrow> (go_error + Target list) \<times> pg" where
  "ListDevices E = exec E (\<lambda>now db. (Inr (order_by (\<lambda>a b. pe_le E (t_ID a) (t_ID b)) (tb_devices db)), db))"

definition first_row :: "'a list \<Rightarrow> go_error + 'a" where
  "first_row rows = (case rows of [] \<Rightarrow> Inl ErrNoRows | r # _ \<Rightarrow> Inr r)"

definition GetDevice :: "pg_env \<Rightarrow> string \<Rightarrow> pg \<Rightarrow> (go_error + Target) \<times> pg" where
  "GetDevice E i = exec E (\<lambda>now db. (first_row (filter (\<lambda>t. t_ID t = i) (tb_devices db)), db))"

section \<open>Jobs and results\<close>

definition RecordJobStart :: "pg_env \<Rightarrow> Job \<Rightarrow> pg \<Rightarrow> (Job \<times> go_error option) \<times> pg" where
  "RecordJobStart E job s =
     (let now = pe_clock E (pg_sent s);
          job' = job\<lparr>j_ID := (if j_ID job = [] then store_newID E ''job'' s else j_ID job),
                    j_QueuedAt := (if IsZero (j_QueuedAt job) then now else j_QueuedAt job),
                    j_StartedAt := now,
                    j_UpdatedAt := now,
                    j_Status := (if j_Status job = StatusUnset then StatusRunning else j_Status job),
                    j_Attempt := (if j_Attempt job = 0 then 1 else j_Attempt job)\<rparr>;
          ts = pe_ts E;
          row = Job.extend (job'\<lparr>j_QueuedAt := ts (j_QueuedAt job'), j_StartedAt := ts now, j_UpdatedAt := ts now\<rparr>)
                  (job_row.fields (ts now));
          (r, s1) = exec E (\<lambda>_ db. (Inr (), db\<lparr>tb_backup_jobs := row # tb_backup_jobs db\<rparr>)) s
      in ((job', case r of Inl e \<Rightarrow> Some e | Inr _ \<Rightarrow> None), s1))"

text \<open>\<open>UPDATE backup_jobs\<close> touches every row with the id.\<close>

definition sql_finish_job :: "string \<Rightarrow> JobStatus \<Rightarrow> instant \<Rightarrow> unit statement" where
  "sql_finish_job i status at now db =
     (Inr (), db\<lparr>tb_backup_jobs :=
        map (\<lambda>r. if j_ID r = i then r\<lparr>j_Status := status, j_UpdatedAt := at\<rparr> else r) (tb_backup_jobs db)\<rparr>)"

definition sql_insert_result :: "result_row \<Rightarrow> unit statement" where
  "sql_insert_result row now db = (Inr (), db\<lparr>tb_backup_results := row # tb_backup_results db\<rparr>)"

definition RecordJobFinish :: "pg_env \<Rightarrow> JobResult \<Rightarrow> pg \<Rightarrow> go_error option \<times> pg" where
  "RecordJobFinish E res s =
     (let finished = (if IsZero (jr_FinishedAt res) then pe_clock E (pg_sent s) else jr_FinishedAt res);
          txt = (if jr_ErrorText res = []
                 then (case jr_Err res of None \<Rightarrow> [] | Some e \<Rightarrow> error_text e)
                 else jr_ErrorText res);
          ts = pe_ts E;
          row = \<lparr>rs_job_id = jr_JobID res, rs_target_id = jr_TargetID res, rs_status = jr_Status res,
                 rs_attempt = jr_Attempt res, rs_error_text = txt,
                 rs_started_at = ts (jr_StartedAt res), rs_finished_at = ts finished,
                 rs_duration_ms = go_div (jr_Duration res) Millisecond, rs_revision_id = jr_RevisionID res\<rparr>
      in transaction E [sql_finish_job (jr_JobID res) (jr_Status res) (ts finished), sql_insert_result row] s)"

definition store_limit :: "int \<Rightarrow> int" where
  "store_limit limit = (if limit \<le> 0 \<or> limit > 1000 then 100 else limit)"

definition ListJobs :: "pg_env \<Rightarrow> int \<Rightarrow> pg \<Rightarrow> (go_error + Job list) \<times> pg" where
  "ListJobs E limit =
     exec E (\<lambda>now db. (Inr (map Job.truncate (take (nat (store_limit limit)) (newest_first jb_created_at (tb_backup_jobs db)))), db))"

definition GetJob :: "pg_env \<Rightarrow> string \<Rightarrow> pg \<Rightarrow> (go_error + Job) \<times> pg" where
  "GetJob E i =
     exec E (\<lambda>now db. (map_sum id Job.truncate
       (first_row (newest_first jb_created_at (filter (\<lambda>r. j_ID r = i) (tb_backup_jobs db)))), db))"

section \<open>Revisions and diffs\<close>

text \<open>The row gets an identifier of its own, not the one of the revision.\<close>

definition SaveRevision :: "pg_env \<Rightarrow> Revision \<Rightarrow> CommitMeta \<Rightarrow> pg \<Rightarrow> go_error option \<times> pg" where
  "SaveRevision E rv meta s =
     (let rowID = store_newID E ''rev'' s;
          row = Revision.extend (rv\<lparr>r_ID := rowID, r_CreatedAt := pe_ts E (r_CreatedAt rv)\<rparr>) (version_row.fields meta)
      in error_of (exec E (\<lambda>_ db.
           if \<exists>v\<in>set (tb_config_versions db). r_ID v = rowID then (Inl unique_violation, db)
           else (Inr (), db\<lparr>tb_config_versions := row # tb_config_versions db\<rparr>)) s))"

definition SaveDiff :: "pg_env \<Rightarrow> DiffResult \<Rightarrow> pg \<Rightarrow> go_error option \<times> pg" where
  "SaveDiff E diff s =
     (let preview = (if length (d_UnifiedDiff diff) > 65535 then take 65535 (d_UnifiedDiff diff) else d_UnifiedDiff diff)
      in error_of (exec E (\<lambda>now db.
           (Inr (), db\<lparr>tb_config_diffs :=
             \<lparr>df_target_id = d_TargetID diff, df_from_revision = d_FromRevision diff, df_to_revision = d_ToRevision diff,
              df_added_lines = d_AddedLines diff, df_removed_lines = d_RemovedLines diff, df_risk_level = d_Risk diff,
              df_categories = d_Categories diff, df_rule_hits = d_RuleHits diff, df_diff_preview = preview,
              df_created_at = now\<rparr> # tb_config_diffs db\<rparr>)) s))"

definition ListRevisions :: "pg_env \<Rightarrow> string \<Rightarrow> int \<Rightarrow> pg \<Rightarrow> (go_error + Revision list) \<times> pg" where
  "ListRevisions E target limit =
     exec E (\<lambda>now db. (Inr (map Revision.truncate (take (nat (store_limit limit))
       (newest_first r_CreatedAt (filter (\<lambda>v. r_TargetID v = target) (tb_config_versions db))))), db))"

definition LatestRevision :: "pg_env \<Rightarrow> string \<Rightarrow> pg \<Rightarrow> (go_error + Revision) \<times> pg" where
  "LatestRevision E target =
     exec E (\<lambda>now db. (map_sum id Revision.truncate
       (first_row (newest_first r_CreatedAt (filter (\<lambda>v. r_TargetID v = target) (tb_config_versions db)))), db))"

section \<open>The audit trail\<close>

definition Audit :: "pg_env \<Rightarrow> AuditEvent \<Rightarrow> pg \<Rightarrow> go_error option \<times> pg" where
  "Audit E ev s =
     (let at = (if IsZero (ae_CreatedAt ev) then pe_clock E (pg_sent s) else ae_CreatedAt ev);
          row = ev\<lparr>ae_ID := (if ae_ID ev = [] then store_newID E ''audit'' s else ae_ID ev),
                  ae_CreatedAt := pe_ts E at\<rparr>
      in error_of (exec E (\<lambda>_ db. (Inr (), db\<lparr>tb_audit_events := row # tb_audit_events db\<rparr>)) s))"

definition ListAuditEvents :: "pg_env \<Rightarrow> int \<Rightarrow> pg \<Rightarrow> (go_error + AuditEvent list) \<times> pg" where
  "ListAuditEvents E limit =
     exec E (\<lambda>now db. (Inr (take (nat (store_limit limit)) (newest_first ae_CreatedAt (tb_audit_events db))), db))"

section \<open>Users, roles and tokens\<close>

text \<open>The roles of a user in the order of their identifiers, with their permissions.\<close>

definition sql_user_roles :: "pg_env \<Rightarrow> string \<Rightarrow> role_row list statement" where
  "sql_user_roles E user now db =
     (Inr (order_by (\<lambda>a b. pe_le E (ro_id a) (ro_id b))
        (filter (\<lambda>r. (user, ro_id r) \<in> set (tb_user_roles db)) (tb_roles db))), db)"

text \<open>The loop over the rows: role identifiers in order, and the union of the permissions.\<close>

fun collect_roles :: "role_row list \<Rightarrow> string list \<Rightarrow> string list \<Rightarrow> go_error + string list \<times> string list" where
  "collect_roles [] roles perms = Inr (roles, perms)"
| "collect_roles (r # rs) roles perms =
     (case ro_permissions r of
        Inl e \<Rightarrow> Inl e
      | Inr ps \<Rightarrow> collect_roles rs (roles @ [ro_id r]) (perms @ ps))"

text \<open>\<open>sortedKeys\<close> of the set with these members.\<close>

definition sortedKeys :: "string list \<Rightarrow> string list" where
  "sortedKeys members = sort_strings (remdups members)"

definition withRoles :: "pg_env \<Rightarrow> Principal \<Rightarrow> pg \<Rightarrow> (go_error + Principal) \<times> pg" where
  "withRoles E p =
     and_then (exec E (sql_user_roles E (p_ActorID p))) (\<lambda>rows s.
       (case collect_roles rows (p_Roles p) [] of
          Inl e \<Rightarrow> (Inl e, s)
        | Inr (roles, perms) \<Rightarrow> (Inr (p\<lparr>p_Roles := roles, p_Permissions := sortedKeys perms\<rparr>), s)))"

definition user_principal :: "user_row \<Rightarrow> Principal" where
  "user_principal u = empty_principal\<lparr>p_ActorID := u_id u, p_Subject := u_subject u,
     p_DisplayName := u_display_name u, p_ActorType := ''user''\<rparr>"

definition principalBySubject :: "pg_env \<Rightarrow> string \<Rightarrow> pg \<Rightarrow> (go_error + Principal) \<times> pg" where
  "principalBySubject E subject =
     and_then (exec E (\<lambda>now db. (first_row (filter (\<lambda>u. u_subject u = subject) (tb_users db)), db)))
       (\<lambda>u. withRoles E (user_principal u))"

definition principalByUserID :: "pg_env \<Rightarrow> string \<Rightarrow> pg \<Rightarrow> (go_error + Principal) \<times> pg" where
  "principalByUserID E userID =
     and_then (exec E (\<lambda>now db. (first_row (filter (\<lambda>u. u_id u = userID) (tb_users db)), db)))
       (\<lambda>u. withRoles E (user_principal u))"

definition permissionsForRole :: "pg_env \<Rightarrow> string \<Rightarrow> pg \<Rightarrow> (go_error + string list) \<times> pg" where
  "permissionsForRole E role =
     and_then (exec E (\<lambda>now db. (first_row (filter (\<lambda>r. ro_id r = role) (tb_roles db)), db)))
       (\<lambda>r s. (map_sum id sort_strings (ro_permissions r), s))"

text \<open>The \<open>UPDATE api_tokens ... RETURNING\<close> that accepts a token and notes its use.\<close>

definition token_accepted :: "string \<Rightarrow> instant \<Rightarrow> token_row \<Rightarrow> bool" where
  "token_accepted h now r \<longleftrightarrow>
     tk_token_hash r = h \<and> tk_revoked_at r = None
     \<and> (case tk_expires_at r of None \<Rightarrow> True | Some e \<Rightarrow> e > now)"

definition sql_use_token :: "string \<Rightarrow> token_row statement" where
  "sql_use_token h now db =
     (first_row (filter (token_accepted h now) (tb_api_tokens db)),
      db\<lparr>tb_api_tokens := map (\<lambda>r. if token_accepted h now r then r\<lparr>tk_last_used_at := Some now\<rparr> else r)
           (tb_api_tokens db)\<rparr>)"

definition token_expiry :: "token_row \<Rightarrow> Principal \<Rightarrow> Principal" where
  "token_expiry r p = (case tk_expires_at r of None \<Rightarrow> p | Some e \<Rightarrow> p\<lparr>p_ExpiresAt := e\<rparr>)"

definition ValidateAuthToken :: "pg_env \<Rightarrow> string \<Rightarrow> pg \<Rightarrow> (go_error + Principal) \<times> pg" where
  "ValidateAuthToken E token s =
     (if token = [] then (Inl ErrNoRows, s)
      else and_then (exec E (sql_use_token (tokenHash token))) (\<lambda>r.
        if tk_token_type r = ''oidc_session''
        then and_then (principalByUserID E (tk_actor_id r))
               (\<lambda>p. give (token_expiry r (p\<lparr>p_AuthMethod := ''oidc_session'', p_TokenID := tk_id r\<rparr>)))
        else and_then (permissionsForRole E (tk_role_id r))
               (\<lambda>perms. give (token_expiry r (empty_principal\<lparr>p_ActorID := tk_actor_id r,
                  p_ActorType := ''api_token'', p_AuthMethod := ''api_token'',
                  p_Roles := [tk_role_id r], p_Permissions := perms, p_TokenID := tk_id r\<rparr>)))) s)"

definition ValidateAPIToken :: "pg_env \<Rightarrow> string \<Rightarrow> pg \<Rightarrow> (go_error + string) \<times> pg" where
  "ValidateAPIToken E token = and_then (ValidateAuthToken E token) (\<lambda>p. give (p_ActorID p))"

definition ResolveOIDCPrincipal :: "pg_env \<Rightarrow> string \<Rightarrow> pg \<Rightarrow> (go_error + Principal) \<times> pg" where
  "ResolveOIDCPrincipal E subject s =
     (if subject = [] then (Inl ErrNoRows, s)
      else and_then (principalBySubject E subject) (\<lambda>p s.
        if p_Roles p = [] then (Inl (errors_New ''oidc user has no roles''), s)
        else (Inr (p\<lparr>p_AuthMethod := ''oidc''\<rparr>), s)) s)"

text \<open>The insertion of a session: the identifier and the hash are unique in the table.\<close>

definition sql_insert_token :: "token_row \<Rightarrow> unit statement" where
  "sql_insert_token row now db =
     (if \<exists>r\<in>set (tb_api_tokens db). tk_id r = tk_id row \<or> tk_token_hash r = tk_token_hash row
      then (Inl unique_violation, db)
      else (Inr (), db\<lparr>tb_api_tokens := row\<lparr>tk_created_at := now\<rparr> # tb_api_tokens db\<rparr>))"

definition CreateOIDCSession :: "pg_env \<Rightarrow> string \<Rightarrow> Principal \<Rightarrow> instant \<Rightarrow> pg \<Rightarrow> (go_error + string) \<times> pg" where
  "CreateOIDCSession E h p expiresAt s =
     (if h = [] then (Inl (errors_New ''session token hash is required''), s)
      else if p_ActorID p = [] then (Inl (errors_New ''session principal actor id is required''), s)
      else if p_Roles p = [] then (Inl (errors_New ''session principal must have at least one role''), s)
      else if IsZero expiresAt then (Inl (errors_New ''session expiry is required''), s)
      else (let i = store_newID E ''sess'' s;
                row = \<lparr>tk_id = i, tk_token_hash = h, tk_actor_id = p_ActorID p, tk_role_id = hd (p_Roles p),
                       tk_token_type = ''oidc_session'', tk_expires_at = Some (pe_ts E expiresAt),
                       tk_created_at = 0, tk_revoked_at = None, tk_last_used_at = None\<rparr>
            in and_then (exec E (sql_insert_token row)) (\<lambda>_. give i) s))"

definition sql_revoke_token :: "string \<Rightarrow> unit statement" where
  "sql_revoke_token h now db =
     (Inr (), db\<lparr>tb_api_tokens :=
        map (\<lambda>r. if tk_token_hash r = h \<and> tk_revoked_at r = None then r\<lparr>tk_revoked_at := Some now\<rparr> else r)
          (tb_api_tokens db)\<rparr>)"

definition RevokeAuthToken :: "pg_env \<Rightarrow> string \<Rightarrow> pg \<Rightarrow> go_error option \<times> pg" where
  "RevokeAuthToken E token s =
     (if token = [] then (None, s)
      else error_of (exec E (sql_revoke_token (tokenHash token)) s))"

section \<open>Opening and migrating\<close>

text \<open>
  \<open>Open\<close>, with the outcomes of creating the pool and of the ping. \<open>Migrate\<close> over the
  embedded directory: its entries with name, kind and content; \<open>applied\<close> are the versions
  of \<open>schema_migrations\<close>, \<open>run\<close> the effect of the SQL of a file. The outcomes of the
  statements are given per entry: begin, script, insertion, commit.
\<close>

definition Open :: "string \<Rightarrow> go_error option \<Rightarrow> go_error option \<Rightarrow> go_error option" where
  "Open dsn pool_err ping_err =
     (if dsn = [] then Some (errors_New ''postgres DSN is required'')
      else case pool_err of Some e \<Rightarrow> Some e | None \<Rightarrow> ping_err)"

record migration =
  mg_name :: string
  mg_is_dir :: bool
  mg_data :: "go_error + string"

record 'd schema =
  sc_data :: 'd
  sc_applied :: "string list"

type_synonym 'd migrate_env = "string \<Rightarrow> bool \<times> go_error option \<times> go_error option \<times> go_error option \<times> db_outcome"

definition apply_migration :: "(string \<Rightarrow> 'd \<Rightarrow> 'd) \<Rightarrow> 'd migrate_env \<Rightarrow> migration \<Rightarrow> 'd schema \<Rightarrow> go_error option \<times> 'd schema" where
  "apply_migration run env m s =
     (let version = mg_name m; (query_ok, begin_err, script_err, insert_err, commit) = env version
      in if mg_is_dir m \<or> \<not> HasSuffix version ''.sql'' then (None, s)
         else if query_ok \<and> version \<in> set (sc_applied s) then (None, s)
         else case mg_data m of
           Inl e \<Rightarrow> (Some e, s)
         | Inr sql \<Rightarrow>
             (case begin_err of Some e \<Rightarrow> (Some e, s) | None \<Rightarrow>
             (case script_err of Some e \<Rightarrow> (Some (Wrapf ''apply migration %s: %w'' [version] e), s) | None \<Rightarrow>
             (case insert_err of Some e \<Rightarrow> (Some e, s) | None \<Rightarrow>
              (let s' = \<lparr>sc_data = run sql (sc_data s),
                         sc_applied = (if version \<in> set (sc_applied s) then sc_applied s else sc_applied s @ [version])\<rparr>
               in case commit of DbOk \<Rightarrow> (None, s') | DbFailed e \<Rightarrow> (Some e, s) | DbLost e \<Rightarrow> (Some e, s'))))))"

fun migrate_loop :: "(string \<Rightarrow> 'd \<Rightarrow> 'd) \<Rightarrow> 'd migrate_env \<Rightarrow> migration list \<Rightarrow> 'd schema \<Rightarrow> go_error option \<times> 'd schema" where
  "migrate_loop run env [] s = (None, s)"
| "migrate_loop run env (m # ms) s =
     (case apply_migration run env m s of
        (Some e, s') \<Rightarrow> (Some e, s')
      | (None, s') \<Rightarrow> migrate_loop run env ms s')"

definition Migrate :: "(string \<Rightarrow> 'd \<Rightarrow> 'd) \<Rightarrow> 'd migrate_env \<Rightarrow> go_error + migration list \<Rightarrow> 'd schema \<Rightarrow> go_error option \<times> 'd schema" where
  "Migrate run env entries s =
     (case entries of
        Inl e \<Rightarrow> (Some e, s)
      | Inr ms \<Rightarrow> migrate_loop run env (order_by (\<lambda>a b. \<not> str_less (mg_name b) (mg_name a)) ms) s)"

section \<open>The device table\<close>

text \<open>The table as a map from identifiers; the primary key makes the identifiers distinct.\<close>

definition device_map :: "tables \<Rightarrow> string \<rightharpoonup> Target" where
  "device_map db = map_of (map (\<lambda>t. (t_ID t, t)) (tb_devices db))"

definition devices_keyed :: "tables \<Rightarrow> bool" where
  "devices_keyed db \<longleftrightarrow> distinct (map t_ID (tb_devices db))"

lemma map_of_replace:
  "map_of (map (\<lambda>t. (t_ID t, t)) (map (\<lambda>t. if t_ID t = t_ID d then d else t) ts))
   = (if \<exists>t\<in>set ts. t_ID t = t_ID d then (map_of (map (\<lambda>t. (t_ID t, t)) ts))(t_ID d \<mapsto> d)
      else map_of (map (\<lambda>t. (t_ID t, t)) ts))"
  by (induction ts) (auto simp: fun_eq_iff)

lemma ids_replace: "map t_ID (map (\<lambda>t. if t_ID t = t_ID d then d else t) ts) = map t_ID ts"
  by (induction ts) auto

lemma upsert_device:
  assumes "sql_upsert_device d now db = (r, db')"
  shows "r = Inr ()" "device_map db' = (device_map db)(t_ID d \<mapsto> d)" "devices_keyed db \<Longrightarrow> devices_keyed db'"
    "db'\<lparr>tb_devices := tb_devices db\<rparr> = db"
proof -
  show "r = Inr ()" using assms by (simp add: sql_upsert_device_def)
  show "device_map db' = (device_map db)(t_ID d \<mapsto> d)"
    using assms by (auto simp: sql_upsert_device_def device_map_def map_of_replace simp del: map_map)
  show "devices_keyed db'" if "devices_keyed db"
    using assms that
    by (cases "\<exists>t\<in>set (tb_devices db). t_ID t = t_ID d")
       (fastforce simp: sql_upsert_device_def devices_keyed_def ids_replace simp del: map_map)+
  show "db'\<lparr>tb_devices := tb_devices db\<rparr> = db"
    using assms by (auto simp: sql_upsert_device_def)
qed

definition upsert_map :: "Target list \<Rightarrow> (string \<rightharpoonup> Target) \<Rightarrow> string \<rightharpoonup> Target" where
  "upsert_map ds m = fold (\<lambda>d m. m(t_ID d \<mapsto> d)) ds m"

text \<open>What a transaction may change, as an invariant of its statements.\<close>

lemma tx_body_device:
  assumes "tx_body E (map sql_upsert_device ds) n db = (Inr db', m)"
  shows "device_map db' = upsert_map ds (device_map db) \<and> (devices_keyed db \<longrightarrow> devices_keyed db')
    \<and> db'\<lparr>tb_devices := tb_devices db\<rparr> = db"
  using assms
proof (induction ds arbitrary: n db)
  case Nil
  then show ?case by (simp add: upsert_map_def)
next
  case (Cons d ds)
  obtain r db1 where u: "sql_upsert_device d (pe_now E n) db = (r, db1)" by fastforce
  note up = upsert_device [OF u]
  from Cons.prems u up(1) have b: "tx_body E (map sql_upsert_device ds) (Suc n) db1 = (Inr db', m)"
    by (auto split: db_outcome.splits)
  note ih = Cons.IH [OF b]
  have "device_map db' = upsert_map (d # ds) (device_map db)"
    using ih unfolding up(2) upsert_map_def by (simp del: fun_upd_apply)
  moreover have "devices_keyed db \<longrightarrow> devices_keyed db'" using ih up(3) by blast
  moreover have "db'\<lparr>tb_devices := tb_devices db1\<rparr> = db1" using ih by blast
  moreover have "db'\<lparr>tb_devices := tb_devices db\<rparr> = db"
    using calculation(3) up(4) by (metis tables.unfold_congs(1) tables.update_convs(1) tables.surjective)
  ultimately show ?case by simp
qed

lemma transaction_cases:
  assumes "transaction E fs s = (r, s')"
  obtains (rolled_back) e where "r = Some e" "pg_tables s' = pg_tables s"
  | (committed) d n m where "tx_body E fs n (pg_tables s) = (Inr d, m)" "pg_tables s' = d"
  using assms unfolding transaction_def Let_def
  by (auto split: db_outcome.splits prod.splits sum.splits)

lemma transaction_None:
  assumes "transaction E fs s = (None, s')"
  obtains d n m where "tx_body E fs n (pg_tables s) = (Inr d, m)" "pg_tables s' = d"
  using assms by (cases rule: transaction_cases) auto

lemma map_of_keyed:
  "distinct (map t_ID ts) \<Longrightarrow> t \<in> set ts \<Longrightarrow> map_of (map (\<lambda>t. (t_ID t, t)) ts) (t_ID t) = Some t"
  by (auto intro!: map_of_is_SomeI simp: o_def)

lemma device_map_iff:
  "devices_keyed db \<Longrightarrow> device_map db i = Some t \<longleftrightarrow> t \<in> set (tb_devices db) \<and> t_ID t = i"
proof
  assume "devices_keyed db" "device_map db i = Some t"
  from map_of_SomeD [OF this(2) [unfolded device_map_def]]
  show "t \<in> set (tb_devices db) \<and> t_ID t = i" by auto
next
  assume "devices_keyed db" "t \<in> set (tb_devices db) \<and> t_ID t = i"
  then show "device_map db i = Some t"
    using map_of_keyed [of "tb_devices db" t] by (auto simp: device_map_def devices_keyed_def)
qed

lemma exec_ok: "pe_out E (pg_sent s) = DbOk \<Longrightarrow> exec E f s =
   (case f (pe_now E (pg_sent s)) (pg_tables s) of (x, d) \<Rightarrow> (x, s\<lparr>pg_sent := Suc (pg_sent s), pg_tables := d\<rparr>))"
  by (simp add: exec_def Let_def split: prod.splits)

lemma GetDevice_map:
  assumes "devices_keyed (pg_tables s)" "pe_out E (pg_sent s) = DbOk"
  shows "fst (GetDevice E i s) = (case device_map (pg_tables s) i of None \<Rightarrow> Inl ErrNoRows | Some t \<Rightarrow> Inr t)"
proof (cases "filter (\<lambda>t. t_ID t = i) (tb_devices (pg_tables s))")
  case Nil
  then have "device_map (pg_tables s) i = None"
    using assms(1) by (cases "device_map (pg_tables s) i") (auto simp: device_map_iff filter_empty_conv)
  with Nil assms(2) show ?thesis by (simp add: GetDevice_def exec_ok first_row_def)
next
  case (Cons t ts)
  then have "t \<in> set (filter (\<lambda>t. t_ID t = i) (tb_devices (pg_tables s)))" by simp
  then have "device_map (pg_tables s) i = Some t" using assms(1) by (auto simp: device_map_iff)
  with Cons assms(2) show ?thesis by (simp add: GetDevice_def exec_ok first_row_def)
qed

lemma UpsertDevices_spec:
  assumes "devices_keyed (pg_tables s)" "UpsertDevices E ds s = (r, s')"
  shows "devices_keyed (pg_tables s')
    \<and> (pg_tables s')\<lparr>tb_devices := tb_devices (pg_tables s)\<rparr> = pg_tables s
    \<and> (r = None \<longrightarrow> device_map (pg_tables s') = upsert_map ds (device_map (pg_tables s)))
    \<and> device_map (pg_tables s') \<in> {device_map (pg_tables s), upsert_map ds (device_map (pg_tables s))}
    \<and> (pe_out E (pg_sent s') = DbOk \<longrightarrow>
         fst (GetDevice E i s') = (case device_map (pg_tables s') i of None \<Rightarrow> Inl ErrNoRows | Some t \<Rightarrow> Inr t)
         \<and> (\<exists>ts. fst (ListDevices E s') = Inr ts \<and> distinct (map t_ID ts)
              \<and> set ts = ran (device_map (pg_tables s'))))"
proof -
  have st: "devices_keyed (pg_tables s')
    \<and> (pg_tables s')\<lparr>tb_devices := tb_devices (pg_tables s)\<rparr> = pg_tables s
    \<and> (r = None \<longrightarrow> device_map (pg_tables s') = upsert_map ds (device_map (pg_tables s)))
    \<and> device_map (pg_tables s') \<in> {device_map (pg_tables s), upsert_map ds (device_map (pg_tables s))}"
    using assms(2) unfolding UpsertDevices_def
  proof (cases rule: transaction_cases)
    case (rolled_back e)
    then show ?thesis using assms(1) by simp
  next
    case (committed d n m)
    from tx_body_device [OF committed(1)] committed(2) show ?thesis using assms(1) by simp
  qed
  have "set (tb_devices (pg_tables s')) = ran (device_map (pg_tables s'))"
    using st by (auto simp: ran_def device_map_iff)
  moreover have "distinct (map t_ID (tb_devices (pg_tables s')))" using st by (simp add: devices_keyed_def)
  ultimately show ?thesis using st
    by (simp add: GetDevice_map ListDevices_def exec_ok)
qed

text \<open>
  C14: the device table is a map. An upsert of a list of devices that reports success
  overrides the map with the devices in order, so that the last of several with one
  identifier wins; one that fails leaves the map as it was or, when the commit was lost,
  took effect as a whole; nothing else is touched and identifiers stay unique. Afterwards
  a device is read back as the map has it, and the listing has every device once.
\<close>

theorem UpsertDevices_refines_map:
  assumes "devices_keyed (pg_tables s)" "UpsertDevices E ds s = (r, s')"
  shows "devices_keyed (pg_tables s')
    \<and> (pg_tables s')\<lparr>tb_devices := tb_devices (pg_tables s)\<rparr> = pg_tables s
    \<and> (r = None \<longrightarrow> device_map (pg_tables s') = upsert_map ds (device_map (pg_tables s)))
    \<and> device_map (pg_tables s') \<in> {device_map (pg_tables s), upsert_map ds (device_map (pg_tables s))}
    \<and> (pe_out E (pg_sent s') = DbOk \<longrightarrow>
         fst (GetDevice E i s') = (case device_map (pg_tables s') i of None \<Rightarrow> Inl ErrNoRows | Some t \<Rightarrow> Inr t)
         \<and> (\<exists>ts. fst (ListDevices E s') = Inr ts \<and> distinct (map t_ID ts)
              \<and> set ts = ran (device_map (pg_tables s'))))"
  using assms by (rule UpsertDevices_spec)

definition demo_env :: pg_env where
  "demo_env = \<lparr>pe_out = (\<lambda>_. DbOk), pe_now = (\<lambda>n. 1000 + int n), pe_clock = (\<lambda>n. 2000 + int n),
     pe_rand = (\<lambda>n. Inr [char_of n]), pe_ts = (\<lambda>t. t), pe_le = (\<lambda>a b. \<not> str_less b a)\<rparr>"

definition empty_tables :: tables where
  "empty_tables = \<lparr>tb_devices = [], tb_backup_jobs = [], tb_backup_results = [], tb_config_versions = [],
     tb_config_diffs = [], tb_audit_events = [], tb_users = [], tb_roles = [], tb_user_roles = [],
     tb_api_tokens = []\<rparr>"

definition demo_device :: "string \<Rightarrow> string \<Rightarrow> Target" where
  "demo_device i h = empty_target\<lparr>t_ID := i, t_Hostname := h\<rparr>"

definition demo_pg :: pg where
  "demo_pg = \<lparr>pg_tables = empty_tables\<lparr>tb_devices := [demo_device ''b'' ''old'']\<rparr>, pg_sent = 0\<rparr>"

definition demo_upsert :: "go_error option \<times> pg" where
  "demo_upsert = UpsertDevices demo_env [demo_device ''b'' ''new'', demo_device ''a'' ''x'', demo_device ''b'' ''newer''] demo_pg"

theorem UpsertDevices_refines_map_witness:
  "fst demo_upsert = None \<and> device_map (pg_tables (snd demo_upsert)) ''b'' = Some (demo_device ''b'' ''newer'')
   \<and> fst (GetDevice demo_env ''b'' (snd demo_upsert)) = Inr (demo_device ''b'' ''newer'')
   \<and> devices_keyed (pg_tables (snd demo_upsert))"
proof -
  let ?ds = "[demo_device ''b'' ''new'', demo_device ''a'' ''x'', demo_device ''b'' ''newer'']"
  have k: "devices_keyed (pg_tables demo_pg)" by code_simp
  have u: "UpsertDevices demo_env ?ds demo_pg = (fst demo_upsert, snd demo_upsert)"
    by (simp add: demo_upsert_def)
  have ok: "fst demo_upsert = None" by code_simp
  have b: "upsert_map ?ds (device_map (pg_tables demo_pg)) ''b'' = Some (demo_device ''b'' ''newer'')"
    by (simp add: upsert_map_def demo_device_def)
  have out: "pe_out demo_env (pg_sent (snd demo_upsert)) = DbOk" by (simp add: demo_env_def)
  note refines = UpsertDevices_refines_map [OF k u, of "''b''"]
  have "device_map (pg_tables (snd demo_upsert)) ''b'' = Some (demo_device ''b'' ''newer'')"
    using refines ok b by presburger
  with refines ok out show ?thesis by simp
qed

section \<open>What an accepted token grants\<close>

text \<open>The permissions of a token by the tables: of the user's roles for a session, of the token's role otherwise.\<close>

definition user_permissions :: "tables \<Rightarrow> string \<Rightarrow> string set" where
  "user_permissions db user =
     \<Union> {set ps | r ps. r \<in> set (tb_roles db) \<and> (user, ro_id r) \<in> set (tb_user_roles db) \<and> ro_permissions r = Inr ps}"

definition granted :: "tables \<Rightarrow> token_row \<Rightarrow> string set \<Rightarrow> bool" where
  "granted db r perms \<longleftrightarrow>
     (if tk_token_type r = ''oidc_session'' then perms = user_permissions db (tk_actor_id r)
      else \<exists>role\<in>set (tb_roles db). \<exists>ps. ro_id role = tk_role_id r \<and> ro_permissions role = Inr ps \<and> perms = set ps)"

lemma first_row_Inr: "first_row rows = Inr r \<Longrightarrow> r \<in> set rows"
  by (cases rows) (auto simp: first_row_def)

lemma exec_Inr:
  assumes "exec E f s = (Inr x, s')"
  shows "f (pe_now E (pg_sent s)) (pg_tables s) = (Inr x, pg_tables s') \<and> pg_sent s' = Suc (pg_sent s)"
  using assms by (auto simp: exec_def Let_def split: prod.splits db_outcome.splits)

lemma and_then_Inr:
  assumes "and_then f g s = (Inr y, s')"
  obtains x s1 where "f s = (Inr x, s1)" "g x s1 = (Inr y, s')"
  using assms by (auto simp: and_then_def split: prod.splits sum.splits)

lemma collect_roles_Inr:
  "collect_roles rows roles perms = Inr (roles', perms') \<Longrightarrow>
   roles' = roles @ map ro_id rows
   \<and> set perms' = set perms \<union> \<Union> {set ps | r ps. r \<in> set rows \<and> ro_permissions r = Inr ps}
   \<and> (\<forall>r\<in>set rows. \<exists>ps. ro_permissions r = Inr ps)"
proof (induction rows roles perms rule: collect_roles.induct)
  case (2 r rs roles perms)
  then obtain ps where ps: "ro_permissions r = Inr ps" by (auto split: sum.splits)
  with 2 have ih: "roles' = (roles @ [ro_id r]) @ map ro_id rs"
    "set perms' = set (perms @ ps) \<union> \<Union> {set ps | r ps. r \<in> set rs \<and> ro_permissions r = Inr ps}"
    "\<forall>r\<in>set rs. \<exists>ps. ro_permissions r = Inr ps" by auto
  have "\<Union> {set ps | r' ps. r' \<in> set (r # rs) \<and> ro_permissions r' = Inr ps}
      = set ps \<union> \<Union> {set ps | r ps. r \<in> set rs \<and> ro_permissions r = Inr ps}"
    using ps by auto
  with ih ps show ?case by auto
qed simp

lemma set_sortedKeys [simp]: "set (sortedKeys xs) = set xs"
  by (simp add: sortedKeys_def)

lemma withRoles_Inr:
  assumes "withRoles E p s = (Inr q, s')"
  shows "pg_tables s' = pg_tables s \<and> p_ActorID q = p_ActorID p
    \<and> set (p_Permissions q) = user_permissions (pg_tables s) (p_ActorID p)"
proof -
  from assms obtain rows s1 where r: "exec E (sql_user_roles E (p_ActorID p)) s = (Inr rows, s1)"
    and c: "(case collect_roles rows (p_Roles p) [] of Inl e \<Rightarrow> (Inl e, s1)
        | Inr (roles, perms) \<Rightarrow> (Inr (p\<lparr>p_Roles := roles, p_Permissions := sortedKeys perms\<rparr>), s1)) = (Inr q, s')"
    unfolding withRoles_def by (rule and_then_Inr)
  from c obtain roles perms where cr: "collect_roles rows (p_Roles p) [] = Inr (roles, perms)"
    "q = p\<lparr>p_Roles := roles, p_Permissions := sortedKeys perms\<rparr>" "s' = s1"
    by (auto split: sum.splits prod.splits)
  from exec_Inr [OF r] have t: "pg_tables s1 = pg_tables s"
    "set rows = {x \<in> set (tb_roles (pg_tables s)). (p_ActorID p, ro_id x) \<in> set (tb_user_roles (pg_tables s))}"
    by (auto simp: sql_user_roles_def)
  from collect_roles_Inr [OF cr(1)]
  have "set perms = user_permissions (pg_tables s) (p_ActorID p)"
    unfolding t(2) user_permissions_def by auto
  with cr t show ?thesis by simp
qed

lemma principalByUserID_Inr:
  assumes "principalByUserID E user s = (Inr p, s')"
  shows "pg_tables s' = pg_tables s \<and> p_ActorID p = user
    \<and> set (p_Permissions p) = user_permissions (pg_tables s) user"
proof -
  from assms obtain u s1 where u: "exec E (\<lambda>now db. (first_row (filter (\<lambda>u. u_id u = user) (tb_users db)), db)) s = (Inr u, s1)"
    and w: "withRoles E (user_principal u) s1 = (Inr p, s')"
    unfolding principalByUserID_def by (rule and_then_Inr)
  from exec_Inr [OF u] have "pg_tables s1 = pg_tables s" "u_id u = user"
    by (auto dest: first_row_Inr)
  with withRoles_Inr [OF w] show ?thesis by (simp add: user_principal_def)
qed

lemma permissionsForRole_Inr:
  assumes "permissionsForRole E role s = (Inr perms, s')"
  shows "pg_tables s' = pg_tables s
    \<and> (\<exists>r\<in>set (tb_roles (pg_tables s)). \<exists>ps. ro_id r = role \<and> ro_permissions r = Inr ps \<and> set perms = set ps)"
proof -
  from assms obtain r s1 where r: "exec E (\<lambda>now db. (first_row (filter (\<lambda>r. ro_id r = role) (tb_roles db)), db)) s = (Inr r, s1)"
    and w: "(map_sum id sort_strings (ro_permissions r), s1) = (Inr perms, s')"
    unfolding permissionsForRole_def by (rule and_then_Inr)
  from exec_Inr [OF r] have "pg_tables s1 = pg_tables s" "r \<in> set (tb_roles (pg_tables s))" "ro_id r = role"
    by (auto dest: first_row_Inr)
  with w show ?thesis by (cases "ro_permissions r") auto
qed

lemma token_expiry_simps [simp]:
  "p_ActorID (token_expiry r p) = p_ActorID p" "p_Permissions (token_expiry r p) = p_Permissions p"
  "p_TokenID (token_expiry r p) = p_TokenID p" "p_AuthMethod (token_expiry r p) = p_AuthMethod p"
  by (simp_all add: token_expiry_def split: option.splits)

lemma sql_use_token_roles:
  "sql_use_token h now db = (x, db') \<Longrightarrow>
   tb_roles db' = tb_roles db \<and> tb_user_roles db' = tb_user_roles db"
  by (auto simp: sql_use_token_def)

lemma validated_token:
  assumes "ValidateAuthToken E token s = (Inr p, s')"
  obtains r where "token \<noteq> []" "r \<in> set (tb_api_tokens (pg_tables s))"
    "token_accepted (tokenHash token) (pe_now E (pg_sent s)) r"
    "p_ActorID p = tk_actor_id r" "p_TokenID p = tk_id r" "granted (pg_tables s) r (set (p_Permissions p))"
proof -
  have ne: "token \<noteq> []" using assms by (auto simp: ValidateAuthToken_def)
  from assms ne obtain r s1 where x: "exec E (sql_use_token (tokenHash token)) s = (Inr r, s1)"
    and y: "(if tk_token_type r = ''oidc_session''
        then and_then (principalByUserID E (tk_actor_id r))
               (\<lambda>p. give (token_expiry r (p\<lparr>p_AuthMethod := ''oidc_session'', p_TokenID := tk_id r\<rparr>)))
        else and_then (permissionsForRole E (tk_role_id r))
               (\<lambda>perms. give (token_expiry r (empty_principal\<lparr>p_ActorID := tk_actor_id r,
                  p_ActorType := ''api_token'', p_AuthMethod := ''api_token'',
                  p_Roles := [tk_role_id r], p_Permissions := perms, p_TokenID := tk_id r\<rparr>)))) s1 = (Inr p, s')"
    unfolding ValidateAuthToken_def by (auto elim!: and_then_Inr)
  from exec_Inr [OF x] have use: "sql_use_token (tokenHash token) (pe_now E (pg_sent s)) (pg_tables s) = (Inr r, pg_tables s1)"
    by simp
  then have r: "r \<in> set (tb_api_tokens (pg_tables s))" "token_accepted (tokenHash token) (pe_now E (pg_sent s)) r"
    by (auto simp: sql_use_token_def dest: first_row_Inr)
  note roles = sql_use_token_roles [OF use]
  show ?thesis
  proof (cases "tk_token_type r = ''oidc_session''")
    case True
    with y obtain q s2 where "principalByUserID E (tk_actor_id r) s1 = (Inr q, s2)"
      "p = token_expiry r (q\<lparr>p_AuthMethod := ''oidc_session'', p_TokenID := tk_id r\<rparr>)"
      by (auto simp: give_def elim!: and_then_Inr)
    with principalByUserID_Inr roles True have "granted (pg_tables s) r (set (p_Permissions p))"
      "p_ActorID p = tk_actor_id r" "p_TokenID p = tk_id r"
      by (fastforce simp: granted_def user_permissions_def)+
    with ne r show ?thesis by (intro that)
  next
    case False
    with y obtain perms s2 where q: "permissionsForRole E (tk_role_id r) s1 = (Inr perms, s2)"
      "p_Permissions p = perms" "p_ActorID p = tk_actor_id r" "p_TokenID p = tk_id r"
      by (auto simp: give_def elim!: and_then_Inr)
    from permissionsForRole_Inr [OF q(1)] roles False have "granted (pg_tables s) r (set (p_Permissions p))"
      by (auto simp: granted_def q(2))
    with ne r q(3,4) show ?thesis by (intro that)
  qed
qed

text \<open>
  C13: a token is accepted only if its hash is in the table, not revoked and not expired, and
  the principal it stands for is the row's actor with exactly the permissions the tables
  give at this moment: those of all roles of the user for a session, those of the row's
  role for an API token. Unassigning a role therefore takes effect on open sessions.
\<close>

theorem ValidateAuthToken_grants_exactly:
  assumes "ValidateAuthToken E token s = (Inr p, s')"
  shows "\<exists>r\<in>set (tb_api_tokens (pg_tables s)).
     token_accepted (tokenHash token) (pe_now E (pg_sent s)) r
     \<and> p_ActorID p = tk_actor_id r \<and> p_TokenID p = tk_id r
     \<and> granted (pg_tables s) r (set (p_Permissions p))"
  using validated_token [OF assms] by blast

section \<open>The contract of a session store\<close>

text \<open>
  The \<open>AuthStore\<close> interface of api/router.go. \<open>view s h\<close> is what the store holds under the
  hash \<open>h\<close>. The laws: a row once inserted keeps its expiry and can only become revoked,
  only its own revocation does that, a revoked row stays; a token is accepted only while
  its row is live and not expired.
\<close>

record 's AuthStore =
  as_ValidateAuthToken :: "string \<Rightarrow> 's \<Rightarrow> (go_error + Principal) \<times> 's"
  as_ResolveOIDCPrincipal :: "string \<Rightarrow> 's \<Rightarrow> (go_error + Principal) \<times> 's"
  as_CreateOIDCSession :: "string \<Rightarrow> Principal \<Rightarrow> instant \<Rightarrow> 's \<Rightarrow> (go_error + string) \<times> 's"
  as_RevokeAuthToken :: "string \<Rightarrow> 's \<Rightarrow> go_error option \<times> 's"
  as_Audit :: "AuditEvent \<Rightarrow> 's \<Rightarrow> go_error option \<times> 's"

datatype auth_op =
    AuthValidate string | AuthResolve string | AuthCreate string Principal instant
  | AuthRevoke string | AuthAudit AuditEvent

fun run_auth :: "'s AuthStore \<Rightarrow> auth_op \<Rightarrow> 's \<Rightarrow> 's" where
  "run_auth A (AuthValidate token) s = snd (as_ValidateAuthToken A token s)"
| "run_auth A (AuthResolve subject) s = snd (as_ResolveOIDCPrincipal A subject s)"
| "run_auth A (AuthCreate h p e) s = snd (as_CreateOIDCSession A h p e s)"
| "run_auth A (AuthRevoke token) s = snd (as_RevokeAuthToken A token s)"
| "run_auth A (AuthAudit ev) s = snd (as_Audit A ev s)"

datatype token_state = TokenLive "instant option" | TokenRevoked

locale session_contract =
  fixes A :: "'s AuthStore"
    and view :: "'s \<Rightarrow> string \<Rightarrow> token_state option"
    and now :: "'s \<Rightarrow> instant"
    and ts :: "instant \<Rightarrow> instant"
    and inv :: "'s \<Rightarrow> bool"
  assumes inv_kept: "inv s \<Longrightarrow> inv (run_auth A op s)"
    and revoked_stays: "inv s \<Longrightarrow> view s h = Some TokenRevoked \<Longrightarrow> view (run_auth A op s) h = Some TokenRevoked"
    and live_stays: "inv s \<Longrightarrow> view s h = Some (TokenLive e) \<Longrightarrow>
       view (run_auth A op s) h = Some (TokenLive e)
       \<or> (\<exists>token. op = AuthRevoke token \<and> tokenHash token = h) \<and> view (run_auth A op s) h = Some TokenRevoked"
    and validated_live: "inv s \<Longrightarrow> as_ValidateAuthToken A token s = (Inr p, s') \<Longrightarrow>
       token \<noteq> [] \<and> (\<exists>e. view s (tokenHash token) = Some (TokenLive e) \<and> (\<forall>x. e = Some x \<longrightarrow> now s < x))"
    and created_live: "inv s \<Longrightarrow> as_CreateOIDCSession A h p x s = (Inr i, s') \<Longrightarrow>
       view s h = None \<and> view s' h = Some (TokenLive (Some (ts x)))"
    and revoked_dead: "inv s \<Longrightarrow> token \<noteq> [] \<Longrightarrow> as_RevokeAuthToken A token s = (None, s') \<Longrightarrow>
       \<forall>e. view s' (tokenHash token) \<noteq> Some (TokenLive e)"
begin

lemma inv_ops: "inv s \<Longrightarrow> inv (fold (run_auth A) ops s)"
  by (induction ops arbitrary: s) (auto intro: inv_kept)

lemma revoked_ops: "inv s \<Longrightarrow> view s h = Some TokenRevoked \<Longrightarrow> view (fold (run_auth A) ops s) h = Some TokenRevoked"
  by (induction ops arbitrary: s) (auto intro: inv_kept revoked_stays)

lemma inserted_ops:
  "inv s \<Longrightarrow> view s h \<in> {Some (TokenLive e), Some TokenRevoked} \<Longrightarrow>
   view (fold (run_auth A) ops s) h \<in> {Some (TokenLive e), Some TokenRevoked}"
proof (induction ops arbitrary: s)
  case (Cons op ops)
  have "view (run_auth A op s) h \<in> {Some (TokenLive e), Some TokenRevoked}"
    using Cons.prems live_stays [of s h e op] revoked_stays [of s h op] by auto
  with Cons show ?case by (simp add: inv_kept)
qed simp

lemma kept_unless_revoked:
  assumes "inv s" "view s h = Some (TokenLive e)" "\<forall>token. AuthRevoke token \<in> set ops \<longrightarrow> tokenHash token \<noteq> h"
  shows "view (fold (run_auth A) ops s) h = Some (TokenLive e)"
  using assms
proof (induction ops arbitrary: s)
  case (Cons op ops)
  have "view (run_auth A op s) h = Some (TokenLive e)"
    using live_stays [OF Cons.prems(1,2), of op] Cons.prems(3) by auto
  with Cons show ?case by (simp add: inv_kept)
qed simp

lemma session_over:
  assumes "inv s" "as_CreateOIDCSession A (tokenHash token) p e s = (Inr i, s1)"
    and "as_ValidateAuthToken A token (fold (run_auth A) ops s1) = (Inr q, s2)"
  shows "now (fold (run_auth A) ops s1) < ts e
    \<and> (\<forall>before after s3. ops = before @ AuthRevoke token # after \<longrightarrow>
         as_RevokeAuthToken A token (fold (run_auth A) before s1) \<noteq> (None, s3))"
proof -
  have inv1: "inv s1" using inv_kept [OF assms(1), of "AuthCreate (tokenHash token) p e"] assms(2) by simp
  have live1: "view s1 (tokenHash token) = Some (TokenLive (Some (ts e)))"
    using created_live [OF assms(1,2)] by simp
  from validated_live [OF inv_ops [OF inv1] assms(3)] obtain x where
    ne: "token \<noteq> []" and x: "view (fold (run_auth A) ops s1) (tokenHash token) = Some (TokenLive x)"
      "\<forall>y. x = Some y \<longrightarrow> now (fold (run_auth A) ops s1) < y" by auto
  have "x = Some (ts e)"
    using inserted_ops [OF inv1, of "tokenHash token" "Some (ts e)" ops] live1 x(1) by auto
  moreover have False
    if o: "ops = before @ AuthRevoke token # after"
      and r: "as_RevokeAuthToken A token (fold (run_auth A) before s1) = (None, s3)" for before after s3
  proof -
    let ?b = "fold (run_auth A) before s1"
    have "view ?b (tokenHash token) \<in> {Some (TokenLive (Some (ts e))), Some TokenRevoked}"
      using inserted_ops [OF inv1] live1 by auto
    then have "view (run_auth A (AuthRevoke token) ?b) (tokenHash token) \<in> {Some (TokenLive (Some (ts e))), Some TokenRevoked}"
      using inserted_ops [OF inv_ops [OF inv1], of before "tokenHash token" "Some (ts e)" "[AuthRevoke token]"] by simp
    moreover have "view (run_auth A (AuthRevoke token) ?b) (tokenHash token) \<noteq> Some (TokenLive (Some (ts e)))"
      using revoked_dead [OF inv_ops [OF inv1] ne r] r by simp
    ultimately have "view (run_auth A (AuthRevoke token) ?b) (tokenHash token) = Some TokenRevoked" by simp
    then have "view (fold (run_auth A) after (run_auth A (AuthRevoke token) ?b)) (tokenHash token) = Some TokenRevoked"
      by (intro revoked_ops inv_kept inv_ops inv1)
    with x(1) show False by (simp add: o)
  qed
  ultimately show ?thesis using x(2) by blast
qed

end

section \<open>The PostgreSQL store keeps the contract\<close>

definition pg_AuthStore :: "pg_env \<Rightarrow> pg AuthStore" where
  "pg_AuthStore E = \<lparr>as_ValidateAuthToken = ValidateAuthToken E, as_ResolveOIDCPrincipal = ResolveOIDCPrincipal E,
     as_CreateOIDCSession = CreateOIDCSession E, as_RevokeAuthToken = RevokeAuthToken E, as_Audit = Audit E\<rparr>"

definition row_state :: "token_row \<Rightarrow> token_state" where
  "row_state r = (if tk_revoked_at r = None then TokenLive (tk_expires_at r) else TokenRevoked)"

fun tokens_view :: "token_row list \<Rightarrow> string \<Rightarrow> token_state option" where
  "tokens_view [] h = None"
| "tokens_view (r # rs) h = (if tk_token_hash r = h then Some (row_state r) else tokens_view rs h)"

definition pg_view :: "pg \<Rightarrow> string \<Rightarrow> token_state option" where
  "pg_view s = tokens_view (tb_api_tokens (pg_tables s))"

text \<open>The unique constraint on the hash.\<close>

definition pg_tokens_unique :: "pg \<Rightarrow> bool" where
  "pg_tokens_unique s \<longleftrightarrow> distinct (map tk_token_hash (tb_api_tokens (pg_tables s)))"

text \<open>What an operation does to the token table: nothing, a use, a revocation or an insertion.\<close>

definition use_tokens :: "string \<Rightarrow> instant \<Rightarrow> token_row list \<Rightarrow> token_row list" where
  "use_tokens h now rs = map (\<lambda>r. if token_accepted h now r then r\<lparr>tk_last_used_at := Some now\<rparr> else r) rs"

definition revoke_tokens :: "string \<Rightarrow> instant \<Rightarrow> token_row list \<Rightarrow> token_row list" where
  "revoke_tokens h now rs =
     map (\<lambda>r. if tk_token_hash r = h \<and> tk_revoked_at r = None then r\<lparr>tk_revoked_at := Some now\<rparr> else r) rs"

lemma use_tokens_view [simp]:
  "tokens_view (use_tokens h now rs) = tokens_view rs"
  "map tk_token_hash (use_tokens h now rs) = map tk_token_hash rs"
  by (induction rs) (auto simp: use_tokens_def row_state_def fun_eq_iff)

lemma revoke_tokens_view [simp]:
  "tokens_view (revoke_tokens h now rs) h' =
     (if h' = h then map_option (\<lambda>_. TokenRevoked) (tokens_view rs h) else tokens_view rs h')"
  "map tk_token_hash (revoke_tokens h now rs) = map tk_token_hash rs"
  by (induction rs) (auto simp: revoke_tokens_def row_state_def)

lemma tokens_view_None: "tokens_view rs h = None \<longleftrightarrow> (\<forall>r\<in>set rs. tk_token_hash r \<noteq> h)"
  by (induction rs) auto

lemma tokens_view_row:
  "distinct (map tk_token_hash rs) \<Longrightarrow> r \<in> set rs \<Longrightarrow> tokens_view rs (tk_token_hash r) = Some (row_state r)"
  by (induction rs) force+

abbreviation tokens_of :: "pg \<Rightarrow> token_row list" where
  "tokens_of s \<equiv> tb_api_tokens (pg_tables s)"

lemma exec_tables: "pg_tables (snd (exec E f s)) = pg_tables s
   \<or> pg_tables (snd (exec E f s)) = snd (f (pe_now E (pg_sent s)) (pg_tables s))"
  by (auto simp: exec_def Let_def split: prod.splits db_outcome.splits)

lemma and_then_tokens:
  assumes "\<And>x s. tokens_of (snd (g x s)) = tokens_of s"
  shows "tokens_of (snd (and_then f g s)) = tokens_of (snd (f s))"
  using assms by (auto simp: and_then_def split: prod.splits sum.splits)

lemma exec_keeps_tokens:
  assumes "\<And>now db. tb_api_tokens (snd (f now db)) = tb_api_tokens db"
  shows "tokens_of (snd (exec E f s)) = tokens_of s"
  using exec_tables [of E f s] assms by auto

lemma withRoles_tokens [simp]: "tokens_of (snd (withRoles E p s)) = tokens_of s"
  unfolding withRoles_def
  by (subst and_then_tokens) (auto simp: exec_keeps_tokens sql_user_roles_def split: sum.splits)

lemma lookup_tokens [simp]:
  "tokens_of (snd (principalByUserID E user s)) = tokens_of s"
  "tokens_of (snd (principalBySubject E user s)) = tokens_of s"
  "tokens_of (snd (permissionsForRole E user s)) = tokens_of s"
  unfolding principalByUserID_def principalBySubject_def permissionsForRole_def
  by (subst and_then_tokens, simp_all add: exec_keeps_tokens)+

lemma error_of_snd [simp]: "snd (error_of r) = snd r"
  by (simp add: error_of_def split: prod.splits sum.splits)

lemma Validate_tokens:
  "tokens_of (snd (ValidateAuthToken E token s)) = tokens_of s
   \<or> tokens_of (snd (ValidateAuthToken E token s)) = use_tokens (tokenHash token) (pe_now E (pg_sent s)) (tokens_of s)"
proof (cases "token = []")
  case False
  let ?x = "exec E (sql_use_token (tokenHash token)) s"
  have "tokens_of (snd (ValidateAuthToken E token s)) = tokens_of (snd ?x)"
    using False unfolding ValidateAuthToken_def
    by (simp, subst and_then_tokens) (auto simp: and_then_tokens give_def)
  then show ?thesis
    using exec_tables [of E "sql_use_token (tokenHash token)" s] by (auto simp: sql_use_token_def use_tokens_def)
qed (simp add: ValidateAuthToken_def)

lemma Resolve_tokens: "tokens_of (snd (ResolveOIDCPrincipal E subject s)) = tokens_of s"
  unfolding ResolveOIDCPrincipal_def by (auto simp: and_then_tokens)

lemma Audit_tokens: "tokens_of (snd (Audit E ev s)) = tokens_of s"
  by (simp add: Audit_def Let_def exec_keeps_tokens)

lemma Revoke_tokens:
  "tokens_of (snd (RevokeAuthToken E token s)) = tokens_of s
   \<or> token \<noteq> [] \<and> tokens_of (snd (RevokeAuthToken E token s)) = revoke_tokens (tokenHash token) (pe_now E (pg_sent s)) (tokens_of s)"
  using exec_tables [of E "sql_revoke_token (tokenHash token)" s]
  by (auto simp: RevokeAuthToken_def sql_revoke_token_def revoke_tokens_def)

lemma sql_insert_token_cases:
  "snd (sql_insert_token row now db) = db
   \<or> (\<forall>r\<in>set (tb_api_tokens db). tk_token_hash r \<noteq> tk_token_hash row)
      \<and> tb_api_tokens (snd (sql_insert_token row now db)) = row\<lparr>tk_created_at := now\<rparr> # tb_api_tokens db"
  by (cases "\<exists>r\<in>set (tb_api_tokens db). tk_id r = tk_id row \<or> tk_token_hash r = tk_token_hash row")
     (auto simp: sql_insert_token_def)

lemma Create_tokens:
  "tokens_of (snd (CreateOIDCSession E h p e s)) = tokens_of s
   \<or> (\<exists>row. tk_token_hash row = h \<and> row_state row = TokenLive (Some (pe_ts E e))
        \<and> (\<forall>r\<in>set (tokens_of s). tk_token_hash r \<noteq> h)
        \<and> tokens_of (snd (CreateOIDCSession E h p e s)) = row # tokens_of s)"
proof -
  let ?row = "\<lparr>tk_id = store_newID E ''sess'' s, tk_token_hash = h, tk_actor_id = p_ActorID p, tk_role_id = hd (p_Roles p),
     tk_token_type = ''oidc_session'', tk_expires_at = Some (pe_ts E e),
     tk_created_at = 0, tk_revoked_at = None, tk_last_used_at = None\<rparr>"
  let ?fresh = "\<forall>r\<in>set (tokens_of s). tk_token_hash r \<noteq> h"
  have "tokens_of (snd (CreateOIDCSession E h p e s)) \<in> {tokens_of s, tokens_of (snd (exec E (sql_insert_token ?row) s))}"
    by (auto simp: CreateOIDCSession_def Let_def and_then_tokens give_def)
  moreover have "tokens_of (snd (exec E (sql_insert_token ?row) s)) = tokens_of s
      \<or> ?fresh \<and> tokens_of (snd (exec E (sql_insert_token ?row) s))
                = ?row\<lparr>tk_created_at := pe_now E (pg_sent s)\<rparr> # tokens_of s"
    using exec_tables [of E "sql_insert_token ?row" s]
      sql_insert_token_cases [of ?row "pe_now E (pg_sent s)" "pg_tables s"] by auto
  ultimately show ?thesis
    by (elim insertE emptyE disjE conjE)
       (auto simp: row_state_def intro!: exI [of _ "?row\<lparr>tk_created_at := pe_now E (pg_sent s)\<rparr>"])
qed

lemmas token_effects = Validate_tokens Resolve_tokens Create_tokens Revoke_tokens Audit_tokens

text \<open>Every operation, as its effect on what the table holds under a hash.\<close>

lemma pg_op_view:
  "tokens_of (run_auth (pg_AuthStore E) op s) = tokens_of s
   \<or> (\<exists>h now. tokens_of (run_auth (pg_AuthStore E) op s) = use_tokens h now (tokens_of s))
   \<or> (\<exists>token now. op = AuthRevoke token
        \<and> tokens_of (run_auth (pg_AuthStore E) op s) = revoke_tokens (tokenHash token) now (tokens_of s))
   \<or> (\<exists>row. (\<forall>r\<in>set (tokens_of s). tk_token_hash r \<noteq> tk_token_hash row)
        \<and> tokens_of (run_auth (pg_AuthStore E) op s) = row # tokens_of s)"
proof (cases op)
  case (AuthValidate token)
  then show ?thesis using Validate_tokens [of E token s] by (auto simp: pg_AuthStore_def)
next
  case (AuthResolve subject)
  then show ?thesis by (simp add: pg_AuthStore_def Resolve_tokens)
next
  case (AuthCreate h p e)
  then show ?thesis using Create_tokens [of E h p e s] by (auto simp: pg_AuthStore_def)
next
  case (AuthRevoke token)
  then show ?thesis using Revoke_tokens [of E token s] by (auto simp: pg_AuthStore_def)
next
  case (AuthAudit ev)
  then show ?thesis by (simp add: pg_AuthStore_def Audit_tokens)
qed

lemma pg_validated_live:
  assumes "pg_tokens_unique s" "ValidateAuthToken E token s = (Inr p, s')"
  shows "token \<noteq> [] \<and> (\<exists>e. pg_view s (tokenHash token) = Some (TokenLive e)
           \<and> (\<forall>x. e = Some x \<longrightarrow> pe_now E (pg_sent s) < x))"
proof -
  obtain r where "token \<noteq> []" and r: "r \<in> set (tokens_of s)"
    "token_accepted (tokenHash token) (pe_now E (pg_sent s)) r"
    using validated_token [OF assms(2)] by metis
  moreover have "pg_view s (tokenHash token) = Some (TokenLive (tk_expires_at r))"
    using tokens_view_row [OF _ r(1)] assms(1) r(2)
    by (auto simp: pg_view_def pg_tokens_unique_def token_accepted_def row_state_def)
  ultimately show ?thesis by (auto simp: token_accepted_def)
qed

lemma pg_created_live:
  assumes "CreateOIDCSession E h p x s = (Inr i, s')"
  shows "pg_view s h = None \<and> pg_view s' h = Some (TokenLive (Some (pe_ts E x)))"
proof -
  let ?row = "\<lparr>tk_id = store_newID E ''sess'' s, tk_token_hash = h, tk_actor_id = p_ActorID p, tk_role_id = hd (p_Roles p),
     tk_token_type = ''oidc_session'', tk_expires_at = Some (pe_ts E x),
     tk_created_at = 0, tk_revoked_at = None, tk_last_used_at = None\<rparr>"
  from assms have "and_then (exec E (sql_insert_token ?row)) (\<lambda>_. give (store_newID E ''sess'' s)) s = (Inr i, s')"
    by (auto simp: CreateOIDCSession_def Let_def split: if_splits)
  then obtain u where "exec E (sql_insert_token ?row) s = (Inr u, s')"
    by (auto simp: give_def elim!: and_then_Inr)
  from exec_Inr [OF this] have i: "sql_insert_token ?row (pe_now E (pg_sent s)) (pg_tables s) = (Inr u, pg_tables s')"
    by simp
  then have c: "\<not> (\<exists>r\<in>set (tokens_of s). tk_id r = tk_id ?row \<or> tk_token_hash r = h)"
    unfolding sql_insert_token_def by (cases "\<exists>r\<in>set (tokens_of s). tk_id r = tk_id ?row \<or> tk_token_hash r = h") auto
  moreover have "pg_tables s' = snd (sql_insert_token ?row (pe_now E (pg_sent s)) (pg_tables s))"
    by (simp only: i snd_conv)
  ultimately have "tokens_of s' = ?row\<lparr>tk_created_at := pe_now E (pg_sent s)\<rparr> # tokens_of s"
    by (auto simp: sql_insert_token_def)
  with c show ?thesis by (auto simp: pg_view_def tokens_view_None row_state_def)
qed

lemma pg_revoked_dead:
  assumes "token \<noteq> []" "RevokeAuthToken E token s = (None, s')"
  shows "pg_view s' (tokenHash token) \<noteq> Some (TokenLive e)"
proof -
  from assms have "exec E (sql_revoke_token (tokenHash token)) s = (Inr (), s')"
    by (auto simp: RevokeAuthToken_def error_of_def split: prod.splits sum.splits)
  from exec_Inr [OF this] have "pg_tables s' = snd (sql_revoke_token (tokenHash token) (pe_now E (pg_sent s)) (pg_tables s))"
    by (metis snd_conv)
  then have "tokens_of s' = revoke_tokens (tokenHash token) (pe_now E (pg_sent s)) (tokens_of s)"
    by (simp add: sql_revoke_token_def revoke_tokens_def)
  then show ?thesis by (simp add: pg_view_def)
qed

interpretation pg_sessions: session_contract "pg_AuthStore E" pg_view "\<lambda>s. pe_now E (pg_sent s)" "pe_ts E" pg_tokens_unique for E
proof
  fix s h e op
  show "pg_tokens_unique (run_auth (pg_AuthStore E) op s)" if "pg_tokens_unique s"
    using pg_op_view [of E op s] that by (elim disjE exE conjE) (auto simp: pg_tokens_unique_def)
  show "pg_view (run_auth (pg_AuthStore E) op s) h = Some TokenRevoked" if "pg_view s h = Some TokenRevoked"
    using pg_op_view [of E op s] that by (elim disjE exE conjE) (auto simp: pg_view_def tokens_view_None [symmetric])
  show "pg_view (run_auth (pg_AuthStore E) op s) h = Some (TokenLive e)
     \<or> (\<exists>token. op = AuthRevoke token \<and> tokenHash token = h) \<and> pg_view (run_auth (pg_AuthStore E) op s) h = Some TokenRevoked"
    if "pg_view s h = Some (TokenLive e)"
    using pg_op_view [of E op s] that by (elim disjE exE conjE) (auto simp: pg_view_def tokens_view_None [symmetric])
qed (auto simp: pg_AuthStore_def dest: pg_validated_live pg_created_live pg_revoked_dead)

text \<open>
  C10: a session ends. After the store created a session for a token, the token is accepted
  only while the clock of the data base is before the recorded expiry, and never again once
  a revocation of it was reported done, whatever other operations the store performed in
  between and however their statements ended.
\<close>

theorem session_ends:
  assumes "pg_tokens_unique s" "CreateOIDCSession E (tokenHash token) p e s = (Inr i, s1)"
    and "ValidateAuthToken E token (fold (run_auth (pg_AuthStore E)) ops s1) = (Inr q, s2)"
  shows "pe_now E (pg_sent (fold (run_auth (pg_AuthStore E)) ops s1)) < pe_ts E e
    \<and> (\<forall>before after s3. ops = before @ AuthRevoke token # after \<longrightarrow>
         RevokeAuthToken E token (fold (run_auth (pg_AuthStore E)) before s1) \<noteq> (None, s3))"
  using pg_sessions.session_over [where E = E and ops = ops, OF assms(1)] assms(2,3)
  by (simp add: pg_AuthStore_def)

text \<open>A user with two roles logs in; the store audits, resolves the user again and validates the session.\<close>

definition demo_auth_pg :: pg where
  "demo_auth_pg = \<lparr>pg_tables = empty_tables\<lparr>
       tb_users := [\<lparr>u_id = ''u1'', u_subject = ''sub'', u_display_name = ''U''\<rparr>],
       tb_roles := [\<lparr>ro_id = ''ops'', ro_permissions = Inr [''jobs:read'', ''backups:run'']\<rparr>,
                    \<lparr>ro_id = ''audit'', ro_permissions = Inr [''audit:read'', ''jobs:read'']\<rparr>,
                    \<lparr>ro_id = ''admin'', ro_permissions = Inr [''*'']\<rparr>],
       tb_user_roles := [(''u1'', ''ops''), (''u1'', ''audit'')]\<rparr>,
     pg_sent = 0\<rparr>"

definition demo_user :: Principal where
  "demo_user = empty_principal\<lparr>p_ActorID := ''u1'', p_Roles := [''audit'', ''ops'']\<rparr>"

definition demo_session :: pg where
  "demo_session = snd (CreateOIDCSession demo_env (tokenHash ''t'') demo_user 1009 demo_auth_pg)"

definition demo_event :: AuditEvent where
  "demo_event = \<lparr>ae_ID = [], ae_ActorType = ''user'', ae_ActorID = ''u1'', ae_Action = ''auth.oidc.login'',
     ae_TargetID = [], ae_CredentialRef = [], ae_JobID = [], ae_RequestID = [], ae_SourceIP = [],
     ae_Outcome = ''success'', ae_Metadata = Map.empty, ae_CreatedAt = 0\<rparr>"

definition demo_after :: pg where
  "demo_after = fold (run_auth (pg_AuthStore demo_env)) [AuthAudit demo_event] demo_session"

definition demo_validated :: "(go_error + Principal) \<times> pg" where
  "demo_validated = ValidateAuthToken demo_env ''t'' demo_session"

definition demo_principal :: Principal where
  "demo_principal = empty_principal\<lparr>p_ActorID := ''u1'', p_ActorType := ''user'', p_AuthMethod := ''oidc_session'',
     p_Subject := ''sub'', p_DisplayName := ''U'', p_Roles := [''audit'', ''ops''],
     p_Permissions := [''audit:read'', ''backups:run'', ''jobs:read''], p_TokenID := ''sess-00'', p_ExpiresAt := 1009\<rparr>"

lemma tokenHash_not_Nil [simp]: "tokenHash token \<noteq> []"
proof -
  have "length (tokenHash token) = 64" by (simp add: tokenHash_def)
  then show ?thesis by auto
qed

lemma char_of_48: "char_of (48::nat) = CHR ''0''"
  by code_simp

lemmas demo_store_simps = demo_env_def empty_tables_def demo_auth_pg_def demo_user_def empty_principal_def
  CreateOIDCSession_def and_then_def give_def exec_def sql_insert_token_def store_newID_def Let_def IsZero_def
  EncodeToString_def hex_digit_def code_def char_of_48
lemmas demo_lookup_simps = ValidateAuthToken_def sql_use_token_def token_accepted_def first_row_def
  principalByUserID_def principalBySubject_def ResolveOIDCPrincipal_def withRoles_def sql_user_roles_def
  order_by_def user_principal_def token_expiry_def sortedKeys_def sort_strings_def pg_AuthStore_def

lemma demo_session_eq:
  "demo_session = \<lparr>pg_tables = (pg_tables demo_auth_pg)\<lparr>tb_api_tokens :=
     [\<lparr>tk_id = ''sess-00'', tk_token_hash = tokenHash ''t'', tk_actor_id = ''u1'', tk_role_id = ''audit'',
       tk_token_type = ''oidc_session'', tk_expires_at = Some 1009, tk_created_at = 1000,
       tk_revoked_at = None, tk_last_used_at = None\<rparr>]\<rparr>, pg_sent = 1\<rparr>"
  unfolding demo_session_def by (simp add: demo_store_simps)

lemma demo_created:
  "CreateOIDCSession demo_env (tokenHash ''t'') demo_user 1009 demo_auth_pg = (Inr ''sess-00'', demo_session)"
  unfolding demo_session_def by (simp add: demo_store_simps)

lemma demo_validated_eq: "demo_validated = (Inr demo_principal, snd demo_validated)"
  unfolding demo_validated_def demo_session_eq
  by (simp add: demo_lookup_simps demo_store_simps demo_principal_def)

theorem ValidateAuthToken_grants_exactly_witness:
  "\<exists>r\<in>set (tb_api_tokens (pg_tables demo_session)).
     token_accepted (tokenHash ''t'') 1001 r \<and> tk_actor_id r = ''u1''
     \<and> granted (pg_tables demo_session) r {''audit:read'', ''backups:run'', ''jobs:read''}"
  using ValidateAuthToken_grants_exactly [of demo_env "''t''" demo_session demo_principal "snd demo_validated"]
    demo_validated_eq
  by (simp add: demo_validated_def demo_session_eq demo_principal_def demo_env_def)

theorem session_ends_witness:
  "pe_now demo_env (pg_sent demo_after) < 1009 \<and> (\<exists>q s2. ValidateAuthToken demo_env ''t'' demo_after = (Inr q, s2))"
proof -
  have u: "pg_tokens_unique demo_auth_pg" by (simp add: pg_tokens_unique_def demo_auth_pg_def empty_tables_def)
  have v: "ValidateAuthToken demo_env ''t'' (fold (run_auth (pg_AuthStore demo_env)) [AuthAudit ev] demo_session)
     = (Inr demo_principal, snd (ValidateAuthToken demo_env ''t'' (fold (run_auth (pg_AuthStore demo_env)) [AuthAudit ev] demo_session)))" for ev
    unfolding demo_session_eq
    by (simp add: demo_lookup_simps demo_store_simps demo_principal_def Audit_def error_of_def)
  have after: "demo_after = fold (run_auth (pg_AuthStore demo_env)) [AuthAudit demo_event] demo_session"
    by (simp add: demo_after_def)
  show ?thesis
    using session_ends [OF u demo_created v] v [of demo_event] by (auto simp: after demo_env_def)
qed

end
