(* ===== verification/Go_Net.thy ===== *)
theory Go_Net
  imports Core_Types
begin

text \<open>
  The parts of Go's \<open>net\<close> the API and the transports use: splitting and joining a host and port.
\<close>

text \<open>The index of the last occurrence of a byte.\<close>

fun LastIndexByte :: "string \<Rightarrow> char \<Rightarrow> nat option" where
  "LastIndexByte [] c = None"
| "LastIndexByte (d # s) c =
     (case LastIndexByte s c of Some i \<Rightarrow> Some (Suc i) | None \<Rightarrow> if d = c then Some 0 else None)"

text \<open>
  \<open>net.SplitHostPort\<close>. In the bracketed form the closing bracket must be right before the
  last colon; no further bracket may follow.
\<close>

definition addr_error :: "string \<Rightarrow> string \<Rightarrow> go_error" where
  "addr_error hp why = Errorf ''address %s: %s'' [hp, why]"

definition SplitHostPort :: "string \<Rightarrow> go_error + string \<times> string" where
  "SplitHostPort hp =
     (case LastIndexByte hp (CHR '':'') of
        None \<Rightarrow> Inl (addr_error hp ''missing port in address'')
      | Some i \<Rightarrow>
          if hd hp = CHR ''['' then
            (case Index hp '']'' of
               None \<Rightarrow> Inl (addr_error hp ''missing ']' in address'')
             | Some close \<Rightarrow>
                 if close + 1 = length hp then Inl (addr_error hp ''missing port in address'')
                 else if close + 1 \<noteq> i
                 then Inl (addr_error hp (if hp ! (close + 1) = CHR '':'' then ''too many colons in address''
                                          else ''missing port in address''))
                 else if CHR ''['' \<in> set (drop 1 hp) then Inl (addr_error hp ''unexpected '[' in address'')
                 else if CHR '']'' \<in> set (drop (close + 1) hp) then Inl (addr_error hp ''unexpected ']' in address'')
                 else Inr (take (close - 1) (drop 1 hp), drop (i + 1) hp))
          else if CHR '':'' \<in> set (take i hp) then Inl (addr_error hp ''too many colons in address'')
          else if CHR ''['' \<in> set hp then Inl (addr_error hp ''unexpected '[' in address'')
          else if CHR '']'' \<in> set hp then Inl (addr_error hp ''unexpected ']' in address'')
          else Inr (take i hp, drop (i + 1) hp))"

definition JoinHostPort :: "string \<Rightarrow> string \<Rightarrow> string" where
  "JoinHostPort host port =
     (if CHR '':'' \<in> set host then ''['' @ host @ '']:'' @ port else host @ '':'' @ port)"

lemma LastIndexByte_append:
  "c \<notin> set t \<Longrightarrow> LastIndexByte (s @ c # t) c = Some (length s)"
proof -
  assume "c \<notin> set t"
  then have "LastIndexByte t c = None" by (induction t) auto
  then show ?thesis by (induction s) auto
qed

lemma Index_first: "c \<notin> set s \<Longrightarrow> Index (s @ c # t) [c] = Some (length s)"
  by (induction s) auto

lemma SplitHostPort_JoinHostPort:
  assumes "CHR ''['' \<notin> set host" "CHR '']'' \<notin> set host"
    "CHR '':'' \<notin> set port" "CHR ''['' \<notin> set port" "CHR '']'' \<notin> set port"
  shows "SplitHostPort (JoinHostPort host port) = Inr (host, port)"
proof (cases "CHR '':'' \<in> set host")
  case False
  have "hd (host @ CHR '':'' # port) \<noteq> CHR ''[''" using assms(1) by (cases host) auto
  with assms False show ?thesis by (simp add: SplitHostPort_def JoinHostPort_def LastIndexByte_append)
next
  case True
  let ?hp = "CHR ''['' # host @ CHR '']'' # CHR '':'' # port"
  have l: "LastIndexByte ?hp (CHR '':'') = Some (length host + 2)"
    using LastIndexByte_append [OF assms(3), of "CHR ''['' # host @ '']''"] by simp
  have r: "Index ?hp '']'' = Some (Suc (length host))"
    using Index_first [of "CHR '']''" "CHR ''['' # host"] assms(2) by simp
  show ?thesis using True assms l r by (simp add: SplitHostPort_def JoinHostPort_def)
qed

end
