(* ===== verification/Api.thy ===== *)
theory Api
  imports Metadata Manager Go_Net
begin

text \<open>
  The HTTP API, api/router.go and api/oidc.go. A handler is a function of the server, the
  request and the context the middleware built, on the world: the state of the services
  behind the server and the list of the calls made to them. The services are the
  interfaces of pkg/goxidized/interfaces.go and of router.go; a nil interface is \<open>None\<close>, and
  calling it panics. What chi decides (which route matches, the URL parameters), the static
  files, the metrics and the methods of \<open>Principal\<close> are parameters. JSON encoding is not
  modelled: a body is the value given to the encoder, where a nil and an empty slice are
  the same.
\<close>

section \<open>Services\<close>

type_synonym ('a, 's) op = "'s \<Rightarrow> 'a \<times> 's"

record 's MetadataStore =
  md_UpsertDevices :: "Target list \<Rightarrow> (go_error option, 's) op"
  md_ListDevices :: "(go_error + Target list, 's) op"
  md_GetDevice :: "string \<Rightarrow> (go_error + Target, 's) op"
  md_RecordJobStart :: "Job \<Rightarrow> (Job \<times> go_error option, 's) op"
  md_RecordJobFinish :: "JobResult \<Rightarrow> (go_error option, 's) op"
  md_SaveRevision :: "Revision \<Rightarrow> CommitMeta \<Rightarrow> (go_error option, 's) op"
  md_SaveDiff :: "DiffResult \<Rightarrow> (go_error option, 's) op"
  md_ListJobs :: "int \<Rightarrow> (go_error + Job list, 's) op"
  md_GetJob :: "string \<Rightarrow> (go_error + Job, 's) op"
  md_ListRevisions :: "string \<Rightarrow> int \<Rightarrow> (go_error + Revision list, 's) op"
  md_LatestRevision :: "string \<Rightarrow> (go_error + Revision, 's) op"
  md_Audit :: "AuditEvent \<Rightarrow> (go_error option, 's) op"
  md_ListAuditEvents :: "int \<Rightarrow> (go_error + AuditEvent list, 's) op"

record 's StorageI =
  st_Save :: "Target \<Rightarrow> RedactedConfig \<Rightarrow> CommitMeta \<Rightarrow> (go_error + Revision, 's) op"
  st_Latest :: "string \<Rightarrow> (go_error + RedactedConfig \<times> Revision, 's) op"
  st_History :: "string \<Rightarrow> int \<Rightarrow> (go_error + Revision list, 's) op"
  st_Diff :: "string \<Rightarrow> string \<Rightarrow> string \<Rightarrow> (go_error + string, 's) op"

record 's SchedulerI =
  sc_Enqueue :: "Request \<Rightarrow> (go_error option, 's) op"
  sc_QueueDepth :: "(int, 's) op"

record OIDCIdentity =
  oi_Subject :: string
  oi_Email :: string
  oi_EmailVerified :: bool
  oi_DisplayName :: string

record 's OIDCAuthenticator =
  oa_Issuer :: string
  oa_AuthCodeURL :: "string \<Rightarrow> string \<Rightarrow> string"
  oa_Exchange :: "string \<Rightarrow> string \<Rightarrow> (go_error + OIDCIdentity, 's) op"

record 's Server =
  sv_Metadata :: "'s MetadataStore option"
  sv_AuthStore :: "'s AuthStore option"
  sv_Storage :: "'s StorageI option"
  sv_Scheduler :: "'s SchedulerI option"
  sv_Drivers :: "string list option"
  sv_ReloadInventory :: "(go_error option, 's) op option"
  sv_BootstrapToken :: string
  sv_AuthRequired :: bool
  sv_OIDC :: "'s OIDCAuthenticator option"
  sv_OIDCEnabled :: bool
  sv_OIDCSessionTTL :: duration
  sv_OIDCCookieName :: string
  sv_RequireEmailVerified :: bool
  sv_StartedAt :: instant
  sv_Now :: "(instant, 's) op" \<comment> \<open>the clock\<close>
  sv_Rand :: "nat \<Rightarrow> (go_error + string, 's) op" \<comment> \<open>\<open>rand.Read\<close> of n bytes\<close>
  sv_IsZero :: "Principal \<Rightarrow> bool" \<comment> \<open>\<open>Principal.IsZero\<close>\<close>
  sv_HasPermission :: "Principal \<Rightarrow> string \<Rightarrow> bool" \<comment> \<open>\<open>Principal.HasPermission\<close>\<close>

text \<open>The calls to the services, with the answers the code acts on.\<close>

datatype api_call =
    AValidate string "go_error + Principal"
  | AResolve string "go_error + Principal"
  | ACreate string Principal instant "go_error + string"
  | ARevoke string "go_error option"
  | AAudit AuditEvent
  | AExchange string string "go_error + OIDCIdentity"
  | AListDevices "go_error + Target list"
  | AGetDevice string "go_error + Target"
  | AEnqueue Request "go_error option"
  | AListRevisions string int
  | ALatest string
  | ADiff string string string
  | AListJobs int
  | AGetJob string
  | AReload
  | AListAudit int
  | AQueueDepth

record 's api_world =
  aw_state :: 's
  aw_calls :: "api_call list"

definition ask :: "('a \<Rightarrow> api_call) \<Rightarrow> ('a, 's) op \<Rightarrow> 's api_world \<Rightarrow> 'a \<times> 's api_world" where
  "ask c f w = (let (x, s) = f (aw_state w) in (x, \<lparr>aw_state = s, aw_calls = aw_calls w @ [c x]\<rparr>))"

text \<open>The clock and the random source, which are not recorded.\<close>

definition look :: "('a, 's) op \<Rightarrow> 's api_world \<Rightarrow> 'a \<times> 's api_world" where
  "look f w = (let (x, s) = f (aw_state w) in (x, w\<lparr>aw_state := s\<rparr>))"

section \<open>Requests and responses\<close>

record http_request =
  hr_Method :: string
  hr_Path :: string
  hr_Authorization :: string
  hr_Cookies :: "(string \<times> string) list"
  hr_Query :: "string \<Rightarrow> string"
  hr_RemoteAddr :: string
  hr_RequestID :: string
  hr_TLS :: bool

record req_context =
  cx_principal :: "Principal option"
  cx_token :: "string option"
  cx_param :: "string \<Rightarrow> string"

record cookie =
  ck_Name :: string
  ck_Value :: string
  ck_Path :: string
  ck_HttpOnly :: bool
  ck_Secure :: bool
  ck_SameSiteLax :: bool
  ck_MaxAge :: int
  ck_Expires :: "instant option"

datatype json =
    JStr string | JInt int | JNull
  | JObj "(string \<times> json) list" | JStrings "string list"
  | JPrincipal Principal | JTarget Target | JTargets "Target list"
  | JJob Job | JJobs "Job list" | JRevision Revision | JRevisions "Revision list"
  | JAudits "AuditEvent list"

record response =
  rp_Status :: int
  rp_Location :: "string option"
  rp_Cookies :: "cookie list"
  rp_Body :: "json option" \<comment> \<open>\<open>None\<close>: not written by \<open>writeJSON\<close>\<close>

definition writeJSON :: "int \<Rightarrow> json \<Rightarrow> response" where
  "writeJSON status v = \<lparr>rp_Status = status, rp_Location = None, rp_Cookies = [], rp_Body = Some v\<rparr>"

definition writeError :: "int \<Rightarrow> string \<Rightarrow> response" where
  "writeError status msg = writeJSON status (JObj [(''error'', JStr msg)])"

definition redirect :: "string \<Rightarrow> response" where
  "redirect url = \<lparr>rp_Status = 302, rp_Location = Some url, rp_Cookies = [], rp_Body = None\<rparr>"

text \<open>A panic, as \<open>middleware.Recoverer\<close> answers it.\<close>

definition panicked :: response where
  "panicked = \<lparr>rp_Status = 500, rp_Location = None, rp_Cookies = [], rp_Body = None\<rparr>"

definition with_cookies :: "cookie list \<Rightarrow> response \<Rightarrow> response" where
  "with_cookies cs resp = resp\<lparr>rp_Cookies := cs @ rp_Cookies resp\<rparr>"

type_synonym 's handler = "http_request \<Rightarrow> req_context \<Rightarrow> 's api_world \<Rightarrow> response \<times> 's api_world"

definition stateCookieName :: string where "stateCookieName = ''goxidized_oidc_state''"
definition nonceCookieName :: string where "nonceCookieName = ''goxidized_oidc_nonce''"

definition setTransientCookie :: "http_request \<Rightarrow> string \<Rightarrow> string \<Rightarrow> cookie" where
  "setTransientCookie r name v = \<lparr>ck_Name = name, ck_Value = v, ck_Path = ''/auth/oidc'', ck_HttpOnly = True,
     ck_Secure = hr_TLS r, ck_SameSiteLax = True, ck_MaxAge = 300, ck_Expires = None\<rparr>"

definition setSessionCookie :: "http_request \<Rightarrow> string \<Rightarrow> string \<Rightarrow> instant \<Rightarrow> cookie" where
  "setSessionCookie r name v expires = \<lparr>ck_Name = name, ck_Value = v, ck_Path = ''/'', ck_HttpOnly = True,
     ck_Secure = hr_TLS r, ck_SameSiteLax = True, ck_MaxAge = 0, ck_Expires = Some expires\<rparr>"

definition clearCookie :: "http_request \<Rightarrow> string \<Rightarrow> string \<Rightarrow> cookie" where
  "clearCookie r name path = \<lparr>ck_Name = name, ck_Value = [], ck_Path = path, ck_HttpOnly = True,
     ck_Secure = hr_TLS r, ck_SameSiteLax = True, ck_MaxAge = -1, ck_Expires = Some 62135596800000000000\<rparr>"

text \<open>\<open>r.Cookie(name)\<close>: the first cookie with the name.\<close>

definition Cookie :: "http_request \<Rightarrow> string \<Rightarrow> string option" where
  "Cookie r name = map_of (hr_Cookies r) name"

section \<open>Auditing\<close>

definition auditStore :: "'s Server \<Rightarrow> (AuditEvent \<Rightarrow> (go_error option, 's) op) option" where
  "auditStore sv =
     (case sv_AuthStore sv of
        Some a \<Rightarrow> Some (as_Audit a)
      | None \<Rightarrow> map_option md_Audit (sv_Metadata sv))"

definition sourceIP :: "http_request \<Rightarrow> string" where
  "sourceIP r = (case SplitHostPort (hr_RemoteAddr r) of Inr (host, _) \<Rightarrow> host | Inl _ \<Rightarrow> hr_RemoteAddr r)"

definition audit_actor :: "'s Server \<Rightarrow> req_context \<Rightarrow> Principal" where
  "audit_actor sv cx =
     (case cx_principal cx of
        Some p \<Rightarrow> if sv_IsZero sv p then empty_principal\<lparr>p_ActorType := ''anonymous'', p_ActorID := ''anonymous''\<rparr> else p
      | None \<Rightarrow> empty_principal\<lparr>p_ActorType := ''anonymous'', p_ActorID := ''anonymous''\<rparr>)"

definition audit_event :: "'s Server \<Rightarrow> http_request \<Rightarrow> req_context \<Rightarrow> string \<Rightarrow> string \<Rightarrow> string \<Rightarrow> (string \<rightharpoonup> string) \<Rightarrow> AuditEvent" where
  "audit_event sv r cx action outcome targetID metadata =
     (let p = audit_actor sv cx in
      \<lparr>ae_ID = [], ae_ActorType = p_ActorType p, ae_ActorID = p_ActorID p, ae_Action = action,
       ae_TargetID = targetID, ae_CredentialRef = [], ae_JobID = [], ae_RequestID = hr_RequestID r,
       ae_SourceIP = sourceIP r, ae_Outcome = outcome,
       ae_Metadata = [''method'' \<mapsto> hr_Method r, ''route'' \<mapsto> hr_Path r] ++ metadata, ae_CreatedAt = 0\<rparr>)"

definition api_audit :: "'s Server \<Rightarrow> http_request \<Rightarrow> req_context \<Rightarrow> string \<Rightarrow> string \<Rightarrow> string \<Rightarrow> (string \<rightharpoonup> string)
    \<Rightarrow> 's api_world \<Rightarrow> 's api_world" where
  "api_audit sv r cx action outcome targetID metadata w =
     (case auditStore sv of
        None \<Rightarrow> w
      | Some f \<Rightarrow>
          (let ev = audit_event sv r cx action outcome targetID metadata
           in snd (ask (\<lambda>_. AAudit ev) (f ev) w)))"

section \<open>Authentication and permissions\<close>

definition sessionCookieName :: "'s Server \<Rightarrow> string" where
  "sessionCookieName sv = (if sv_OIDCCookieName sv \<noteq> [] then sv_OIDCCookieName sv else ''goxidized_session'')"

definition authToken :: "'s Server \<Rightarrow> http_request \<Rightarrow> string \<times> string" where
  "authToken sv r =
     (let value = hr_Authorization r in
      if HasPrefix value ''Bearer '' then (TrimSpace (TrimPrefix value ''Bearer ''), ''bearer'')
      else (let cookieName = sessionCookieName sv in
            case (if cookieName \<noteq> [] then Cookie r cookieName else None) of
              Some v \<Rightarrow> (v, ''cookie'')
            | None \<Rightarrow> ([], [])))"

definition anonymous_principal :: Principal where
  "anonymous_principal = empty_principal\<lparr>p_ActorID := ''anonymous'', p_ActorType := ''anonymous'',
     p_AuthMethod := ''disabled'', p_Permissions := [''*'']\<rparr>"

definition bootstrap_principal :: Principal where
  "bootstrap_principal = empty_principal\<lparr>p_ActorID := ''bootstrap'', p_ActorType := ''bootstrap'',
     p_AuthMethod := ''bootstrap'', p_Roles := [''admin''], p_Permissions := [''*'']\<rparr>"

text \<open>The last attempts of \<open>auth\<close>: the bootstrap token, and the refusal.\<close>

definition auth_bootstrap :: "'s Server \<Rightarrow> string \<Rightarrow> string \<Rightarrow> 's handler \<Rightarrow> 's handler" where
  "auth_bootstrap sv token source nxt r cx w =
     (if source = ''bearer'' \<and> sv_BootstrapToken sv \<noteq> [] \<and> token = sv_BootstrapToken sv
      then nxt r (cx\<lparr>cx_principal := Some bootstrap_principal, cx_token := Some token\<rparr>) w
      else (writeError 401 ''unauthorized'',
            api_audit sv r cx ''auth.failed'' ''invalid_token'' [] [''route'' \<mapsto> hr_Path r, ''auth_source'' \<mapsto> source] w))"

definition auth :: "'s Server \<Rightarrow> 's handler \<Rightarrow> 's handler" where
  "auth sv nxt r cx w =
     (if \<not> sv_AuthRequired sv then nxt r (cx\<lparr>cx_principal := Some anonymous_principal\<rparr>) w
      else if sv_BootstrapToken sv = [] \<and> sv_AuthStore sv = None
      then (writeError 503 ''auth is enabled but no token validator is configured'', w)
      else
        (let (token, source) = authToken sv r in
         if token = []
         then (writeError 401 ''unauthorized'',
               api_audit sv r cx ''auth.failed'' ''missing_token'' [] [''route'' \<mapsto> hr_Path r] w)
         else (case sv_AuthStore sv of
                 None \<Rightarrow> auth_bootstrap sv token source nxt r cx w
               | Some a \<Rightarrow>
                   (let (v, w1) = ask (AValidate token) (as_ValidateAuthToken a token) w in
                    case v of
                      Inl e \<Rightarrow> auth_bootstrap sv token source nxt r cx w1
                    | Inr p \<Rightarrow>
                        if sv_IsZero sv p then auth_bootstrap sv token source nxt r cx w1
                        else (let p' = (if p_AuthMethod p = [] then p\<lparr>p_AuthMethod := source\<rparr> else p)
                              in nxt r (cx\<lparr>cx_principal := Some p', cx_token := Some token\<rparr>) w1)))))"

definition require :: "'s Server \<Rightarrow> string \<Rightarrow> 's handler \<Rightarrow> 's handler" where
  "require sv permission nxt r cx w =
     (case cx_principal cx of
        Some p \<Rightarrow>
          if sv_HasPermission sv p permission then nxt r cx w
          else (writeError 403 ''forbidden'',
                api_audit sv r cx ''permission.denied'' ''denied'' (cx_param cx ''id'')
                  [''permission'' \<mapsto> permission, ''route'' \<mapsto> hr_Path r] w)
      | None \<Rightarrow>
          (writeError 403 ''forbidden'',
           api_audit sv r cx ''permission.denied'' ''denied'' (cx_param cx ''id'')
             [''permission'' \<mapsto> permission, ''route'' \<mapsto> hr_Path r] w))"

section \<open>Handlers\<close>

definition queryLimit :: "http_request \<Rightarrow> int \<Rightarrow> int" where
  "queryLimit r def =
     (case Atoi (hr_Query r ''limit'') of
        None \<Rightarrow> def
      | Some limit \<Rightarrow> if limit \<le> 0 then def else if limit > 1000 then 1000 else limit)"

definition randomToken :: "'s Server \<Rightarrow> int \<Rightarrow> 's api_world \<Rightarrow> (go_error + string) \<times> 's api_world" where
  "randomToken sv sz w =
     (if sz \<le> 0 then (Inl (errors_New ''token size must be positive''), w)
      else (let (b, w1) = look (sv_Rand sv (nat sz)) w
            in (map_sum id EncodeToString b, w1)))"

text \<open>\<open>int(time.Since(s.StartedAt).Seconds())\<close>, the whole seconds.\<close>

definition health :: "'s Server \<Rightarrow> 's handler" where
  "health sv r cx w =
     (let (now, w1) = look (sv_Now sv) w;
          since = max (- (2 ^ 63)) (min (2 ^ 63 - 1) (now - sv_StartedAt sv))
      in (writeJSON 200 (JObj [(''status'', JStr ''ok''), (''uptime_seconds'', JInt (go_div since Second))]), w1))"

definition ready :: "'s Server \<Rightarrow> 's handler" where
  "ready sv r cx w =
     (case (sv_Metadata sv, sv_Storage sv, sv_Scheduler sv) of
        (Some _, Some _, Some sc) \<Rightarrow>
          (let (n, w1) = ask (\<lambda>_. AQueueDepth) (sc_QueueDepth sc) w
           in (writeJSON 200 (JObj [(''status'', JStr ''ready''), (''queue_depth'', JInt n)]), w1))
      | _ \<Rightarrow> (writeError 503 ''dependencies not ready'', w))"

text \<open>A call through an interface that may be nil.\<close>

definition via :: "'i option \<Rightarrow> ('i \<Rightarrow> 's api_world \<Rightarrow> response \<times> 's api_world) \<Rightarrow> 's api_world \<Rightarrow> response \<times> 's api_world" where
  "via i f w = (case i of None \<Rightarrow> (panicked, w) | Some x \<Rightarrow> f x w)"

definition logout :: "'s Server \<Rightarrow> 's handler" where
  "logout sv r cx w =
     (let token = (case cx_token cx of None \<Rightarrow> [] | Some t \<Rightarrow> t);
          (outcome, w1) =
            (case (if token \<noteq> [] then sv_AuthStore sv else None) of
               None \<Rightarrow> (''success'', w)
             | Some a \<Rightarrow> (let (err, w1) = ask (ARevoke token) (as_RevokeAuthToken a token) w
                          in (if err = None then ''success'' else ''failed'', w1)));
          w2 = api_audit sv r cx ''auth.logout'' outcome [] Map.empty w1;
          cs = [clearCookie r (sessionCookieName sv) ''/'']
      in if outcome = ''failed'' then (with_cookies cs (writeError 500 ''failed to revoke session''), w2)
         else (with_cookies cs (writeJSON 200 (JObj [(''status'', JStr ''logged_out'')])), w2))"

definition me :: "'s Server \<Rightarrow> 's handler" where
  "me sv r cx w =
     (writeJSON 200 (JPrincipal (case cx_principal cx of Some p \<Rightarrow> p | None \<Rightarrow> empty_principal)), w)"

definition listDevices :: "'s Server \<Rightarrow> 's handler" where
  "listDevices sv r cx = via (sv_Metadata sv) (\<lambda>m w.
     (let (x, w1) = ask AListDevices (md_ListDevices m) w
      in case x of
           Inl e \<Rightarrow> (writeError 500 (error_text e), w1)
         | Inr devices \<Rightarrow> (writeJSON 200 (JTargets devices), w1)))"

definition getDevice :: "'s Server \<Rightarrow> 's handler" where
  "getDevice sv r cx = via (sv_Metadata sv) (\<lambda>m w.
     (let i = cx_param cx ''id''; (x, w1) = ask (AGetDevice i) (md_GetDevice m i) w
      in case x of
           Inl e \<Rightarrow> (writeError 404 (error_text e), w1)
         | Inr d \<Rightarrow> (writeJSON 200 (JTarget d), w1)))"

definition ctx_principal :: "req_context \<Rightarrow> Principal" where
  "ctx_principal cx = (case cx_principal cx of Some p \<Rightarrow> p | None \<Rightarrow> empty_principal)"

definition api_request :: "Principal \<Rightarrow> Target \<Rightarrow> Request" where
  "api_request p d = \<lparr>rq_Job = \<lparr>j_ID = [], j_TargetID = t_ID d, j_Group = t_Group d, j_Trigger = ''api'',
     j_Actor = p_ActorID p, j_Status = StatusQueued, j_Attempt = 0, j_QueuedAt = 0, j_StartedAt = 0,
     j_UpdatedAt = 0\<rparr>, rq_Target = d\<rparr>"

definition backupDevice :: "'s Server \<Rightarrow> 's handler" where
  "backupDevice sv r cx = via (sv_Metadata sv) (\<lambda>m w.
     (let targetID = cx_param cx ''id''; (x, w1) = ask (AGetDevice targetID) (md_GetDevice m targetID) w
      in case x of
           Inl e \<Rightarrow> (writeError 404 (error_text e),
                     api_audit sv r cx ''backup.run'' ''not_found'' targetID [''scope'' \<mapsto> ''device''] w1)
         | Inr d \<Rightarrow>
             via (sv_Scheduler sv) (\<lambda>sc w.
               (let req = api_request (ctx_principal cx) d;
                    (err, w2) = ask (AEnqueue req) (sc_Enqueue sc req) w
                in case err of
                     Some e \<Rightarrow> (writeError 409 (error_text e),
                                api_audit sv r cx ''backup.run'' ''failed'' (t_ID d)
                                  [''scope'' \<mapsto> ''device'', ''error'' \<mapsto> error_text e] w2)
                   | None \<Rightarrow> (writeJSON 202 (JObj [(''status'', JStr ''queued''), (''target_id'', JStr (t_ID d))]),
                              api_audit sv r cx ''backup.run'' ''queued'' (t_ID d)
                                [''scope'' \<mapsto> ''device'', ''queued_count'' \<mapsto> ''1''] w2))) w1))"

text \<open>
  The loop of \<open>backupGroup\<close>: the number queued and the errors so far. \<open>None\<close> is the panic
  of the first call through a nil scheduler.
\<close>

fun backup_group_loop :: "'s SchedulerI option \<Rightarrow> Principal \<Rightarrow> string \<Rightarrow> Target list \<Rightarrow> int \<Rightarrow> string list
    \<Rightarrow> 's api_world \<Rightarrow> (int \<times> string list) option \<times> 's api_world" where
  "backup_group_loop sc p grp [] queued errs w = (Some (queued, errs), w)"
| "backup_group_loop sc p grp (d # ds) queued errs w =
     (if t_Group d \<noteq> grp \<or> \<not> t_Enabled d then backup_group_loop sc p grp ds queued errs w
      else (case sc of
              None \<Rightarrow> (None, w)
            | Some s \<Rightarrow>
                (let req = api_request p d; (err, w1) = ask (AEnqueue req) (sc_Enqueue s req) w
                 in case err of
                      Some e \<Rightarrow> backup_group_loop sc p grp ds queued (errs @ [t_ID d @ '': '' @ error_text e]) w1
                    | None \<Rightarrow> backup_group_loop sc p grp ds (queued + 1) errs w1)))"

definition backupGroup :: "'s Server \<Rightarrow> 's handler" where
  "backupGroup sv r cx = via (sv_Metadata sv) (\<lambda>m w.
     (let grp = cx_param cx ''group''; (x, w1) = ask AListDevices (md_ListDevices m) w
      in case x of
           Inl e \<Rightarrow> (writeError 500 (error_text e),
                     api_audit sv r cx ''backup.run'' ''failed'' []
                       [''scope'' \<mapsto> ''group'', ''group'' \<mapsto> grp, ''error'' \<mapsto> error_text e] w1)
         | Inr devices \<Rightarrow>
             (case backup_group_loop (sv_Scheduler sv) (ctx_principal cx) grp devices 0 [] w1 of
                (None, w2) \<Rightarrow> (panicked, w2)
              | (Some (queued, errs), w2) \<Rightarrow>
                  (writeJSON 202 (JObj [(''status'', JStr ''queued''), (''group'', JStr grp),
                                        (''queued'', JInt queued), (''errors'', JStrings errs)]),
                   api_audit sv r cx ''backup.run'' (if errs \<noteq> [] then ''partial'' else ''queued'') []
                     [''scope'' \<mapsto> ''group'', ''group'' \<mapsto> grp, ''queued_count'' \<mapsto> Itoa queued,
                      ''error_count'' \<mapsto> Itoa (int (length errs))] w2))))"

definition configHistory :: "'s Server \<Rightarrow> 's handler" where
  "configHistory sv r cx = via (sv_Metadata sv) (\<lambda>m w.
     (let targetID = cx_param cx ''id''; limit = queryLimit r 100;
          (x, w1) = ask (\<lambda>_. AListRevisions targetID limit) (md_ListRevisions m targetID limit) w
      in case x of
           Inl e \<Rightarrow> (writeError 500 (error_text e),
                     api_audit sv r cx ''config.history.read'' ''failed'' targetID [''limit'' \<mapsto> Itoa limit] w1)
         | Inr revs \<Rightarrow> (writeJSON 200 (JRevisions revs),
                        api_audit sv r cx ''config.history.read'' ''success'' targetID
                          [''limit'' \<mapsto> Itoa limit, ''count'' \<mapsto> Itoa (int (length revs))] w1)))"

definition latestConfig :: "'s Server \<Rightarrow> 's handler" where
  "latestConfig sv r cx = via (sv_Storage sv) (\<lambda>st w.
     (let targetID = cx_param cx ''id''; (x, w1) = ask (\<lambda>_. ALatest targetID) (st_Latest st targetID) w
      in case x of
           Inl e \<Rightarrow> (writeError 404 (error_text e),
                     api_audit sv r cx ''config.latest.read'' ''failed'' targetID Map.empty w1)
         | Inr (cfg, rv) \<Rightarrow>
             (writeJSON 200 (JObj [(''revision'', JRevision rv), (''content'', JStr (rc_Content cfg))]),
              api_audit sv r cx ''config.latest.read'' ''success'' targetID
                [''revision'' \<mapsto> r_ID rv, ''commit_sha'' \<mapsto> r_CommitSHA rv] w1)))"

definition diffConfig :: "'s Server \<Rightarrow> 's handler" where
  "diffConfig sv r cx w =
     (let targetID = cx_param cx ''id''; a = hr_Query r ''from''; b = hr_Query r ''to'';
          meta = [''from'' \<mapsto> a, ''to'' \<mapsto> b]
      in if a = [] \<or> b = []
         then (writeError 400 ''from and to query parameters are required'',
               api_audit sv r cx ''config.diff.read'' ''bad_request'' targetID meta w)
         else via (sv_Storage sv) (\<lambda>st w.
           (let (x, w1) = ask (\<lambda>_. ADiff targetID a b) (st_Diff st targetID a b) w
            in case x of
                 Inl e \<Rightarrow> (writeError 500 (error_text e),
                           api_audit sv r cx ''config.diff.read'' ''failed'' targetID meta w1)
               | Inr diff \<Rightarrow> (writeJSON 200 (JObj [(''diff'', JStr diff)]),
                              api_audit sv r cx ''config.diff.read'' ''success'' targetID meta w1))) w)"

definition listJobs :: "'s Server \<Rightarrow> 's handler" where
  "listJobs sv r cx = via (sv_Metadata sv) (\<lambda>m w.
     (let limit = queryLimit r 100; (x, w1) = ask (\<lambda>_. AListJobs limit) (md_ListJobs m limit) w
      in case x of
           Inl e \<Rightarrow> (writeError 500 (error_text e), w1)
         | Inr jobs \<Rightarrow> (writeJSON 200 (JJobs jobs), w1)))"

definition getJob :: "'s Server \<Rightarrow> 's handler" where
  "getJob sv r cx = via (sv_Metadata sv) (\<lambda>m w.
     (let i = cx_param cx ''id''; (x, w1) = ask (\<lambda>_. AGetJob i) (md_GetJob m i) w
      in case x of
           Inl e \<Rightarrow> (writeError 404 (error_text e), w1)
         | Inr job \<Rightarrow> (writeJSON 200 (JJob job), w1)))"

definition reloadInventory :: "'s Server \<Rightarrow> 's handler" where
  "reloadInventory sv r cx w =
     (case sv_ReloadInventory sv of
        None \<Rightarrow> (writeError 501 ''inventory reload is not configured'',
                 api_audit sv r cx ''inventory.reload'' ''not_configured'' [] Map.empty w)
      | Some f \<Rightarrow>
          (let (err, w1) = ask (\<lambda>_. AReload) f w
           in case err of
                Some e \<Rightarrow> (writeError 500 (error_text e),
                           api_audit sv r cx ''inventory.reload'' ''failed'' [] [''error'' \<mapsto> error_text e] w1)
              | None \<Rightarrow> (writeJSON 200 (JObj [(''status'', JStr ''reloaded'')]),
                         api_audit sv r cx ''inventory.reload'' ''success'' [] Map.empty w1)))"

definition listDrivers :: "'s Server \<Rightarrow> 's handler" where
  "listDrivers sv r cx w =
     (writeJSON 200 (JObj [(''drivers'', JStrings (case sv_Drivers sv of None \<Rightarrow> [] | Some ds \<Rightarrow> ds))]), w)"

definition driverTest :: "'s Server \<Rightarrow> 's handler" where
  "driverTest sv r cx w =
     (let name = cx_param cx ''name'' in
      if name = [] then (writeError 400 ''driver name required'',
                         api_audit sv r cx ''driver.test'' ''bad_request'' [] Map.empty w)
      else (writeJSON 202 (JObj [(''status'', JStr ''fixture-test endpoint registered''), (''driver'', JStr name)]),
            api_audit sv r cx ''driver.test'' ''accepted'' name Map.empty w))"

definition auditEvents :: "'s Server \<Rightarrow> 's handler" where
  "auditEvents sv r cx = via (sv_Metadata sv) (\<lambda>m w.
     (let limit = queryLimit r 100; (x, w1) = ask (\<lambda>_. AListAudit limit) (md_ListAuditEvents m limit) w
      in case x of
           Inl e \<Rightarrow> (writeError 500 (error_text e),
                     api_audit sv r cx ''audit.events.read'' ''failed'' [] [''limit'' \<mapsto> Itoa limit] w1)
         | Inr events \<Rightarrow> (writeJSON 200 (JAudits events),
                          api_audit sv r cx ''audit.events.read'' ''success'' []
                            [''limit'' \<mapsto> Itoa limit, ''count'' \<mapsto> Itoa (int (length events))] w1)))"

section \<open>The OIDC login\<close>

definition oidcSubject :: "'s Server \<Rightarrow> string \<Rightarrow> string" where
  "oidcSubject sv sub =
     (case sv_OIDC sv of
        None \<Rightarrow> ''oidc:#'' @ sub
      | Some o' \<Rightarrow> ''oidc:'' @ oa_Issuer o' @ ''#'' @ sub)"

definition oidcLogin :: "'s Server \<Rightarrow> 's handler" where
  "oidcLogin sv r cx w =
     (case (if sv_OIDCEnabled sv then sv_OIDC sv else None) of
        None \<Rightarrow> (writeError 404 ''oidc login is not enabled'', w)
      | Some o' \<Rightarrow>
          (let (state, w1) = randomToken sv 24 w in
           case state of
             Inl e \<Rightarrow> (writeError 500 ''failed to create oidc state'', w1)
           | Inr state \<Rightarrow>
               (let (nonce, w2) = randomToken sv 24 w1 in
                case nonce of
                  Inl e \<Rightarrow> (writeError 500 ''failed to create oidc nonce'', w2)
                | Inr nonce \<Rightarrow>
                    (with_cookies [setTransientCookie r stateCookieName state, setTransientCookie r nonceCookieName nonce]
                       (redirect (oa_AuthCodeURL o' state nonce)), w2))))"

text \<open>The session for a resolved principal: token, expiry, row, cookie, audit entry.\<close>

definition callback_session :: "'s Server \<Rightarrow> 's AuthStore \<Rightarrow> OIDCIdentity \<Rightarrow> Principal \<Rightarrow> 's handler" where
  "callback_session sv a identity p r cx w =
     (let (token, w1) = randomToken sv 32 w in
      case token of
        Inl e \<Rightarrow> (writeError 500 ''failed to create session token'', w1)
      | Inr token \<Rightarrow>
          (let ttl = (if sv_OIDCSessionTTL sv \<le> 0 then 8 * Hour else sv_OIDCSessionTTL sv);
               (now, w2) = look (sv_Now sv) w1;
               expiresAt = now + ttl;
               p1 = p\<lparr>p_AuthMethod := ''oidc_session'',
                      p_DisplayName := (if p_DisplayName p = [] then oi_DisplayName identity else p_DisplayName p)\<rparr>;
               (i, w3) = ask (ACreate (tokenHash token) p1 expiresAt)
                           (as_CreateOIDCSession a (tokenHash token) p1 expiresAt) w2
           in case i of
                Inl e \<Rightarrow> (writeError 500 ''failed to create oidc session'',
                          api_audit sv r cx ''auth.oidc.login'' ''failed'' []
                            [''subject'' \<mapsto> p_Subject p1, ''error'' \<mapsto> ''session_create_failed''] w3)
              | Inr sessionID \<Rightarrow>
                  (let p2 = p1\<lparr>p_TokenID := sessionID, p_ExpiresAt := expiresAt\<rparr>
                   in (with_cookies [setSessionCookie r (sessionCookieName sv) token expiresAt] (redirect ''/ui/''),
                       api_audit sv r (cx\<lparr>cx_principal := Some p2\<rparr>) ''auth.oidc.login'' ''success'' []
                         [''subject'' \<mapsto> p_Subject p2] w3))))"

text \<open>With the code and the nonce of a request whose state matched its cookie.\<close>

definition callback_exchange :: "'s Server \<Rightarrow> 's OIDCAuthenticator \<Rightarrow> 's AuthStore \<Rightarrow> string \<Rightarrow> string \<Rightarrow> 's handler" where
  "callback_exchange sv o' a code' nonce r cx w =
     (let (identity, w1) = ask (AExchange code' nonce) (oa_Exchange o' code' nonce) w in
      case identity of
        Inl e \<Rightarrow> (writeError 401 ''oidc token verification failed'',
                  api_audit sv r cx ''auth.oidc.login'' ''failed'' [] [''error'' \<mapsto> ''token_exchange_or_verify_failed''] w1)
      | Inr identity \<Rightarrow>
          (let subject = oidcSubject sv (oi_Subject identity) in
           if sv_RequireEmailVerified sv \<and> \<not> oi_EmailVerified identity
           then (writeError 403 ''oidc email is not verified'',
                 api_audit sv r cx ''auth.oidc.login'' ''failed'' []
                   [''subject'' \<mapsto> subject, ''error'' \<mapsto> ''email_not_verified''] w1)
           else
             (let (resolved, w2) = ask (AResolve subject) (as_ResolveOIDCPrincipal a subject) w1 in
              case resolved of
                Inl e \<Rightarrow> (writeError 403 ''oidc user is not provisioned'',
                          api_audit sv r cx ''auth.oidc.login'' ''failed'' []
                            [''subject'' \<mapsto> subject, ''error'' \<mapsto> ''unknown_or_unassigned_user''] w2)
              | Inr p \<Rightarrow>
                  if p_Roles p = []
                  then (writeError 403 ''oidc user has no roles'',
                        api_audit sv r cx ''auth.oidc.login'' ''failed'' []
                          [''subject'' \<mapsto> p_Subject p, ''error'' \<mapsto> ''no_roles''] w2)
                  else callback_session sv a identity p r cx w2)))"

definition callback_start :: "'s Server \<Rightarrow> 's OIDCAuthenticator \<Rightarrow> 's AuthStore \<Rightarrow> 's handler" where
  "callback_start sv o' a r cx w =
     (let msg = hr_Query r ''error''; code' = hr_Query r ''code''; state = hr_Query r ''state'' in
      if msg \<noteq> [] then (writeError 401 ''oidc login failed'',
                         api_audit sv r cx ''auth.oidc.login'' ''failed'' [] [''error'' \<mapsto> msg] w)
      else (case (Cookie r stateCookieName, Cookie r nonceCookieName) of
              (Some stateCookie, Some nonceCookie) \<Rightarrow>
                if code' = [] \<or> state = [] \<or> stateCookie \<noteq> state
                then (writeError 400 ''invalid oidc state'',
                      api_audit sv r cx ''auth.oidc.login'' ''failed'' [] [''error'' \<mapsto> ''state_mismatch''] w)
                else callback_exchange sv o' a code' nonceCookie r cx w
            | _ \<Rightarrow> (writeError 400 ''invalid oidc state'',
                    api_audit sv r cx ''auth.oidc.login'' ''failed'' [] [''error'' \<mapsto> ''state_mismatch''] w)))"

definition oidcCallback :: "'s Server \<Rightarrow> 's handler" where
  "oidcCallback sv r cx w =
     (case (if sv_OIDCEnabled sv then sv_OIDC sv else None, sv_AuthStore sv) of
        (Some o', Some a) \<Rightarrow>
          (let (resp, w1) = callback_start sv o' a r cx w
           in (with_cookies [clearCookie r stateCookieName ''/auth/oidc'', clearCookie r nonceCookieName ''/auth/oidc''] resp, w1))
      | _ \<Rightarrow> (writeError 404 ''oidc login is not enabled'', w))"

section \<open>The OpenID Connect client\<close>

text \<open>
  The libraries behind api/oidc.go: provider discovery, the OAuth 2 code exchange and the
  verification of ID tokens. \<open>ol_id_token\<close> is \<open>token.Extra("id_token").(string)\<close>.
\<close>

record OIDCSettings =
  os_IssuerURL :: string
  os_ClientID :: string
  os_ClientSecret :: string
  os_RedirectURL :: string
  os_Scopes :: "string list"
  os_RequireVerified :: bool

record 'p oauth2_config =
  oc_ClientID :: string
  oc_ClientSecret :: string
  oc_Endpoint :: 'p
  oc_RedirectURL :: string
  oc_Scopes :: "string list"

record oidc_claims =
  cl_Subject :: string
  cl_Email :: string
  cl_EmailVerified :: bool
  cl_Name :: string
  cl_PreferredUsername :: string
  cl_Nonce :: string

record ('s, 'p, 't, 'i) oidc_lib =
  ol_NewProvider :: "string \<Rightarrow> go_error + 'p"
  ol_AuthCodeURL :: "'p oauth2_config \<Rightarrow> string \<Rightarrow> string \<Rightarrow> string"
  ol_Exchange :: "'p oauth2_config \<Rightarrow> string \<Rightarrow> (go_error + 't, 's) op"
  ol_id_token :: "'t \<Rightarrow> string option"
  ol_Verify :: "'p \<Rightarrow> string \<Rightarrow> string \<Rightarrow> (go_error + 'i, 's) op"
  ol_Claims :: "'i \<Rightarrow> go_error + oidc_claims"
  ol_Subject :: "'i \<Rightarrow> string"

record 'p goOIDCAuthenticator =
  go_issuer :: string
  go_oauth2Config :: "'p oauth2_config"
  go_verifier :: "'p \<times> string" \<comment> \<open>the provider and the client it verifies for\<close>

definition NewOIDCAuthenticator :: "('s, 'p, 't, 'i) oidc_lib \<Rightarrow> OIDCSettings \<Rightarrow> go_error + 'p goOIDCAuthenticator" where
  "NewOIDCAuthenticator lib st =
     (if os_IssuerURL st = [] then Inl (errors_New ''oidc issuer URL is required'')
      else if os_ClientID st = [] then Inl (errors_New ''oidc client ID is required'')
      else if os_ClientSecret st = [] then Inl (errors_New ''oidc client secret is required'')
      else (case ol_NewProvider lib (os_IssuerURL st) of
              Inl e \<Rightarrow> Inl e
            | Inr p \<Rightarrow> Inr \<lparr>go_issuer = os_IssuerURL st,
                go_oauth2Config = \<lparr>oc_ClientID = os_ClientID st, oc_ClientSecret = os_ClientSecret st, oc_Endpoint = p,
                  oc_RedirectURL = os_RedirectURL st,
                  oc_Scopes = (if os_Scopes st = [] then [''openid'', ''profile'', ''email''] else os_Scopes st)\<rparr>,
                go_verifier = (p, os_ClientID st)\<rparr>))"

definition display_name :: "oidc_claims \<Rightarrow> string" where
  "display_name c =
     (if cl_Name c \<noteq> [] then cl_Name c
      else if cl_PreferredUsername c \<noteq> [] then cl_PreferredUsername c else cl_Email c)"

text \<open>The checks on a verified ID token.\<close>

definition identity_of :: "('s, 'p, 't, 'i) oidc_lib \<Rightarrow> string \<Rightarrow> 'i \<Rightarrow> go_error + OIDCIdentity" where
  "identity_of lib nonce idToken =
     (case ol_Claims lib idToken of
        Inl e \<Rightarrow> Inl e
      | Inr c \<Rightarrow>
          (let sub = (if cl_Subject c = [] then ol_Subject lib idToken else cl_Subject c) in
           if sub = [] then Inl (errors_New ''oidc id_token subject is empty'')
           else if nonce \<noteq> [] \<and> cl_Nonce c \<noteq> nonce then Inl (errors_New ''oidc nonce mismatch'')
           else Inr \<lparr>oi_Subject = sub, oi_Email = cl_Email c, oi_EmailVerified = cl_EmailVerified c,
                     oi_DisplayName = display_name c\<rparr>))"

definition Exchange :: "('s, 'p, 't, 'i) oidc_lib \<Rightarrow> 'p goOIDCAuthenticator \<Rightarrow> string \<Rightarrow> string \<Rightarrow> (go_error + OIDCIdentity, 's) op" where
  "Exchange lib a code' nonce =
     and_then (ol_Exchange lib (go_oauth2Config a) code') (\<lambda>token s.
       (case ol_id_token lib token of
          None \<Rightarrow> (Inl (errors_New ''oidc provider did not return an id_token''), s)
        | Some raw \<Rightarrow>
            if raw = [] then (Inl (errors_New ''oidc provider did not return an id_token''), s)
            else and_then (ol_Verify lib (fst (go_verifier a)) (snd (go_verifier a)) raw)
                   (\<lambda>idToken s. (identity_of lib nonce idToken, s)) s))"

definition oidc_authenticator :: "('s, 'p, 't, 'i) oidc_lib \<Rightarrow> 'p goOIDCAuthenticator \<Rightarrow> 's OIDCAuthenticator" where
  "oidc_authenticator lib a = \<lparr>oa_Issuer = go_issuer a,
     oa_AuthCodeURL = ol_AuthCodeURL lib (go_oauth2Config a), oa_Exchange = Exchange lib a\<rparr>"

section \<open>The router\<close>

text \<open>
  The tables of routes in the order of registration. The routes under \<open>/api/v1\<close> form a
  router of their own behind \<open>auth\<close>, which therefore also runs for an unknown path there.
\<close>

datatype root_route =
    RRedirectUI | RAssets | RUI | RHealth | RReady | RMetrics | ROidcLogin | ROidcCallback | RLogout | RApi

datatype api_route =
    RMe | RListDevices | RGetDevice | RBackupDevice | RBackupGroup | RConfigHistory | RLatestConfig
  | RDiffConfig | RListJobs | RGetJob | RReloadInventory | RListDrivers | RDriverTest | RAuditEvents

definition root_routes :: "(string option \<times> string \<times> root_route) list" where
  "root_routes =
     [(Some ''GET'', ''/'', RRedirectUI), (Some ''GET'', ''/ui'', RRedirectUI),
      (None, ''/ui/assets/*'', RAssets), (None, ''/ui/*'', RUI),
      (Some ''GET'', ''/healthz'', RHealth), (Some ''GET'', ''/readyz'', RReady), (None, ''/metrics'', RMetrics),
      (Some ''GET'', ''/auth/oidc/login'', ROidcLogin), (Some ''GET'', ''/auth/oidc/callback'', ROidcCallback),
      (Some ''POST'', ''/auth/logout'', RLogout), (None, ''/api/v1'', RApi)]"

definition api_routes :: "(string \<times> string \<times> string option \<times> api_route) list" where
  "api_routes =
     [(''GET'', ''/auth/me'', None, RMe),
      (''GET'', ''/devices'', Some ''devices:read'', RListDevices),
      (''GET'', ''/devices/{id}'', Some ''devices:read'', RGetDevice),
      (''POST'', ''/devices/{id}/backup'', Some ''backups:run'', RBackupDevice),
      (''POST'', ''/groups/{group}/backup'', Some ''backups:run'', RBackupGroup),
      (''GET'', ''/devices/{id}/configs'', Some ''configs:read'', RConfigHistory),
      (''GET'', ''/devices/{id}/configs/latest'', Some ''configs:read'', RLatestConfig),
      (''GET'', ''/devices/{id}/configs/diff'', Some ''configs:diff'', RDiffConfig),
      (''GET'', ''/jobs'', Some ''jobs:read'', RListJobs),
      (''GET'', ''/jobs/{id}'', Some ''jobs:read'', RGetJob),
      (''POST'', ''/inventory/reload'', Some ''inventory:reload'', RReloadInventory),
      (''GET'', ''/drivers'', Some ''drivers:read'', RListDrivers),
      (''POST'', ''/drivers/{name}/test'', Some ''drivers:test'', RDriverTest),
      (''GET'', ''/audit/events'', Some ''audit:read'', RAuditEvents)]"

fun api_handler :: "'s Server \<Rightarrow> api_route \<Rightarrow> 's handler" where
  "api_handler sv RMe = me sv"
| "api_handler sv RListDevices = listDevices sv"
| "api_handler sv RGetDevice = getDevice sv"
| "api_handler sv RBackupDevice = backupDevice sv"
| "api_handler sv RBackupGroup = backupGroup sv"
| "api_handler sv RConfigHistory = configHistory sv"
| "api_handler sv RLatestConfig = latestConfig sv"
| "api_handler sv RDiffConfig = diffConfig sv"
| "api_handler sv RListJobs = listJobs sv"
| "api_handler sv RGetJob = getJob sv"
| "api_handler sv RReloadInventory = reloadInventory sv"
| "api_handler sv RListDrivers = listDrivers sv"
| "api_handler sv RDriverTest = driverTest sv"
| "api_handler sv RAuditEvents = auditEvents sv"

text \<open>
  What chi decides about a request: the matched index of a table with the URL parameters,
  or its answer when nothing matches; and the handlers that are not the program's own.
\<close>

record chi =
  chi_root :: "http_request \<Rightarrow> (nat \<times> (string \<Rightarrow> string)) option"
  chi_api :: "http_request \<Rightarrow> (nat \<times> (string \<Rightarrow> string)) option"
  chi_no_route :: "http_request \<Rightarrow> response" \<comment> \<open>404 or 405\<close>
  chi_static :: "bool \<Rightarrow> http_request \<Rightarrow> response" \<comment> \<open>the files of web, the flag adding \<open>Cache-Control\<close>\<close>
  chi_metrics :: "http_request \<Rightarrow> response"

definition guarded :: "'s Server \<Rightarrow> string option \<Rightarrow> 's handler \<Rightarrow> 's handler" where
  "guarded sv perm h = (case perm of None \<Rightarrow> h | Some p \<Rightarrow> require sv p h)"

definition api_router :: "chi \<Rightarrow> 's Server \<Rightarrow> 's handler" where
  "api_router ch sv = auth sv (\<lambda>r cx w.
     (case chi_api ch r of
        None \<Rightarrow> (chi_no_route ch r, w)
      | Some (i, params) \<Rightarrow>
          if i < length api_routes
          then (let (_, _, perm, route) = api_routes ! i
                in guarded sv perm (api_handler sv route) r (cx\<lparr>cx_param := params\<rparr>) w)
          else (chi_no_route ch r, w)))"

definition root_handler :: "chi \<Rightarrow> 's Server \<Rightarrow> root_route \<Rightarrow> 's handler" where
  "root_handler ch sv route r cx w =
     (case route of
        RRedirectUI \<Rightarrow> (redirect ''/ui/'', w)
      | RAssets \<Rightarrow> (chi_static ch True r, w)
      | RUI \<Rightarrow> (chi_static ch False r, w)
      | RHealth \<Rightarrow> health sv r cx w
      | RReady \<Rightarrow> ready sv r cx w
      | RMetrics \<Rightarrow> (chi_metrics ch r, w)
      | ROidcLogin \<Rightarrow> oidcLogin sv r cx w
      | ROidcCallback \<Rightarrow> oidcCallback sv r cx w
      | RLogout \<Rightarrow> auth sv (logout sv) r cx w
      | RApi \<Rightarrow> api_router ch sv r cx w)"

definition Router :: "chi \<Rightarrow> 's Server \<Rightarrow> http_request \<Rightarrow> 's api_world \<Rightarrow> response \<times> 's api_world" where
  "Router ch sv r w =
     (case chi_root ch r of
        None \<Rightarrow> (chi_no_route ch r, w)
      | Some (i, params) \<Rightarrow>
          if i < length root_routes
          then root_handler ch sv (snd (snd (root_routes ! i))) r
                 \<lparr>cx_principal = None, cx_token = None, cx_param = params\<rparr> w
          else (chi_no_route ch r, w))"

section \<open>The calls of a handler\<close>

definition extends :: "'s api_world \<Rightarrow> 's api_world \<Rightarrow> (api_call \<Rightarrow> bool) \<Rightarrow> bool" where
  "extends w w' P \<longleftrightarrow> (\<exists>cs. aw_calls w' = aw_calls w @ cs \<and> (\<forall>c\<in>set cs. P c))"

lemma extendsE:
  assumes "extends w w' P"
  obtains cs where "aw_calls w' = aw_calls w @ cs" "\<forall>c\<in>set cs. P c"
  using assms unfolding extends_def by (elim exE conjE)

lemma extends_refl [simp]: "extends w w P"
  by (simp add: extends_def)

lemma extends_trans: "extends w w1 P \<Longrightarrow> extends w1 w2 P \<Longrightarrow> extends w w2 P"
  unfolding extends_def by (elim exE conjE) (simp, blast)

lemma extends_mono: "extends w w' P \<Longrightarrow> (\<And>c. P c \<Longrightarrow> Q c) \<Longrightarrow> extends w w' Q"
  unfolding extends_def by blast

lemma extends_ask: "ask c f w = (x, w') \<Longrightarrow> P (c x) \<Longrightarrow> extends w w' P"
  by (auto simp: ask_def extends_def split: prod.splits)

lemma extends_look: "look f w = (x, w') \<Longrightarrow> extends w w' P"
  by (auto simp: look_def extends_def split: prod.splits)

lemma extends_audit: "P (AAudit (audit_event sv r cx a out t md)) \<Longrightarrow> extends w (api_audit sv r cx a out t md w) P"
  by (auto simp: api_audit_def ask_def extends_def Let_def split: option.splits prod.splits)

text \<open>Going on with an audit entry after some calls.\<close>

lemma extends_then_audit:
  "extends w w1 P \<Longrightarrow> P (AAudit (audit_event sv r cx a out t md)) \<Longrightarrow> extends w (api_audit sv r cx a out t md w1) P"
  by (rule extends_trans [OF _ extends_audit])

lemma via_cases:
  assumes "via i f w = (resp, w')"
  obtains (nil) "i = None" "resp = panicked" "w' = w"
  | (call) x where "i = Some x" "f x w = (resp, w')"
  using assms by (auto simp: via_def split: option.splits)

text \<open>
  The calls that read or change what the API protects, and the permissions under which
  each of them is made.
\<close>

fun serves :: "string \<Rightarrow> api_call \<Rightarrow> bool" where
  "serves p (AListDevices _) = (p \<in> {''devices:read'', ''backups:run''})"
| "serves p (AGetDevice _ _) = (p \<in> {''devices:read'', ''backups:run''})"
| "serves p (AEnqueue _ _) = (p = ''backups:run'')"
| "serves p (AListRevisions _ _) = (p = ''configs:read'')"
| "serves p (ALatest _) = (p = ''configs:read'')"
| "serves p (ADiff _ _ _) = (p = ''configs:diff'')"
| "serves p (AListJobs _) = (p = ''jobs:read'')"
| "serves p (AGetJob _) = (p = ''jobs:read'')"
| "serves p AReload = (p = ''inventory:reload'')"
| "serves p (AListAudit _) = (p = ''audit:read'')"
| "serves p (AAudit _) = True"
| "serves p _ = False"

fun sensitive :: "api_call \<Rightarrow> bool" where
  "sensitive (AValidate _ _) = False"
| "sensitive (AResolve _ _) = False"
| "sensitive (ACreate _ _ _ _) = False"
| "sensitive (ARevoke _ _) = False"
| "sensitive (AAudit _) = False"
| "sensitive (AExchange _ _ _) = False"
| "sensitive AQueueDepth = False"
| "sensitive _ = True"

text \<open>Jobs are queued and audit entries written in the name of the principal.\<close>

fun in_name_of :: "'s Server \<Rightarrow> Principal \<Rightarrow> api_call \<Rightarrow> bool" where
  "in_name_of sv p (AEnqueue req _) = (j_Actor (rq_Job req) = p_ActorID p \<and> j_Trigger (rq_Job req) = ''api''
      \<and> j_TargetID (rq_Job req) = t_ID (rq_Target req))"
| "in_name_of sv p (AAudit ev) = (ae_ActorID ev = (if sv_IsZero sv p then ''anonymous'' else p_ActorID p))"
| "in_name_of sv p _ = True"

lemma audit_event_actor [simp]:
  "cx_principal cx = Some p \<Longrightarrow>
   ae_ActorID (audit_event sv r cx a out t md) = (if sv_IsZero sv p then ''anonymous'' else p_ActorID p)"
  by (simp add: audit_event_def audit_actor_def Let_def empty_principal_def)

lemma api_request_simps [simp]:
  "j_Actor (rq_Job (api_request p d)) = p_ActorID p" "j_Trigger (rq_Job (api_request p d)) = ''api''"
  "j_TargetID (rq_Job (api_request p d)) = t_ID d" "rq_Target (api_request p d) = d"
  by (simp_all add: api_request_def)

definition under :: "'s Server \<Rightarrow> Principal \<Rightarrow> string \<Rightarrow> api_call \<Rightarrow> bool" where
  "under sv p perm c \<longleftrightarrow> serves perm c \<and> in_name_of sv p c"

lemmas handler_defs = listDevices_def getDevice_def backupDevice_def backupGroup_def configHistory_def
  latestConfig_def diffConfig_def listJobs_def getJob_def reloadInventory_def listDrivers_def driverTest_def
  auditEvents_def me_def

lemma backup_group_loop_calls:
  assumes "backup_group_loop sc p grp ds queued errs w = (res, w')"
  shows "extends w w' (\<lambda>c. under sv p ''backups:run'' c
      \<and> (\<forall>req e. c = AEnqueue req e \<longrightarrow> rq_Target req \<in> set ds \<and> t_Enabled (rq_Target req) \<and> t_Group (rq_Target req) = grp))"
  using assms
proof (induction sc p grp ds queued errs w rule: backup_group_loop.induct)
  case (2 sc p grp d ds queued errs w)
  let ?P = "\<lambda>ds c. under sv p ''backups:run'' c
      \<and> (\<forall>req e. c = AEnqueue req e \<longrightarrow> rq_Target req \<in> set ds \<and> t_Enabled (rq_Target req) \<and> t_Group (rq_Target req) = grp)"
  have mono: "extends w1 w2 (?P ds) \<Longrightarrow> extends w1 w2 (?P (d # ds))" for w1 w2 :: "'a api_world"
    by (erule extends_mono) auto
  show ?case
  proof (cases "t_Group d \<noteq> grp \<or> \<not> t_Enabled d")
    case True
    with 2 show ?thesis by (intro mono) simp
  next
    case False
    show ?thesis
    proof (cases sc)
      case None
      with 2 False show ?thesis by simp
    next
      case (Some s)
      obtain err w1 where a: "ask (AEnqueue (api_request p d)) (sc_Enqueue s (api_request p d)) w = (err, w1)" by fastforce
      have e1: "extends w w1 (?P (d # ds))"
        using False by (intro extends_ask [OF a]) (auto simp: under_def api_request_def)
      moreover have "extends w1 w' (?P ds)"
        using 2 False Some a by (cases err) auto
      ultimately show ?thesis using extends_trans mono by blast
    qed
  qed
qed simp

lemma ask_case_calls:
  assumes "(case ask c f w of (x, w1) \<Rightarrow> (case x of Inl e \<Rightarrow> g e w1 | Inr y \<Rightarrow> h y w1)) = (resp, w')"
    and "\<And>x. P (c x)"
    and "\<And>e w1. g e w1 = (resp, w') \<Longrightarrow> extends w1 w' P"
    and "\<And>y w1. h y w1 = (resp, w') \<Longrightarrow> extends w1 w' P"
  shows "extends w w' P"
proof -
  obtain x w1 where a: "ask c f w = (x, w1)" by fastforce
  have "extends w w1 P" by (rule extends_ask [OF a]) (rule assms(2))
  moreover have "extends w1 w' P" using assms(1,3,4) a by (cases x) auto
  ultimately show ?thesis by (rule extends_trans)
qed

lemma via_ask_calls:
  assumes "via i (\<lambda>m w. case ask (c m) (f m) w of (x, w1) \<Rightarrow> (case x of Inl e \<Rightarrow> g e w1 | Inr y \<Rightarrow> h m y w1)) w = (resp, w')"
    and "\<And>m x. P (c m x)"
    and "\<And>e w1. g e w1 = (resp, w') \<Longrightarrow> extends w1 w' P"
    and "\<And>m y w1. h m y w1 = (resp, w') \<Longrightarrow> extends w1 w' P"
  shows "extends w w' P"
  using assms(1)
proof (cases rule: via_cases)
  case (call m)
  from call(2) show ?thesis by (rule ask_case_calls) (use assms(2-4) in auto)
qed simp

text \<open>An answer with nothing more to do, or with an audit entry.\<close>

lemma answered: "(resp0, w) = (resp, w') \<Longrightarrow> extends w w' P"
  by simp

lemma answered_audited:
  "(resp0, api_audit sv r cx a out t md w) = (resp, w') \<Longrightarrow> P (AAudit (audit_event sv r cx a out t md)) \<Longrightarrow> extends w w' P"
  by (auto intro: extends_audit)

lemma under_audit [intro]:
  "cx_principal cx = Some p \<Longrightarrow> under sv p perm (AAudit (audit_event sv r cx a out t md))"
  by (simp add: under_def)

lemma me_calls: "me sv r cx w = (resp, w') \<Longrightarrow> extends w w' (under sv p perm)"
  by (simp add: me_def)

lemma listDrivers_calls: "listDrivers sv r cx w = (resp, w') \<Longrightarrow> extends w w' (under sv p perm)"
  by (simp add: listDrivers_def)

lemma driverTest_calls:
  "driverTest sv r cx w = (resp, w') \<Longrightarrow> cx_principal cx = Some p \<Longrightarrow> extends w w' (under sv p perm)"
  by (auto simp: driverTest_def Let_def split: if_splits intro: extends_audit)

lemma listDevices_calls: "listDevices sv r cx w = (resp, w') \<Longrightarrow> extends w w' (under sv p ''devices:read'')"
  unfolding listDevices_def Let_def by (erule via_ask_calls) (simp add: under_def, (erule answered)+)

lemma getDevice_calls: "getDevice sv r cx w = (resp, w') \<Longrightarrow> extends w w' (under sv p ''devices:read'')"
  unfolding getDevice_def Let_def by (erule via_ask_calls) (simp add: under_def, (erule answered)+)

lemma listJobs_calls: "listJobs sv r cx w = (resp, w') \<Longrightarrow> extends w w' (under sv p ''jobs:read'')"
  unfolding listJobs_def Let_def by (erule via_ask_calls) (simp add: under_def, (erule answered)+)

lemma getJob_calls: "getJob sv r cx w = (resp, w') \<Longrightarrow> extends w w' (under sv p ''jobs:read'')"
  unfolding getJob_def Let_def by (erule via_ask_calls) (simp add: under_def, (erule answered)+)

lemma configHistory_calls:
  "configHistory sv r cx w = (resp, w') \<Longrightarrow> cx_principal cx = Some p \<Longrightarrow> extends w w' (under sv p ''configs:read'')"
  unfolding configHistory_def Let_def
  by (erule via_ask_calls) (simp add: under_def, (erule answered_audited, erule under_audit)+)

lemma auditEvents_calls:
  "auditEvents sv r cx w = (resp, w') \<Longrightarrow> cx_principal cx = Some p \<Longrightarrow> extends w w' (under sv p ''audit:read'')"
  unfolding auditEvents_def Let_def
  by (erule via_ask_calls) (simp add: under_def, (erule answered_audited, erule under_audit)+)

lemma latestConfig_calls:
  "latestConfig sv r cx w = (resp, w') \<Longrightarrow> cx_principal cx = Some p \<Longrightarrow> extends w w' (under sv p ''configs:read'')"
  unfolding latestConfig_def Let_def
  by (erule via_ask_calls)
     (simp add: under_def, erule answered_audited, erule under_audit,
      simp only: split: prod.splits, erule answered_audited, erule under_audit)

lemma diffConfig_calls:
  assumes "diffConfig sv r cx w = (resp, w')" "cx_principal cx = Some p"
  shows "extends w w' (under sv p ''configs:diff'')"
proof (cases "hr_Query r ''from'' = [] \<or> hr_Query r ''to'' = []")
  case True
  with assms show ?thesis by (auto simp: diffConfig_def Let_def intro: extends_audit)
next
  case False
  let ?a = "hr_Query r ''from''" and ?b = "hr_Query r ''to''" and ?t = "cx_param cx ''id''"
  have "via (sv_Storage sv) (\<lambda>st w. case ask (\<lambda>_. ADiff ?t ?a ?b) (st_Diff st ?t ?a ?b) w of
      (x, w1) \<Rightarrow> (case x of
         Inl e \<Rightarrow> (writeError 500 (error_text e),
                   api_audit sv r cx ''config.diff.read'' ''failed'' ?t [''from'' \<mapsto> ?a, ''to'' \<mapsto> ?b] w1)
       | Inr diff \<Rightarrow> (writeJSON 200 (JObj [(''diff'', JStr diff)]),
                      api_audit sv r cx ''config.diff.read'' ''success'' ?t [''from'' \<mapsto> ?a, ''to'' \<mapsto> ?b] w1))) w = (resp, w')"
    using assms(1) False unfolding diffConfig_def Let_def by simp
  then show ?thesis
    by (rule via_ask_calls) (simp add: under_def, (erule answered_audited, rule under_audit, rule assms(2))+)
qed

lemma reloadInventory_calls:
  "reloadInventory sv r cx w = (resp, w') \<Longrightarrow> cx_principal cx = Some p \<Longrightarrow> extends w w' (under sv p ''inventory:reload'')"
  by (auto simp: reloadInventory_def under_def split: option.splits prod.splits
      intro: extends_audit intro!: extends_then_audit elim!: extends_ask)

lemma enqueue_calls:
  assumes "cx_principal cx = Some p"
    and "via i (\<lambda>sc w. case ask (AEnqueue (api_request p d)) (sc_Enqueue sc (api_request p d)) w of
      (err, w2) \<Rightarrow> (case err of Some e \<Rightarrow> (b e, api_audit sv r cx a o1 t1 (md1 e) w2)
                               | None \<Rightarrow> (b', api_audit sv r cx a' o2 t2 md2 w2))) w = (resp, w')"
  shows "extends w w' (under sv p ''backups:run'')"
  using assms(2)
proof (cases rule: via_cases)
  case (call sc)
  obtain err w2 where q: "ask (AEnqueue (api_request p d)) (sc_Enqueue sc (api_request p d)) w = (err, w2)" by fastforce
  have "extends w w2 (under sv p ''backups:run'')" by (rule extends_ask [OF q]) (simp add: under_def)
  with call q show ?thesis
    by (cases err) (auto intro: extends_then_audit under_audit [OF assms(1)])
qed simp

lemma backupDevice_calls:
  "backupDevice sv r cx w = (resp, w') \<Longrightarrow> cx_principal cx = Some p \<Longrightarrow> extends w w' (under sv p ''backups:run'')"
  unfolding backupDevice_def Let_def ctx_principal_def
  by (erule via_ask_calls)
     (simp add: under_def, erule answered_audited, erule under_audit, simp, erule (1) enqueue_calls [rotated])

lemma backupGroup_calls:
  assumes "backupGroup sv r cx w = (resp, w')" "cx_principal cx = Some p"
  shows "extends w w' (under sv p ''backups:run'')"
  using assms(1) unfolding backupGroup_def Let_def
proof (rule via_ask_calls)
  fix m devices w1
  assume h: "(case backup_group_loop (sv_Scheduler sv) (ctx_principal cx) (cx_param cx ''group'') devices 0 [] w1 of
      (None, w2) \<Rightarrow> (panicked, w2)
    | (Some (queued, errs), w2) \<Rightarrow>
        (writeJSON 202 (JObj [(''status'', JStr ''queued''), (''group'', JStr (cx_param cx ''group'')),
                              (''queued'', JInt queued), (''errors'', JStrings errs)]),
         api_audit sv r cx ''backup.run'' (if errs \<noteq> [] then ''partial'' else ''queued'') []
           [''scope'' \<mapsto> ''group'', ''group'' \<mapsto> cx_param cx ''group'', ''queued_count'' \<mapsto> Itoa queued,
            ''error_count'' \<mapsto> Itoa (int (length errs))] w2)) = (resp, w')"
  obtain res w2 where l: "backup_group_loop (sv_Scheduler sv) (ctx_principal cx) (cx_param cx ''group'') devices 0 [] w1 = (res, w2)"
    by fastforce
  have "extends w1 w2 (under sv p ''backups:run'')"
    using backup_group_loop_calls [OF l, of sv] assms(2)
    by (intro extends_mono [OF backup_group_loop_calls [OF l, of sv]]) (auto simp: ctx_principal_def)
  with h l show "extends w1 w' (under sv p ''backups:run'')"
    by (auto split: option.splits prod.splits intro: extends_then_audit under_audit [OF assms(2)])
qed (auto simp: under_def assms(2) intro: extends_audit)

lemma require_cases:
  assumes "require sv perm h r cx w = (resp, w')" "cx_principal cx = Some p"
  obtains (denied) "\<not> sv_HasPermission sv p perm" "resp = writeError 403 ''forbidden''"
      "w' = api_audit sv r cx ''permission.denied'' ''denied'' (cx_param cx ''id'') [''permission'' \<mapsto> perm, ''route'' \<mapsto> hr_Path r] w"
  | (allowed) "sv_HasPermission sv p perm" "h r cx w = (resp, w')"
  using assms by (auto simp: require_def split: if_splits)

text \<open>A call under a permission the principal has, or an audit entry.\<close>

definition permitted :: "'s Server \<Rightarrow> Principal \<Rightarrow> api_call \<Rightarrow> bool" where
  "permitted sv p c \<longleftrightarrow> in_name_of sv p c \<and> (sensitive c \<longrightarrow> (\<exists>perm. sv_HasPermission sv p perm \<and> serves perm c))
     \<and> (\<not> sensitive c \<longrightarrow> (\<exists>ev. c = AAudit ev))"

lemma serves_plain: "serves perm c \<Longrightarrow> \<not> sensitive c \<Longrightarrow> \<exists>ev. c = AAudit ev"
  by (cases c) auto

lemma under_permitted: "sv_HasPermission sv p perm \<Longrightarrow> under sv p perm c \<Longrightarrow> permitted sv p c"
  using serves_plain [of perm c] by (auto simp: permitted_def under_def)

lemma permitted_audit: "cx_principal cx = Some p \<Longrightarrow> permitted sv p (AAudit (audit_event sv r cx a out t md))"
  by (simp add: permitted_def)

lemma guarded_handler:
  assumes "guarded sv (Some perm) h r cx w = (resp, w')" "cx_principal cx = Some p"
    and "h r cx w = (resp, w') \<Longrightarrow> extends w w' (under sv p perm)"
  shows "extends w w' (permitted sv p)"
proof -
  from assms(1) have "require sv perm h r cx w = (resp, w')" by (simp add: guarded_def)
  from this assms(2) show ?thesis
  proof (cases rule: require_cases)
    case denied
    then show ?thesis using assms(2) by (auto intro: extends_audit permitted_audit)
  next
    case allowed
    from assms(3) [OF allowed(2)] show ?thesis
      by (rule extends_mono) (rule under_permitted [OF allowed(1)])
  qed
qed

text \<open>Every route of the API, behind the permission its table entry names.\<close>

fun route_permission :: "api_route \<Rightarrow> string option" where
  "route_permission RMe = None"
| "route_permission RListDevices = Some ''devices:read''"
| "route_permission RGetDevice = Some ''devices:read''"
| "route_permission RBackupDevice = Some ''backups:run''"
| "route_permission RBackupGroup = Some ''backups:run''"
| "route_permission RConfigHistory = Some ''configs:read''"
| "route_permission RLatestConfig = Some ''configs:read''"
| "route_permission RDiffConfig = Some ''configs:diff''"
| "route_permission RListJobs = Some ''jobs:read''"
| "route_permission RGetJob = Some ''jobs:read''"
| "route_permission RReloadInventory = Some ''inventory:reload''"
| "route_permission RListDrivers = Some ''drivers:read''"
| "route_permission RDriverTest = Some ''drivers:test''"
| "route_permission RAuditEvents = Some ''audit:read''"

lemma api_routes_permission: "\<forall>(m, pat, perm, route)\<in>set api_routes. perm = route_permission route"
  by (simp add: api_routes_def)

lemmas plain_calls = listDevices_calls getDevice_calls listJobs_calls getJob_calls listDrivers_calls
lemmas audited_calls = backupDevice_calls backupGroup_calls configHistory_calls latestConfig_calls diffConfig_calls
  reloadInventory_calls driverTest_calls auditEvents_calls

lemma api_route_calls:
  assumes "i < length api_routes" "api_routes ! i = (m, pat, perm, route)"
    and "guarded sv perm (api_handler sv route) r cx w = (resp, w')" "cx_principal cx = Some p"
  shows "extends w w' (permitted sv p)"
proof -
  have "(m, pat, perm, route) \<in> set api_routes" using assms(1,2) by (metis nth_mem)
  then have perm: "perm = route_permission route" using api_routes_permission by fastforce
  show ?thesis
  proof (cases route)
    case RMe
    with assms(3) perm show ?thesis by (simp add: guarded_def me_def)
  qed (use assms(3) perm in \<open>simp only: route_permission.simps api_handler.simps\<close>,
       erule guarded_handler [OF _ assms(4)], (erule plain_calls | (erule audited_calls, rule assms(4))))+
qed

section \<open>Who is behind a call\<close>

text \<open>
  The principal the middleware accepts for a request: the answer of the store to the token
  the request presents, or the bootstrap principal for the configured bearer token.
\<close>

definition authenticated :: "'s Server \<Rightarrow> http_request \<Rightarrow> api_call list \<Rightarrow> string \<Rightarrow> Principal \<Rightarrow> bool" where
  "authenticated sv r cs token p \<longleftrightarrow>
     token \<noteq> [] \<and> fst (authToken sv r) = token
     \<and> ((\<exists>q. AValidate token (Inr q) \<in> set cs \<and> \<not> sv_IsZero sv q
            \<and> p = (if p_AuthMethod q = [] then q\<lparr>p_AuthMethod := snd (authToken sv r)\<rparr> else q))
        \<or> snd (authToken sv r) = ''bearer'' \<and> token = sv_BootstrapToken sv \<and> p = bootstrap_principal)"

fun refusal_call :: "api_call \<Rightarrow> bool" where
  "refusal_call (AValidate _ _) = True"
| "refusal_call (AAudit ev) = (ae_ActorID ev = ''anonymous'' \<and> ae_Action ev = ''auth.failed'')"
| "refusal_call _ = False"

lemma auth_bootstrap_cases:
  assumes "auth_bootstrap sv token source nxt r cx w = (resp, w')" "cx_principal cx = None"
  obtains (refused) "extends w w' refusal_call" "rp_Status resp = 401"
  | (passed) "source = ''bearer''" "token = sv_BootstrapToken sv" "token \<noteq> []"
      "nxt r (cx\<lparr>cx_principal := Some bootstrap_principal, cx_token := Some token\<rparr>) w = (resp, w')"
proof (cases "source = ''bearer'' \<and> sv_BootstrapToken sv \<noteq> [] \<and> token = sv_BootstrapToken sv")
  case True
  with assms(1) show ?thesis by (intro passed) (simp_all add: auth_bootstrap_def)
next
  case False
  with assms have "w' = api_audit sv r cx ''auth.failed'' ''invalid_token'' [] [''route'' \<mapsto> hr_Path r, ''auth_source'' \<mapsto> source] w"
    "resp = writeError 401 ''unauthorized''" by (auto simp: auth_bootstrap_def)
  with assms(2) show ?thesis
    by (intro refused) (auto intro!: extends_audit simp: audit_event_def audit_actor_def Let_def empty_principal_def writeError_def writeJSON_def)
qed

lemma auth_cases:
  assumes "auth sv nxt r cx w = (resp, w')" "sv_AuthRequired sv" "cx_principal cx = None"
  obtains (refused) "extends w w' refusal_call" "rp_Status resp \<in> {401, 503}"
  | (passed) p token w1 cs where "aw_calls w1 = aw_calls w @ cs" "\<forall>c\<in>set cs. refusal_call c"
      "authenticated sv r cs token p" "nxt r (cx\<lparr>cx_principal := Some p, cx_token := Some token\<rparr>) w1 = (resp, w')"
proof -
  note refuse = that(1) and pass = that(2)
  obtain token source where t: "authToken sv r = (token, source)" by fastforce
  show ?thesis
  proof (cases "sv_BootstrapToken sv = [] \<and> sv_AuthStore sv = None \<or> token = []")
    case True
    with assms t have "extends w w' refusal_call \<and> rp_Status resp \<in> {401, 503}"
      by (auto simp: auth_def Let_def writeError_def writeJSON_def audit_event_def audit_actor_def empty_principal_def
          split: if_splits intro!: extends_audit)
    then show ?thesis by (intro refuse) auto
  next
    case False
    then have ne: "token \<noteq> []" and store: "\<not> (sv_BootstrapToken sv = [] \<and> sv_AuthStore sv = None)" by auto
    have boot: thesis
      if b: "auth_bootstrap sv token source nxt r cx w1 = (resp, w')"
        and w1: "aw_calls w1 = aw_calls w @ cs" "\<forall>c\<in>set cs. refusal_call c" for w1 cs
      using b assms(3)
    proof (cases rule: auth_bootstrap_cases)
      case refused
      have "extends w w1 refusal_call" using w1 by (auto simp: extends_def)
      from extends_trans [OF this refused(1)] refused(2) show thesis by (intro refuse) auto
    next
      case passed
      then have "authenticated sv r cs token bootstrap_principal" using t by (simp add: authenticated_def)
      with w1 passed(4) show thesis by (intro pass)
    qed
    show ?thesis
    proof (cases "sv_AuthStore sv")
      case None
      with assms t ne store have "auth_bootstrap sv token source nxt r cx w = (resp, w')"
        by (simp add: auth_def Let_def)
      then show ?thesis by (rule boot [where cs = "[]"]) simp_all
    next
      case (Some a)
      obtain v w1 where q: "ask (AValidate token) (as_ValidateAuthToken a token) w = (v, w1)" by fastforce
      then have w1: "aw_calls w1 = aw_calls w @ [AValidate token v]"
        by (auto simp: ask_def split: prod.splits)
      have cont: "(case v of Inl e \<Rightarrow> auth_bootstrap sv token source nxt r cx w1
          | Inr p \<Rightarrow> if sv_IsZero sv p then auth_bootstrap sv token source nxt r cx w1
             else nxt r (cx\<lparr>cx_principal := Some (if p_AuthMethod p = [] then p\<lparr>p_AuthMethod := source\<rparr> else p),
                            cx_token := Some token\<rparr>) w1) = (resp, w')"
        using assms(1,2) t ne store Some q unfolding auth_def Let_def by (cases v) (auto split: if_splits)
      show ?thesis
      proof (cases "\<exists>p. v = Inr p \<and> \<not> sv_IsZero sv p")
        case True
        then obtain p where p: "v = Inr p" "\<not> sv_IsZero sv p" by auto
        have au: "authenticated sv r [AValidate token v] token (if p_AuthMethod p = [] then p\<lparr>p_AuthMethod := source\<rparr> else p)"
          using p ne t by (simp add: authenticated_def)
        show ?thesis by (rule pass [OF w1 _ au]) (use cont p in auto)
      next
        case False
        with cont have "auth_bootstrap sv token source nxt r cx w1 = (resp, w')"
          by (auto split: sum.splits if_splits)
        then show ?thesis by (rule boot [OF _ w1]) simp
      qed
    qed
  qed
qed

lemma authenticated_mono: "authenticated sv r cs token p \<Longrightarrow> set cs \<subseteq> set ds \<Longrightarrow> authenticated sv r ds token p"
  by (auto simp: authenticated_def)

lemma refusal_not_sensitive: "refusal_call c \<Longrightarrow> \<not> sensitive c"
  by (cases c) auto

text \<open>What one request may have done: the calls with the principal behind them.\<close>

definition authorised_calls :: "'s Server \<Rightarrow> http_request \<Rightarrow> api_call list \<Rightarrow> bool" where
  "authorised_calls sv r cs \<longleftrightarrow>
     (\<forall>c\<in>set cs. sensitive c \<longrightarrow>
        (\<exists>token p perm. authenticated sv r cs token p \<and> sv_HasPermission sv p perm \<and> serves perm c \<and> in_name_of sv p c))"

lemma authorised_none: "\<forall>c\<in>set cs. \<not> sensitive c \<Longrightarrow> authorised_calls sv r cs"
  by (simp add: authorised_calls_def)

lemma auth_authorised:
  assumes "auth sv nxt r cx w = (resp, w')" "sv_AuthRequired sv" "cx_principal cx = None"
    and nxt: "\<And>p token w1. nxt r (cx\<lparr>cx_principal := Some p, cx_token := Some token\<rparr>) w1 = (resp, w') \<Longrightarrow>
      extends w1 w' (\<lambda>c. sensitive c \<longrightarrow> permitted sv p c)"
  obtains cs where "aw_calls w' = aw_calls w @ cs" "authorised_calls sv r cs"
  using assms(1-3)
proof (cases rule: auth_cases)
  case refused
  then obtain cs where "aw_calls w' = aw_calls w @ cs" "\<forall>c\<in>set cs. refusal_call c" by (elim extendsE)
  then show ?thesis by (intro that authorised_none) (auto dest: refusal_not_sensitive)
next
  case (passed p token w1 cs)
  from nxt [OF passed(4)] obtain ds where ds: "aw_calls w' = aw_calls w1 @ ds"
    "\<forall>c\<in>set ds. sensitive c \<longrightarrow> permitted sv p c" by (elim extendsE)
  have "authenticated sv r (cs @ ds) token p" using passed(3) by (rule authenticated_mono) simp
  moreover have "\<forall>c\<in>set cs. \<not> sensitive c" using passed(2) by (auto dest: refusal_not_sensitive)
  ultimately have "authorised_calls sv r (cs @ ds)"
    using ds(2) by (fastforce simp: authorised_calls_def permitted_def)
  with ds(1) passed(1) show ?thesis by (intro that) auto
qed

section \<open>The calls of a login\<close>

text \<open>
  What is behind the insertion of a session: the state cookie matched, the provider
  answered the code and the nonce of the cookie with an identity, whose email is verified
  where that is required, and the store resolved its subject to a principal with roles.
\<close>

definition login_checked :: "'s Server \<Rightarrow> http_request \<Rightarrow> api_call list \<Rightarrow> OIDCIdentity \<Rightarrow> Principal \<Rightarrow> bool" where
  "login_checked sv r cs identity q \<longleftrightarrow>
     hr_Query r ''error'' = [] \<and> hr_Query r ''code'' \<noteq> [] \<and> hr_Query r ''state'' \<noteq> []
     \<and> Cookie r stateCookieName = Some (hr_Query r ''state'')
     \<and> (\<exists>nonce. Cookie r nonceCookieName = Some nonce \<and> AExchange (hr_Query r ''code'') nonce (Inr identity) \<in> set cs)
     \<and> (sv_RequireEmailVerified sv \<longrightarrow> oi_EmailVerified identity)
     \<and> AResolve (oidcSubject sv (oi_Subject identity)) (Inr q) \<in> set cs \<and> p_Roles q \<noteq> []"

definition session_principal :: "OIDCIdentity \<Rightarrow> Principal \<Rightarrow> Principal" where
  "session_principal identity q = q\<lparr>p_AuthMethod := ''oidc_session'',
     p_DisplayName := (if p_DisplayName q = [] then oi_DisplayName identity else p_DisplayName q)\<rparr>"

text \<open>The insertion and the cookies: a cookie with a value carries the token whose hash was stored.\<close>

fun login_call :: "api_call \<Rightarrow> bool" where
  "login_call (AExchange _ _ _) = True"
| "login_call (AResolve _ _) = True"
| "login_call (AAudit ev) = (ae_Action ev = ''auth.oidc.login'')"
| "login_call _ = False"

definition session_issued :: "'s Server \<Rightarrow> http_request \<Rightarrow> OIDCIdentity \<Rightarrow> Principal \<Rightarrow> api_call list \<Rightarrow> response \<Rightarrow> bool" where
  "session_issued sv r identity q cs resp \<longleftrightarrow>
     (\<forall>c\<in>set cs. login_call c) \<and> rp_Cookies resp = []
   \<or> (\<exists>token e i rest. cs = ACreate (tokenHash token) (session_principal identity q) e i # rest
        \<and> (\<forall>c\<in>set rest. login_call c)
        \<and> (case i of Inl _ \<Rightarrow> rp_Cookies resp = []
           | Inr _ \<Rightarrow> rp_Status resp = 302 \<and> rp_Cookies resp = [setSessionCookie r (sessionCookieName sv) token e]))"

lemma calls_look [simp]: "look f w = (x, w') \<Longrightarrow> aw_calls w' = aw_calls w"
  by (auto simp: look_def split: prod.splits)

lemma calls_ask: "ask c f w = (x, w') \<Longrightarrow> aw_calls w' = aw_calls w @ [c x]"
  by (auto simp: ask_def split: prod.splits)

lemma calls_randomToken: "randomToken sv n w = (x, w') \<Longrightarrow> aw_calls w' = aw_calls w"
  by (auto simp: randomToken_def look_def Let_def split: prod.splits if_splits)

lemma login_audit:
  obtains rest where "aw_calls (api_audit sv r cx ''auth.oidc.login'' out t md w) = aw_calls w @ rest"
    "\<forall>c\<in>set rest. login_call c"
proof -
  have "extends w (api_audit sv r cx ''auth.oidc.login'' out t md w) login_call"
    by (rule extends_audit) (simp add: audit_event_def Let_def)
  then show ?thesis by (elim extendsE) (rule that)
qed

lemma no_cookies [simp]: "rp_Cookies (writeError st msg) = []" "rp_Cookies (redirect url) = []"
  by (simp_all add: writeError_def writeJSON_def redirect_def)

lemma callback_session_calls:
  assumes "callback_session sv a identity q r cx w = (resp, w')"
  obtains cs where "aw_calls w' = aw_calls w @ cs" "session_issued sv r identity q cs resp"
proof -
  obtain tk w1 where t: "randomToken sv 32 w = (tk, w1)" by fastforce
  note w1 = calls_randomToken [OF t]
  show ?thesis
  proof (cases tk)
    case (Inl e)
    with assms t have "w' = w1" "resp = writeError 500 ''failed to create session token''"
      by (auto simp: callback_session_def)
    with w1 show ?thesis by (intro that [of "[]"]) (simp_all add: session_issued_def)
  next
    case (Inr token)
    let ?ttl = "if sv_OIDCSessionTTL sv \<le> 0 then 8 * Hour else sv_OIDCSessionTTL sv"
    let ?p = "session_principal identity q"
    obtain now w2 where n: "look (sv_Now sv) w1 = (now, w2)" by fastforce
    obtain i w3 where c: "ask (ACreate (tokenHash token) ?p (now + ?ttl))
        (as_CreateOIDCSession a (tokenHash token) ?p (now + ?ttl)) w2 = (i, w3)" by fastforce
    have w3: "aw_calls w3 = aw_calls w @ [ACreate (tokenHash token) ?p (now + ?ttl) i]"
      using calls_ask [OF c] calls_look [OF n] w1 by simp
    from assms t Inr n c have res: "(resp, w') = (case i of
        Inl e \<Rightarrow> (writeError 500 ''failed to create oidc session'',
                  api_audit sv r cx ''auth.oidc.login'' ''failed'' []
                    [''subject'' \<mapsto> p_Subject ?p, ''error'' \<mapsto> ''session_create_failed''] w3)
      | Inr sid \<Rightarrow>
          (with_cookies [setSessionCookie r (sessionCookieName sv) token (now + ?ttl)] (redirect ''/ui/''),
           api_audit sv r (cx\<lparr>cx_principal := Some (?p\<lparr>p_TokenID := sid, p_ExpiresAt := now + ?ttl\<rparr>)\<rparr>)
             ''auth.oidc.login'' ''success'' [] [''subject'' \<mapsto> p_Subject ?p] w3))"
      by (cases i) (simp_all add: callback_session_def Let_def session_principal_def)
    show ?thesis
    proof (cases i)
      case (Inl e)
      with res obtain md where w': "w' = api_audit sv r cx ''auth.oidc.login'' ''failed'' [] md w3" and nc: "rp_Cookies resp = []"
        by auto
      obtain rest where "aw_calls w' = aw_calls w3 @ rest" "\<forall>c\<in>set rest. login_call c"
        unfolding w' by (rule login_audit)
      with w3 nc Inl show ?thesis by (intro that) (auto simp: session_issued_def)
    next
      case (Inr sid)
      with res obtain cx' md where w': "w' = api_audit sv r cx' ''auth.oidc.login'' ''success'' [] md w3"
        and nc: "rp_Status resp = 302 \<and> rp_Cookies resp = [setSessionCookie r (sessionCookieName sv) token (now + ?ttl)]"
        by (auto simp: with_cookies_def redirect_def)
      obtain rest where "aw_calls w' = aw_calls w3 @ rest" "\<forall>c\<in>set rest. login_call c"
        unfolding w' by (rule login_audit)
      with w3 nc Inr show ?thesis by (intro that) (auto simp: session_issued_def)
    qed
  qed
qed

definition login_result :: "'s Server \<Rightarrow> http_request \<Rightarrow> api_call list \<Rightarrow> response \<Rightarrow> bool" where
  "login_result sv r cs resp \<longleftrightarrow>
     (\<forall>c\<in>set cs. login_call c) \<and> rp_Cookies resp = []
   \<or> (\<exists>identity q before cs'. cs = before @ cs' \<and> (\<forall>c\<in>set before. login_call c)
        \<and> login_checked sv r before identity q \<and> session_issued sv r identity q cs' resp)"

lemma login_refused:
  assumes "aw_calls w1 = aw_calls w @ cs" "\<forall>c\<in>set cs. login_call c"
    and "(resp, w') = (writeError st msg, api_audit sv r cx ''auth.oidc.login'' out t md w1)"
  obtains ds where "aw_calls w' = aw_calls w @ ds" "login_result sv r ds resp"
proof -
  have w': "w' = api_audit sv r cx ''auth.oidc.login'' out t md w1" and nc: "rp_Cookies resp = []" using assms(3) by auto
  obtain rest where "aw_calls w' = aw_calls w1 @ rest" "\<forall>c\<in>set rest. login_call c"
    unfolding w' by (rule login_audit)
  with assms(1,2) nc show ?thesis by (intro that [of "cs @ rest"]) (auto simp: login_result_def)
qed


lemma callback_exchange_calls:
  assumes "callback_exchange sv o' a (hr_Query r ''code'') nonce r cx w = (resp, w')"
    and ok: "hr_Query r ''error'' = []" "hr_Query r ''code'' \<noteq> []" "hr_Query r ''state'' \<noteq> []"
      "Cookie r stateCookieName = Some (hr_Query r ''state'')" "Cookie r nonceCookieName = Some nonce"
  obtains cs where "aw_calls w' = aw_calls w @ cs" "login_result sv r cs resp"
proof -
  obtain idn w1 where x: "ask (AExchange (hr_Query r ''code'') nonce) (oa_Exchange o' (hr_Query r ''code'') nonce) w = (idn, w1)"
    by fastforce
  note w1 = calls_ask [OF x]
  show ?thesis
  proof (cases idn)
    case (Inl e)
    with assms(1) x obtain st msg md where
      "(resp, w') = (writeError st msg, api_audit sv r cx ''auth.oidc.login'' ''failed'' [] md w1)"
      by (auto simp: callback_exchange_def)
    from login_refused [OF w1 _ this] show ?thesis by (auto intro: that)
  next
    case (Inr identity)
    let ?sub = "oidcSubject sv (oi_Subject identity)"
    show ?thesis
    proof (cases "sv_RequireEmailVerified sv \<and> \<not> oi_EmailVerified identity")
      case True
      with assms(1) x Inr obtain st msg md where
        "(resp, w') = (writeError st msg, api_audit sv r cx ''auth.oidc.login'' ''failed'' [] md w1)"
        by (auto simp: callback_exchange_def Let_def)
      from login_refused [OF w1 _ this] show ?thesis by (auto intro: that)
    next
      case verified: False
      obtain res w2 where y: "ask (AResolve ?sub) (as_ResolveOIDCPrincipal a ?sub) w1 = (res, w2)" by fastforce
      have w2: "aw_calls w2 = aw_calls w @ [AExchange (hr_Query r ''code'') nonce idn, AResolve ?sub res]"
        using calls_ask [OF y] w1 by simp
      show ?thesis
      proof (cases "\<exists>q. res = Inr q \<and> p_Roles q \<noteq> []")
        case False
        with assms(1) x Inr verified y obtain st msg md where
          "(resp, w') = (writeError st msg, api_audit sv r cx ''auth.oidc.login'' ''failed'' [] md w2)"
          by (cases res) (auto simp: callback_exchange_def Let_def)
        from login_refused [OF w2 _ this] show ?thesis by (auto intro: that)
      next
        case True
        then obtain q where q: "res = Inr q" "p_Roles q \<noteq> []" by auto
        with assms(1) x Inr verified y have "callback_session sv a identity q r cx w2 = (resp, w')"
          by (simp add: callback_exchange_def Let_def)
        then obtain cs where cs: "aw_calls w' = aw_calls w2 @ cs" "session_issued sv r identity q cs resp"
          by (rule callback_session_calls)
        let ?before = "[AExchange (hr_Query r ''code'') nonce idn, AResolve ?sub res]"
        have "login_checked sv r ?before identity q"
          using ok verified q Inr by (auto simp: login_checked_def)
        then have "login_result sv r (?before @ cs) resp"
          using cs(2) unfolding login_result_def
          by (intro disjI2 exI [of _ identity] exI [of _ q] exI [of _ ?before] exI [of _ cs]) simp
        with cs(1) w2 show ?thesis by (intro that) auto
      qed
    qed
  qed
qed

lemma callback_start_calls:
  assumes "callback_start sv o' a r cx w = (resp, w')"
  obtains cs where "aw_calls w' = aw_calls w @ cs" "login_result sv r cs resp"
proof (cases "hr_Query r ''error'' = [] \<and> hr_Query r ''code'' \<noteq> [] \<and> hr_Query r ''state'' \<noteq> []
    \<and> Cookie r stateCookieName = Some (hr_Query r ''state'') \<and> Cookie r nonceCookieName \<noteq> None")
  case True
  then obtain nonce where n: "Cookie r nonceCookieName = Some nonce" by auto
  with assms True have "callback_exchange sv o' a (hr_Query r ''code'') nonce r cx w = (resp, w')"
    by (simp add: callback_start_def Let_def)
  then show ?thesis by (rule callback_exchange_calls) (use True n that in auto)
next
  case False
  have "\<exists>st msg md. (resp, w') = (writeError st msg, api_audit sv r cx ''auth.oidc.login'' ''failed'' [] md w)"
    using assms False by (auto simp: callback_start_def Let_def split: if_splits option.splits)
  then obtain st msg md where
    "(resp, w') = (writeError st msg, api_audit sv r cx ''auth.oidc.login'' ''failed'' [] md w)" by auto
  from login_refused [of w w "[]", OF _ _ this] show ?thesis by (auto intro: that)
qed

text \<open>The callback clears its two cookies, whatever it answers.\<close>

definition login_cookies_cleared :: "http_request \<Rightarrow> cookie list" where
  "login_cookies_cleared r = [clearCookie r stateCookieName ''/auth/oidc'', clearCookie r nonceCookieName ''/auth/oidc'']"

lemma callback_calls:
  assumes "oidcCallback sv r cx w = (resp, w')"
  obtains cs resp0 where "aw_calls w' = aw_calls w @ cs" "login_result sv r cs resp0"
    "cs \<noteq> [] \<longrightarrow> sv_OIDCEnabled sv \<and> rp_Status resp = rp_Status resp0
       \<and> rp_Cookies resp = login_cookies_cleared r @ rp_Cookies resp0"
proof (cases "sv_OIDCEnabled sv \<and> sv_OIDC sv \<noteq> None \<and> sv_AuthStore sv \<noteq> None")
  case True
  then obtain o' a where oa: "sv_OIDCEnabled sv" "sv_OIDC sv = Some o'" "sv_AuthStore sv = Some a" by auto
  obtain resp0 w1 where s: "callback_start sv o' a r cx w = (resp0, w1)" by fastforce
  with assms oa have r: "w' = w1" "resp = with_cookies (login_cookies_cleared r) resp0"
    by (auto simp: oidcCallback_def login_cookies_cleared_def)
  from s obtain cs where "aw_calls w1 = aw_calls w @ cs" "login_result sv r cs resp0" by (rule callback_start_calls)
  with r oa show ?thesis by (intro that [of cs resp0]) (auto simp: with_cookies_def)
next
  case False
  with assms have "w' = w" "resp = writeError 404 ''oidc login is not enabled''"
    by (auto simp: oidcCallback_def split: option.splits if_splits)
  then show ?thesis by (intro that [of "[]" resp]) (simp_all add: login_result_def)
qed

lemma sensitive_not_login: "sensitive c \<Longrightarrow> \<not> login_call c"
  by (cases c) auto

lemma login_result_calls:
  assumes "login_result sv r cs resp" "c \<in> set cs"
  shows "\<not> sensitive c"
proof -
  have "login_call c \<or> (\<exists>h p e i. c = ACreate h p e i)"
    using assms unfolding login_result_def session_issued_def by (elim disjE exE conjE) auto
  then show ?thesis using sensitive_not_login [of c] by auto
qed


section \<open>What a request can do\<close>

text \<open>The ways through the router: no call but \<open>QueueDepth\<close>, the callback, or a handler behind \<open>auth\<close>.\<close>

lemma Router_cases:
  assumes "Router ch sv r w = (resp, w')"
  obtains (free) cs where "aw_calls w' = aw_calls w @ cs" "set cs \<subseteq> {AQueueDepth}"
  | (callback) cx where "cx_principal cx = None" "oidcCallback sv r cx w = (resp, w')"
  | (logout) cx where "cx_principal cx = None" "auth sv (logout sv) r cx w = (resp, w')"
  | (api) cx where "cx_principal cx = None" "api_router ch sv r cx w = (resp, w')"
proof (cases "chi_root ch r")
  case None
  with assms show ?thesis by (intro free [of "[]"]) (simp_all add: Router_def)
next
  case (Some m)
  obtain i params where m: "m = (i, params)" by fastforce
  let ?cx = "\<lparr>cx_principal = None, cx_token = None, cx_param = params\<rparr>"
  show ?thesis
  proof (cases "i < length root_routes")
    case False
    with assms Some m show ?thesis by (intro free [of "[]"]) (simp_all add: Router_def)
  next
    case True
    define route where "route = snd (snd (root_routes ! i))"
    from assms Some m True have h: "root_handler ch sv route r ?cx w = (resp, w')"
      by (simp add: Router_def route_def)
    show ?thesis
    proof (cases route)
      case RHealth
      with h show ?thesis
        by (intro free [of "[]"]) (auto simp: root_handler_def health_def Let_def look_def split: prod.splits)
    next
      case RReady
      have "\<exists>cs. aw_calls w' = aw_calls w @ cs \<and> set cs \<subseteq> {AQueueDepth}"
        using h RReady by (auto simp: root_handler_def ready_def ask_def split: option.splits prod.splits)
      then show ?thesis by (elim exE conjE) (rule free)
    next
      case ROidcLogin
      with h show ?thesis
        by (intro free [of "[]"])
           (auto simp: root_handler_def oidcLogin_def dest!: calls_randomToken split: option.splits prod.splits sum.splits if_splits)
    next
      case ROidcCallback
      with h show ?thesis by (intro callback [of ?cx]) (simp_all add: root_handler_def)
    next
      case RLogout
      with h show ?thesis by (intro logout [of ?cx]) (simp_all add: root_handler_def)
    next
      case RApi
      with h show ?thesis by (intro api [of ?cx]) (simp_all add: root_handler_def)
    qed (insert h, auto intro!: free [of "[]"] simp: root_handler_def)
  qed
qed

lemma logout_calls:
  assumes "logout sv r cx w = (resp, w')"
  shows "extends w w' (\<lambda>c. \<not> sensitive c \<and> (\<forall>h p e i. c \<noteq> ACreate h p e i))"
proof -
  let ?P = "\<lambda>c. \<not> sensitive c \<and> (\<forall>h p e i. c \<noteq> ACreate h p e i)"
  obtain out w1 where o1: "(case (if (case cx_token cx of None \<Rightarrow> [] | Some t \<Rightarrow> t) \<noteq> [] then sv_AuthStore sv else None) of
               None \<Rightarrow> (''success'', w)
             | Some a \<Rightarrow> (let (err, w1) = ask (ARevoke (case cx_token cx of None \<Rightarrow> [] | Some t \<Rightarrow> t))
                                 (as_RevokeAuthToken a (case cx_token cx of None \<Rightarrow> [] | Some t \<Rightarrow> t)) w
                          in (if err = None then ''success'' else ''failed'', w1))) = (out, w1)" by fastforce
  then have "extends w w1 ?P"
    by (auto split: option.splits prod.splits if_splits elim!: extends_ask)
  moreover have "w' = api_audit sv r cx ''auth.logout'' out [] Map.empty w1"
    using assms o1 by (auto simp: logout_def Let_def split: if_splits)
  ultimately show ?thesis by (auto intro: extends_then_audit)
qed


lemma api_routes_calls:
  assumes "(case chi_api ch r of None \<Rightarrow> (chi_no_route ch r, w1)
      | Some (i, params) \<Rightarrow>
          if i < length api_routes
          then (let (_, _, perm, route) = api_routes ! i
                in guarded sv perm (api_handler sv route) r (cx\<lparr>cx_param := params\<rparr>) w1)
          else (chi_no_route ch r, w1)) = (resp, w')"
    and "cx_principal cx = Some p"
  shows "extends w1 w' (permitted sv p)"
proof (cases "\<exists>i params. chi_api ch r = Some (i, params) \<and> i < length api_routes")
  case True
  then obtain i params where i: "chi_api ch r = Some (i, params)" "i < length api_routes" by auto
  obtain m pat perm route where e: "api_routes ! i = (m, pat, perm, route)" by (metis prod_cases4)
  from assms(1) i e have "guarded sv perm (api_handler sv route) r (cx\<lparr>cx_param := params\<rparr>) w1 = (resp, w')" by simp
  from api_route_calls [OF i(2) e this, of p] assms(2) show ?thesis by simp
next
  case False
  with assms(1) have "w' = w1" by (auto split: option.splits if_splits)
  then show ?thesis by simp
qed

lemma api_router_calls:
  assumes "api_router ch sv r cx w = (resp, w')" "sv_AuthRequired sv" "cx_principal cx = None"
  obtains cs where "aw_calls w' = aw_calls w @ cs" "authorised_calls sv r cs"
proof (rule auth_authorised [OF assms(1) [unfolded api_router_def] assms(2,3)])
  fix p token w1
  let ?cx = "cx\<lparr>cx_principal := Some p, cx_token := Some token\<rparr>"
  assume n: "(case chi_api ch r of None \<Rightarrow> (chi_no_route ch r, w1)
    | Some (i, params) \<Rightarrow>
        if i < length api_routes
        then (let (_, _, perm, route) = api_routes ! i
              in guarded sv perm (api_handler sv route) r (?cx\<lparr>cx_param := params\<rparr>) w1)
        else (chi_no_route ch r, w1)) = (resp, w')"
  show "extends w1 w' (\<lambda>c. sensitive c \<longrightarrow> permitted sv p c)"
    by (rule extends_mono [OF api_routes_calls [OF n, of p]]) simp_all
qed (rule that)

text \<open>
  C5: the API does nothing for strangers. With authentication required, every call a
  request causes to the devices, the jobs, the revisions, the archive, the scheduler, the
  inventory or the audit trail is made for a principal that the request's own token
  identifies, by the answer of the store to this very token or as the configured bootstrap
  token, under a permission this principal has and that covers the call; a job is queued
  in this principal's name.
\<close>

theorem api_authorized:
  assumes "sv_AuthRequired sv" "Router ch sv r w = (resp, w')"
  shows "\<exists>cs. aw_calls w' = aw_calls w @ cs \<and>
     (\<forall>c\<in>set cs. sensitive c \<longrightarrow>
        (\<exists>token p perm. authenticated sv r cs token p \<and> sv_HasPermission sv p perm
            \<and> serves perm c \<and> in_name_of sv p c))"
  using assms(2)
proof (cases rule: Router_cases)
  case (free cs)
  then show ?thesis by (intro exI [of _ cs]) auto
next
  case (callback cx)
  from callback(2) obtain cs resp0 where "aw_calls w' = aw_calls w @ cs" "login_result sv r cs resp0"
    by (rule callback_calls)
  then show ?thesis by (intro exI [of _ cs]) (auto dest: login_result_calls)
next
  case (logout cx)
  obtain cs where "aw_calls w' = aw_calls w @ cs" "authorised_calls sv r cs"
    by (rule auth_authorised [OF logout(2) assms(1) logout(1)])
       (drule logout_calls, erule extends_mono, auto)
  then show ?thesis by (auto simp: authorised_calls_def)
next
  case (api cx)
  obtain cs where "aw_calls w' = aw_calls w @ cs" "authorised_calls sv r cs"
    by (rule api_router_calls [OF api(2) assms(1) api(1)])
  then show ?thesis by (auto simp: authorised_calls_def)
qed


section \<open>The server of the data base\<close>

text \<open>The store of \<open>Metadata\<close> behind the API, as app.go puts it there.\<close>

definition pg_MetadataStore :: "pg_env \<Rightarrow> pg MetadataStore" where
  "pg_MetadataStore E = \<lparr>md_UpsertDevices = UpsertDevices E, md_ListDevices = ListDevices E, md_GetDevice = GetDevice E,
     md_RecordJobStart = RecordJobStart E, md_RecordJobFinish = RecordJobFinish E, md_SaveRevision = SaveRevision E,
     md_SaveDiff = SaveDiff E, md_ListJobs = ListJobs E, md_GetJob = GetJob E, md_ListRevisions = ListRevisions E,
     md_LatestRevision = LatestRevision E, md_Audit = Audit E, md_ListAuditEvents = ListAuditEvents E\<rparr>"

definition demo_oidc :: "pg OIDCAuthenticator" where
  "demo_oidc = \<lparr>oa_Issuer = ''iss'', oa_AuthCodeURL = (\<lambda>state nonce. ''url''),
     oa_Exchange = (\<lambda>code' nonce s. (Inr \<lparr>oi_Subject = ''1'', oi_Email = [], oi_EmailVerified = True, oi_DisplayName = ''One''\<rparr>, s))\<rparr>"

definition demo_server :: "pg Server" where
  "demo_server = \<lparr>sv_Metadata = Some (pg_MetadataStore demo_env), sv_AuthStore = Some (pg_AuthStore demo_env),
     sv_Storage = None, sv_Scheduler = None, sv_Drivers = None, sv_ReloadInventory = None,
     sv_BootstrapToken = [], sv_AuthRequired = True, sv_OIDC = Some demo_oidc, sv_OIDCEnabled = True,
     sv_OIDCSessionTTL = 500, sv_OIDCCookieName = [], sv_RequireEmailVerified = True, sv_StartedAt = 0,
     sv_Now = (\<lambda>s. (1000, s)), sv_Rand = (\<lambda>n s. (Inr [CHR ''a''], s)),
     sv_IsZero = (\<lambda>p. p_ActorID p = []), sv_HasPermission = (\<lambda>p perm. perm \<in> set (p_Permissions p))\<rparr>"

definition demo_chi :: chi where
  "demo_chi = \<lparr>chi_root = (\<lambda>r. Some (if hr_Path r = ''/auth/oidc/callback'' then 8 else 10, \<lambda>_. [])),
     chi_api = (\<lambda>r. Some (8, \<lambda>_. [])), chi_no_route = (\<lambda>r. writeError 404 []),
     chi_static = (\<lambda>f r. redirect []), chi_metrics = (\<lambda>r. redirect [])\<rparr>"

definition demo_get_jobs :: http_request where
  "demo_get_jobs = \<lparr>hr_Method = ''GET'', hr_Path = ''/api/v1/jobs'', hr_Authorization = ''Bearer t'', hr_Cookies = [],
     hr_Query = (\<lambda>_. []), hr_RemoteAddr = ''10.0.0.1:99'', hr_RequestID = [], hr_TLS = True\<rparr>"

definition demo_api :: "response \<times> pg api_world" where
  "demo_api = Router demo_chi demo_server demo_get_jobs \<lparr>aw_state = demo_session, aw_calls = []\<rparr>"

lemma demo_server_sel:
  "sv_Metadata demo_server = Some (pg_MetadataStore demo_env)" "sv_AuthStore demo_server = Some (pg_AuthStore demo_env)"
  "sv_BootstrapToken demo_server = []" "sv_AuthRequired demo_server" "sv_OIDC demo_server = Some demo_oidc"
  "sv_OIDCEnabled demo_server" "sv_OIDCSessionTTL demo_server = 500" "sv_OIDCCookieName demo_server = []"
  "sv_RequireEmailVerified demo_server" "sv_Now demo_server = (\<lambda>s. (1000, s))"
  "sv_Rand demo_server = (\<lambda>n s. (Inr [CHR ''a''], s))" "sv_IsZero demo_server = (\<lambda>p. p_ActorID p = [])"
  "sv_HasPermission demo_server = (\<lambda>p perm. perm \<in> set (p_Permissions p))"
  by (simp_all add: demo_server_def)

lemma demo_path: "hr_Path demo_get_jobs = ''/api/v1/jobs''"
  by (simp add: demo_get_jobs_def)

lemma demo_token: "authToken demo_server demo_get_jobs = (''t'', ''bearer'')"
  by code_simp

lemma demo_jobs_calls:
  "aw_calls (snd demo_api) = [AValidate ''t'' (Inr demo_principal), AListJobs 100]"
proof -
  have v: "ValidateAuthToken demo_env ''t'' demo_session = (Inr demo_principal, snd demo_validated)"
    using demo_validated_eq by (simp add: demo_validated_def)
  have q: "queryLimit demo_get_jobs 100 = 100" by code_simp
  obtain jobs s where l: "ListJobs demo_env 100 (snd demo_validated) = (Inr jobs, s)"
    by (simp add: ListJobs_def exec_def demo_env_def Let_def)
  show ?thesis
    by (simp add: demo_api_def Router_def demo_chi_def root_routes_def root_handler_def api_router_def auth_def
        demo_path demo_token demo_server_sel Let_def ask_def pg_AuthStore_def v demo_principal_def
        empty_principal_def api_routes_def guarded_def require_def listJobs_def via_def q pg_MetadataStore_def l)
qed

theorem api_authorized_witness:
  "AListJobs 100 \<in> set (aw_calls (snd demo_api))
   \<and> (\<exists>token p perm. authenticated demo_server demo_get_jobs (aw_calls (snd demo_api)) token p
        \<and> sv_HasPermission demo_server p perm \<and> serves perm (AListJobs 100))"
proof -
  have r: "sv_AuthRequired demo_server" by (simp add: demo_server_def)
  have d: "Router demo_chi demo_server demo_get_jobs \<lparr>aw_state = demo_session, aw_calls = []\<rparr> = (fst demo_api, snd demo_api)"
    by (simp add: demo_api_def)
  obtain cs where cs: "aw_calls (snd demo_api) = aw_calls \<lparr>aw_state = demo_session, aw_calls = []\<rparr> @ cs"
    "\<forall>c\<in>set cs. sensitive c \<longrightarrow>
        (\<exists>token p perm. authenticated demo_server demo_get_jobs cs token p \<and> sv_HasPermission demo_server p perm
            \<and> serves perm c \<and> in_name_of demo_server p c)"
    using api_authorized [OF r d] by blast
  then have c: "cs = aw_calls (snd demo_api)" by simp
  have m: "AListJobs 100 \<in> set (aw_calls (snd demo_api))" by (simp add: demo_jobs_calls)
  with cs(2) have "\<exists>token p perm. authenticated demo_server demo_get_jobs cs token p \<and> sv_HasPermission demo_server p perm
      \<and> serves perm (AListJobs 100)" unfolding c by fastforce
  with m show ?thesis unfolding c by blast
qed













section \<open>Smaller facts\<close>

lemma queryLimit_bounds: "1 \<le> def \<Longrightarrow> def \<le> 1000 \<Longrightarrow> 1 \<le> queryLimit r def \<and> queryLimit r def \<le> 1000"
  by (auto simp: queryLimit_def split: option.splits)

text \<open>An identity comes from a verified ID token with a subject, and with the nonce, if one was given.\<close>

lemma Exchange_identity:
  assumes "Exchange lib a code' nonce s = (Inr identity, s')"
  obtains token raw idToken c s1 s2 where "ol_Exchange lib (go_oauth2Config a) code' s = (Inr token, s1)"
    "ol_id_token lib token = Some raw" "raw \<noteq> []"
    "ol_Verify lib (fst (go_verifier a)) (snd (go_verifier a)) raw s1 = (Inr idToken, s2)"
    "ol_Claims lib idToken = Inr c" "nonce = [] \<or> cl_Nonce c = nonce" "oi_Subject identity \<noteq> []"
    "oi_EmailVerified identity = cl_EmailVerified c"
proof -
  from assms obtain token s1 where t: "ol_Exchange lib (go_oauth2Config a) code' s = (Inr token, s1)"
    and r: "(case ol_id_token lib token of
          None \<Rightarrow> (Inl (errors_New ''oidc provider did not return an id_token''), s1)
        | Some raw \<Rightarrow>
            if raw = [] then (Inl (errors_New ''oidc provider did not return an id_token''), s1)
            else and_then (ol_Verify lib (fst (go_verifier a)) (snd (go_verifier a)) raw)
                   (\<lambda>idToken s. (identity_of lib nonce idToken, s)) s1) = (Inr identity, s')"
    unfolding Exchange_def by (rule and_then_Inr)
  from r obtain raw where raw: "ol_id_token lib token = Some raw" "raw \<noteq> []"
    and v: "and_then (ol_Verify lib (fst (go_verifier a)) (snd (go_verifier a)) raw)
                   (\<lambda>idToken s. (identity_of lib nonce idToken, s)) s1 = (Inr identity, s')"
    by (auto split: option.splits if_splits)
  from v obtain idToken s2 where "ol_Verify lib (fst (go_verifier a)) (snd (go_verifier a)) raw s1 = (Inr idToken, s2)"
    "identity_of lib nonce idToken = Inr identity" by (rule and_then_Inr) auto
  with t raw show ?thesis
    by (auto simp: identity_of_def Let_def split: sum.splits if_splits intro: that)
qed

end
