(* ===== verification/Device_Store.thy ===== *)
theory Device_Store
  imports Api
begin

text \<open>
  The contract of the device part of the interface \<open>MetadataStore\<close> that its clients rely on:
  the sweeper, the reload of the inventory and the command line. A store holds a map from
  identifiers to devices; an upsert overrides it, reading finds what it holds. The
  PostgreSQL store keeps the contract.
\<close>

locale device_store =
  fixes M :: "'s MetadataStore"
    and devices :: "'s \<Rightarrow> string \<rightharpoonup> Target"
    and inv :: "'s \<Rightarrow> bool"
  assumes keyed: "inv s \<Longrightarrow> devices s i = Some t \<Longrightarrow> t_ID t = i"
    and upsert_inv: "inv s \<Longrightarrow> md_UpsertDevices M ds s = (r, s') \<Longrightarrow> inv s'"
    and upsert_atomic: "inv s \<Longrightarrow> md_UpsertDevices M ds s = (r, s') \<Longrightarrow>
      devices s' = devices s \<or> devices s' = upsert_map ds (devices s)"
    and upsert_done: "inv s \<Longrightarrow> md_UpsertDevices M ds s = (None, s') \<Longrightarrow> devices s' = upsert_map ds (devices s)"
    and get_found: "inv s \<Longrightarrow> md_GetDevice M i s = (Inr t, s') \<Longrightarrow> devices s i = Some t"
    and listed: "inv s \<Longrightarrow> md_ListDevices M s = (Inr ts, s') \<Longrightarrow> distinct (map t_ID ts) \<and> set ts = ran (devices s)"
begin

lemma upserted_cases:
  assumes "inv s" "md_UpsertDevices M ds s = (r, s')"
  shows "inv s' \<and> devices s' \<in> {devices s, upsert_map ds (devices s)}
    \<and> (r = None \<longrightarrow> devices s' = upsert_map ds (devices s))"
  using upsert_inv [OF assms] upsert_atomic [OF assms] upsert_done assms by auto

lemma listed_found: "inv s \<Longrightarrow> md_ListDevices M s = (Inr ts, s') \<Longrightarrow> t \<in> set ts \<Longrightarrow> devices s (t_ID t) = Some t"
  using listed keyed by (fastforce simp: ran_def)

end

abbreviation pg_devices_of :: "pg \<Rightarrow> string \<rightharpoonup> Target" where
  "pg_devices_of s \<equiv> device_map (pg_tables s)"

interpretation pg_devices: device_store "pg_MetadataStore E" pg_devices_of "\<lambda>s. devices_keyed (pg_tables s)" for E
proof
  fix s s' :: pg and ds r i t ts
  assume inv: "devices_keyed (pg_tables s)"
  show "t_ID t = i" if "pg_devices_of s i = Some t"
    using that inv by (simp add: device_map_iff)
  show "devices_keyed (pg_tables s')" if "md_UpsertDevices (pg_MetadataStore E) ds s = (r, s')"
    using UpsertDevices_spec [OF inv] that by (simp add: pg_MetadataStore_def)
  show "pg_devices_of s' = pg_devices_of s \<or> pg_devices_of s' = upsert_map ds (pg_devices_of s)"
    if "md_UpsertDevices (pg_MetadataStore E) ds s = (r, s')"
    using UpsertDevices_spec [OF inv] that by (simp add: pg_MetadataStore_def)
  show "pg_devices_of s' = upsert_map ds (pg_devices_of s)"
    if "md_UpsertDevices (pg_MetadataStore E) ds s = (None, s')"
    using UpsertDevices_spec [OF inv] that by (simp add: pg_MetadataStore_def)
  show "pg_devices_of s i = Some t" if "md_GetDevice (pg_MetadataStore E) i s = (Inr t, s')"
  proof -
    from that have "first_row (filter (\<lambda>t. t_ID t = i) (tb_devices (pg_tables s))) = Inr t"
      by (auto simp: pg_MetadataStore_def GetDevice_def dest: exec_Inr)
    from first_row_Inr [OF this] inv show ?thesis by (simp add: device_map_iff)
  qed
  show "distinct (map t_ID ts) \<and> set ts = ran (pg_devices_of s)"
    if "md_ListDevices (pg_MetadataStore E) s = (Inr ts, s')"
  proof -
    from that have "ts = order_by (\<lambda>a b. pe_le E (t_ID a) (t_ID b)) (tb_devices (pg_tables s))"
      using exec_Inr [where E = E and s = s and s' = s'] by (fastforce simp: pg_MetadataStore_def ListDevices_def)
    with inv show ?thesis by (auto simp: devices_keyed_def ran_def device_map_iff)
  qed
qed

end
