(* ===== verification/Credentials.thy ===== *)
theory Credentials
  imports Go_Encoding
begin

text \<open>
  The credential providers: internal/credentials/router.go, dotenv/provider.go and
  encryptedfile/provider.go. A provider is a record of its settings and what it has loaded;
  its \<open>Resolve\<close> returns the provider as it is afterwards. The process environment, the file
  system, AES-GCM and the JSON of the decrypted file are parameters. Methods are prefixed
  by the package they are from.
\<close>

section \<open>Credentials from the environment and a file\<close>

record dotenv_Provider =
  dp_Path :: string
  dp_RequireChmod600 :: bool
  dp_values :: "(string \<rightharpoonup> string) option"

record dotenv_env =
  de_windows :: bool
  de_Environ :: "string list"
  de_Stat :: "string \<Rightarrow> go_error + nat" \<comment> \<open>the permission bits\<close>
  de_Open :: "string \<Rightarrow> go_error + string \<times> go_error option" \<comment> \<open>what is read, and the error that ends reading\<close>

definition dotenv_New :: "string \<Rightarrow> bool \<Rightarrow> dotenv_Provider" where
  "dotenv_New path requireChmod600 = \<lparr>dp_Path = path, dp_RequireChmod600 = requireChmod600, dp_values = None\<rparr>"

definition normalizeKey :: "string \<Rightarrow> string" where
  "normalizeKey ref =
     ToUpper (ReplaceAll (ReplaceAll (Trim (TrimSpace ref) ''/'') ''-'' ''_'') ''.'' ''_'')"

fun environ_values :: "string list \<Rightarrow> (string \<rightharpoonup> string) \<Rightarrow> string \<rightharpoonup> string" where
  "environ_values [] m = m"
| "environ_values (env # envs) m =
     (case Cut env (CHR ''='') of
        None \<Rightarrow> environ_values envs m
      | Some (k, v) \<Rightarrow> environ_values envs (m(k \<mapsto> v)))"

text \<open>The lines of the file: blank ones, comments and lines without \<open>=\<close> are skipped.\<close>

fun file_values :: "string list \<Rightarrow> (string \<rightharpoonup> string) \<Rightarrow> string \<rightharpoonup> string" where
  "file_values [] m = m"
| "file_values (l # ls) m =
     (let line = TrimSpace l in
      if line = [] \<or> HasPrefix line ''#'' then file_values ls m
      else (case Cut line (CHR ''='') of
              None \<Rightarrow> file_values ls m
            | Some (k, v) \<Rightarrow> file_values ls (m(TrimSpace k \<mapsto> Trim (TrimSpace v) [CHR 0x22, CHR 0x27]))))"

text \<open>\<open>info.Mode().Perm()&0o077 != 0\<close>.\<close>

definition group_other_access :: "nat \<Rightarrow> bool" where
  "group_other_access perm \<longleftrightarrow> perm mod 64 \<noteq> 0"

definition check_mode :: "dotenv_env \<Rightarrow> dotenv_Provider \<Rightarrow> go_error option" where
  "check_mode E p =
     (if dp_RequireChmod600 p \<and> \<not> de_windows E then
        (case de_Stat E (dp_Path p) of
           Inl e \<Rightarrow> Some e
         | Inr perm \<Rightarrow>
             if group_other_access perm
             then Some (Errorf ''%s permissions must not allow group/other access'' [dp_Path p]) else None)
      else None)"

definition load_values :: "dotenv_env \<Rightarrow> dotenv_Provider \<Rightarrow> go_error + (string \<rightharpoonup> string)" where
  "load_values E p =
     (let values = environ_values (de_Environ E) Map.empty in
      if dp_Path p = [] then Inr values
      else (case check_mode E p of
              Some e \<Rightarrow> Inl e
            | None \<Rightarrow>
                (case de_Open E (dp_Path p) of
                   Inl e \<Rightarrow> Inl e
                 | Inr (text, read_err) \<Rightarrow>
                     (case scan_lines text of
                        Inl e \<Rightarrow> Inl e
                      | Inr ls \<Rightarrow> (case read_err of Some e \<Rightarrow> Inl e | None \<Rightarrow> Inr (file_values ls values))))))"

definition dotenv_load :: "dotenv_env \<Rightarrow> dotenv_Provider \<Rightarrow> go_error option \<times> dotenv_Provider" where
  "dotenv_load E p =
     (case load_values E p of Inl e \<Rightarrow> (Some e, p) | Inr values \<Rightarrow> (None, p\<lparr>dp_values := Some values\<rparr>))"

definition dotenv_lookup :: "dotenv_Provider \<Rightarrow> string \<Rightarrow> string" where
  "dotenv_lookup p key =
     (case dp_values p of None \<Rightarrow> [] | Some values \<Rightarrow> (case values key of None \<Rightarrow> [] | Some v \<Rightarrow> v))"

definition ref_name :: "string \<Rightarrow> string" where
  "ref_name ref =
     (let name = TrimPrefix ref ''dotenv://'' in if name = ref then TrimPrefix ref ''env://'' else name)"

definition auth_type :: "Credentials \<Rightarrow> string" where
  "auth_type c =
     (if \<not> SecretBytes_IsZero (c_PrivateKeyPEM c) then ''private_key''
      else if \<not> SecretString_IsZero (c_Password c) then ''password'' else [])"

definition dotenv_creds :: "dotenv_Provider \<Rightarrow> string \<Rightarrow> go_error + Credentials" where
  "dotenv_creds p name =
     (let c = \<lparr>c_Username = dotenv_lookup p (name @ ''_USERNAME''),
               c_Password = NewSecretString (dotenv_lookup p (name @ ''_PASSWORD'')),
               c_PrivateKeyPEM = NewSecretBytes (dotenv_lookup p (name @ ''_PRIVATE_KEY_PEM'')),
               c_EnableSecret = NewSecretString (dotenv_lookup p (name @ ''_ENABLE_SECRET'')),
               c_Source = ''dotenv'', c_AuthType = []\<rparr>;
          creds = c\<lparr>c_AuthType := auth_type c\<rparr>
      in if c_Username creds = []
         then Inl (BackupError FailureCredentialProvider ''dotenv resolve'' (Errorf ''%s_USERNAME is required'' [name]))
         else if SecretString_IsZero (c_Password creds) \<and> SecretBytes_IsZero (c_PrivateKeyPEM creds)
         then Inl (BackupError FailureCredentialProvider ''dotenv resolve''
                (Errorf ''%s_PASSWORD or %s_PRIVATE_KEY_PEM is required'' [name, name]))
         else Inr creds)"

definition dotenv_Resolve :: "dotenv_env \<Rightarrow> go_error option \<Rightarrow> dotenv_Provider \<Rightarrow> string
    \<Rightarrow> (go_error + Credentials) \<times> dotenv_Provider" where
  "dotenv_Resolve E ctx_err p ref =
     (case ctx_err of
        Some e \<Rightarrow> (Inl e, p)
      | None \<Rightarrow>
          (let (err, p1) = (if dp_values p = None then dotenv_load E p else (None, p)) in
           case err of
             Some e \<Rightarrow> (Inl (BackupError FailureCredentialProvider ''dotenv load'' e), p1)
           | None \<Rightarrow>
               (let name = normalizeKey (ref_name ref) in
                if name = []
                then (Inl (BackupError FailureCredentialProvider ''dotenv resolve'' (errors_New ''empty credential ref'')), p1)
                else (dotenv_creds p1 name, p1))))"

section \<open>Credentials from an encrypted file\<close>

record cred_record =
  cr_Username :: string
  cr_Password :: string
  cr_PrivateKeyPEM :: string
  cr_EnableSecret :: string

record encfile_Provider =
  ep_Path :: string
  ep_KeyEnv :: string
  ep_cache :: "(string \<rightharpoonup> cred_record) option"

text \<open>
  \<open>ee_Open\<close> is \<open>gcm.Open\<close> with a key, a nonce and a ciphertext, \<open>ee_Unmarshal\<close> decodes JSON
  into the map, \<open>None\<close> being the nil map of a \<open>null\<close>.
\<close>

record encfile_env =
  ee_Getenv :: "string \<Rightarrow> string"
  ee_ReadFile :: "string \<Rightarrow> go_error + string"
  ee_Open :: "string \<Rightarrow> string \<Rightarrow> string \<Rightarrow> go_error + string"
  ee_Unmarshal :: "string \<Rightarrow> go_error + (string \<rightharpoonup> cred_record) option"

definition encfile_New :: "string \<Rightarrow> string \<Rightarrow> encfile_Provider" where
  "encfile_New path keyEnv = \<lparr>ep_Path = path, ep_KeyEnv = keyEnv, ep_cache = None\<rparr>"

definition validAESKeyLen :: "nat \<Rightarrow> bool" where
  "validAESKeyLen n \<longleftrightarrow> n = 16 \<or> n = 24 \<or> n = 32"

text \<open>A decoded key, when decoding succeeds and gives a key length.\<close>

definition key_of :: "string option \<Rightarrow> string option" where
  "key_of d = (case d of None \<Rightarrow> None | Some b \<Rightarrow> if validAESKeyLen (length b) then Some b else None)"

definition decodeKey :: "string \<Rightarrow> go_error + string" where
  "decodeKey raw =
     (if raw = [] then Inl (errors_New ''encryption key environment variable is empty'')
      else case key_of (hex_DecodeString raw) of
        Some b \<Rightarrow> Inr b
      | None \<Rightarrow>
          (case key_of (b64_DecodeString raw) of
             Some b \<Rightarrow> Inr b
           | None \<Rightarrow>
               if validAESKeyLen (length raw) then Inr raw
               else Inl (errors_New ''encryption key must be 16, 24, or 32 bytes as raw, hex, or base64'')))"

text \<open>\<open>gcm.NonceSize()\<close>; \<open>aes.NewCipher\<close> and \<open>cipher.NewGCM\<close> succeed for a key of a valid length.\<close>

abbreviation (input) NonceSize :: nat where "NonceSize \<equiv> 12"

definition encfile_records :: "encfile_env \<Rightarrow> encfile_Provider \<Rightarrow> go_error + (string \<rightharpoonup> cred_record) option" where
  "encfile_records E p =
     (if ep_Path p = [] then Inl (errors_New ''encrypted credential file path is required'')
      else res_bind (decodeKey (ee_Getenv E (ep_KeyEnv p))) (\<lambda>key.
           res_bind (ee_ReadFile E (ep_Path p)) (\<lambda>data.
             if length data \<le> NonceSize then Inl (errors_New ''encrypted file is too short'')
             else res_bind (ee_Open E key (take NonceSize data) (drop NonceSize data)) (ee_Unmarshal E))))"

definition encfile_load :: "encfile_env \<Rightarrow> encfile_Provider \<Rightarrow> go_error option \<times> encfile_Provider" where
  "encfile_load E p =
     (case encfile_records E p of Inl e \<Rightarrow> (Some e, p) | Inr records \<Rightarrow> (None, p\<lparr>ep_cache := records\<rparr>))"

definition encfile_creds :: "cred_record \<Rightarrow> Credentials" where
  "encfile_creds r =
     (let c = \<lparr>c_Username = cr_Username r, c_Password = NewSecretString (cr_Password r),
               c_PrivateKeyPEM = NewSecretBytes (cr_PrivateKeyPEM r),
               c_EnableSecret = NewSecretString (cr_EnableSecret r),
               c_Source = ''encrypted-file'', c_AuthType = []\<rparr>
      in c\<lparr>c_AuthType := auth_type c\<rparr>)"

definition encfile_Resolve :: "encfile_env \<Rightarrow> go_error option \<Rightarrow> encfile_Provider \<Rightarrow> string
    \<Rightarrow> (go_error + Credentials) \<times> encfile_Provider" where
  "encfile_Resolve E ctx_err p ref =
     (case ctx_err of
        Some e \<Rightarrow> (Inl e, p)
      | None \<Rightarrow>
          (let (err, p1) = (if ep_cache p = None then encfile_load E p else (None, p)) in
           case err of
             Some e \<Rightarrow> (Inl (BackupError FailureCredentialProvider ''encrypted-file load'' e), p1)
           | None \<Rightarrow>
               (let name = TrimPrefix (TrimPrefix ref ''encfile://'') ''encrypted-file://'' in
                case (case ep_cache p1 of None \<Rightarrow> None | Some m \<Rightarrow> m name) of
                  None \<Rightarrow> (Inl (BackupError FailureCredentialProvider ''encrypted-file resolve''
                            (Errorf ''credential ref %q not found'' [name])), p1)
                | Some r \<Rightarrow> (Inr (encfile_creds r), p1))))"

section \<open>The router\<close>

text \<open>A provider is what it answers to a reference; \<open>'s\<close> is the state of all of them.\<close>

type_synonym 's provider = "string \<Rightarrow> 's \<Rightarrow> (go_error + Credentials) \<times> 's"

record 's cred_Router =
  ro_Default :: "'s provider option"
  ro_Providers :: "string \<rightharpoonup> 's provider"

text \<open>\<open>i > 0\<close>: a reference that starts with \<open>://\<close> has no provider name.\<close>

definition provider_name :: "string \<Rightarrow> string" where
  "provider_name ref = (case Index ref ''://'' of None \<Rightarrow> [] | Some i \<Rightarrow> take i ref)"

definition router_Resolve :: "'s cred_Router \<Rightarrow> 's provider" where
  "router_Resolve r ref s =
     (let providerName = provider_name ref in
      if providerName \<noteq> [] then
        (case ro_Providers r providerName of
           Some p \<Rightarrow> p ref s
         | None \<Rightarrow> (Inl (Errorf ''unknown credential provider scheme %q'' [providerName]), s))
      else
        (case ro_Default r of
           None \<Rightarrow> (Inl (Errorf ''no credential provider configured for %q'' [ref]), s)
         | Some p \<Rightarrow> p ref s))"

section \<open>What a provider promises\<close>

text \<open>
  The contract of a provider: what it has resolved once it knows, what it knows it answers,
  whatever has become of the environment, and it forgets nothing. Credentials carry the
  kind of their secret.
\<close>

locale credential_provider =
  fixes resolve :: "'e \<Rightarrow> 's provider"
    and known :: "'s \<Rightarrow> string \<rightharpoonup> Credentials"
  assumes typed: "resolve e ref s = (Inr c, s') \<Longrightarrow> c_AuthType c = auth_type c"
    and learnt: "resolve e ref s = (Inr c, s') \<Longrightarrow> known s' ref = Some c"
    and answered: "known s ref = Some c \<Longrightarrow> resolve e ref s = (Inr c, s)"
    and kept: "known s ref = Some c \<Longrightarrow> resolve e ref' s = (x, s') \<Longrightarrow> known s' ref = Some c"
begin

text \<open>Later resolutions, each in an environment of its own.\<close>

definition later :: "('e \<times> string) list \<Rightarrow> 's \<Rightarrow> 's" where
  "later rs s = fold (\<lambda>(e, ref) s. snd (resolve e ref s)) rs s"

lemma later_known: "known s ref = Some c \<Longrightarrow> known (later rs s) ref = Some c"
proof (induction rs arbitrary: s)
  case (Cons r rs)
  obtain x s1 where "resolve (fst r) (snd r) s = (x, s1)" by (meson surj_pair)
  with kept [OF Cons.prems this] Cons.IH show ?case by (simp add: later_def case_prod_beta)
qed (simp add: later_def)

lemma resolved_once:
  assumes "resolve e ref s = (Inr c, s1)"
  shows "resolve e' ref (later rs s1) = (Inr c, later rs s1)"
  using later_known [OF learnt [OF assms]] by (rule answered)

end

text \<open>
  A router over providers that keep the contract, none of which takes anything from the
  others, keeps it as well. \<open>dflt\<close> names the default provider.
\<close>

locale credential_router =
  fixes providers :: "string \<rightharpoonup> ('e \<Rightarrow> 's provider)"
    and knowns :: "string \<Rightarrow> 's \<Rightarrow> string \<rightharpoonup> Credentials"
    and dflt :: string
  assumes member: "providers n = Some p \<Longrightarrow> credential_provider p (knowns n)"
    and apart: "providers n = Some p \<Longrightarrow> knowns m s ref = Some c \<Longrightarrow> p e ref' s = (x, s') \<Longrightarrow> knowns m s' ref = Some c"
    and absent: "providers n = None \<Longrightarrow> knowns n s ref = None"
begin

definition routed_name :: "string \<Rightarrow> string" where
  "routed_name ref = (if provider_name ref = [] then dflt else provider_name ref)"

definition router_at :: "'e \<Rightarrow> 's cred_Router" where
  "router_at e = \<lparr>ro_Default = map_option (\<lambda>p. p e) (providers dflt), ro_Providers = (\<lambda>n. map_option (\<lambda>p. p e) (providers n))\<rparr>"

lemma routed:
  "router_Resolve (router_at e) ref s =
     (case providers (routed_name ref) of
        Some p \<Rightarrow> p e ref s
      | None \<Rightarrow> (Inl (if provider_name ref = [] then Errorf ''no credential provider configured for %q'' [ref]
                  else Errorf ''unknown credential provider scheme %q'' [provider_name ref]), s))"
  by (simp add: router_Resolve_def router_at_def routed_name_def Let_def split: option.splits)

end

sublocale credential_router \<subseteq> routed: credential_provider "\<lambda>e. router_Resolve (router_at e)" "\<lambda>s ref. knowns (routed_name ref) s ref"
proof
  fix e ref s c s' ref' x
  show "c_AuthType c = auth_type c" if r: "router_Resolve (router_at e) ref s = (Inr c, s')"
  proof (cases "providers (routed_name ref)")
    case (Some p)
    from credential_provider.typed [OF member [OF Some]] r Some show ?thesis by (simp add: routed)
  qed (use r in \<open>simp add: routed\<close>)
  show "knowns (routed_name ref) s' ref = Some c" if r: "router_Resolve (router_at e) ref s = (Inr c, s')"
  proof (cases "providers (routed_name ref)")
    case (Some p)
    from credential_provider.learnt [OF member [OF Some]] r Some show ?thesis by (simp add: routed)
  qed (use r in \<open>simp add: routed\<close>)
  show "router_Resolve (router_at e) ref s = (Inr c, s)" if k: "knowns (routed_name ref) s ref = Some c"
  proof (cases "providers (routed_name ref)")
    case (Some p)
    from credential_provider.answered [OF member [OF Some] k] Some show ?thesis by (simp add: routed)
  qed (use k absent in simp)
  show "knowns (routed_name ref) s' ref = Some c"
    if k: "knowns (routed_name ref) s ref = Some c" and r: "router_Resolve (router_at e) ref' s = (x, s')"
  proof (cases "providers (routed_name ref')")
    case (Some p)
    from apart [OF Some k] r Some show ?thesis by (simp add: routed)
  qed (use k r in \<open>simp add: routed\<close>)
qed

definition dotenv_known :: "dotenv_Provider \<Rightarrow> string \<rightharpoonup> Credentials" where
  "dotenv_known p ref =
     (if dp_values p = None \<or> normalizeKey (ref_name ref) = [] then None
      else case dotenv_creds p (normalizeKey (ref_name ref)) of Inl e \<Rightarrow> None | Inr c \<Rightarrow> Some c)"

definition encfile_known :: "encfile_Provider \<Rightarrow> string \<rightharpoonup> Credentials" where
  "encfile_known p ref =
     (case ep_cache p of
        None \<Rightarrow> None
      | Some m \<Rightarrow> map_option encfile_creds (m (TrimPrefix (TrimPrefix ref ''encfile://'') ''encrypted-file://'')))"

lemma auth_type_idem [simp]: "auth_type (c\<lparr>c_AuthType := a\<rparr>) = auth_type c"
  by (simp add: auth_type_def)

lemma dotenv_creds_typed: "dotenv_creds p name = Inr c \<Longrightarrow> c_AuthType c = auth_type c"
  by (auto simp: dotenv_creds_def auth_type_def Let_def split: if_splits)

interpretation dotenv: credential_provider "\<lambda>E ref p. dotenv_Resolve E None p ref" dotenv_known
proof
  fix E ref p c p' ref' x
  show "c_AuthType c = auth_type c" if "dotenv_Resolve E None p ref = (Inr c, p')"
    using that by (auto simp: dotenv_Resolve_def Let_def split: prod.splits option.splits if_splits dest: dotenv_creds_typed)
  show "dotenv_known p' ref = Some c" if "dotenv_Resolve E None p ref = (Inr c, p')"
    using that by (auto simp: dotenv_Resolve_def dotenv_known_def dotenv_load_def Let_def
        split: prod.splits option.splits if_splits sum.splits)
  show "dotenv_Resolve E None p ref = (Inr c, p)" if "dotenv_known p ref = Some c"
    using that by (auto simp: dotenv_Resolve_def dotenv_known_def Let_def split: if_splits sum.splits)
  show "dotenv_known p' ref = Some c" if "dotenv_known p ref = Some c" "dotenv_Resolve E None p ref' = (x, p')"
  proof -
    from that(1) have "dp_values p \<noteq> None" by (auto simp: dotenv_known_def split: if_splits)
    with that(2) have "p' = p" by (auto simp: dotenv_Resolve_def Let_def split: if_splits)
    with that(1) show ?thesis by simp
  qed
qed

lemma encfile_creds_typed: "c_AuthType (encfile_creds r) = auth_type (encfile_creds r)"
  by (simp add: encfile_creds_def auth_type_def Let_def)

interpretation encfile: credential_provider "\<lambda>E ref p. encfile_Resolve E None p ref" encfile_known
proof
  fix E ref p c p' ref' x
  show "c_AuthType c = auth_type c" if "encfile_Resolve E None p ref = (Inr c, p')"
    using that by (auto simp: encfile_Resolve_def encfile_creds_typed Let_def split: prod.splits option.splits if_splits)
  show "encfile_known p' ref = Some c" if "encfile_Resolve E None p ref = (Inr c, p')"
    using that by (auto simp: encfile_Resolve_def encfile_known_def Let_def split: prod.splits option.splits if_splits)
  show "encfile_Resolve E None p ref = (Inr c, p)" if "encfile_known p ref = Some c"
    using that by (auto simp: encfile_Resolve_def encfile_known_def Let_def split: option.splits)
  show "encfile_known p' ref = Some c" if "encfile_known p ref = Some c" "encfile_Resolve E None p ref' = (x, p')"
  proof -
    from that(1) have "ep_cache p \<noteq> None" by (auto simp: encfile_known_def split: option.splits)
    with that(2) have "p' = p" by (auto simp: encfile_Resolve_def Let_def split: option.splits)
    with that(1) show ?thesis by simp
  qed
qed

section \<open>What the providers read\<close>

text \<open>The assignment a line makes, and the file as the map of its last assignments.\<close>

definition line_entry :: "string \<Rightarrow> (string \<times> string) option" where
  "line_entry l =
     (let line = TrimSpace l in
      if line = [] \<or> HasPrefix line ''#'' then None
      else map_option (\<lambda>(k, v). (TrimSpace k, Trim (TrimSpace v) [CHR 0x22, CHR 0x27])) (Cut line (CHR ''='')))"

lemma map_add_rev_Cons: "m ++ map_of (rev ((k, v) # kvs)) = m(k \<mapsto> v) ++ map_of (rev kvs)"
  by (simp add: map_add_assoc)

lemma file_values_last: "file_values ls m = m ++ map_of (rev (List.map_filter line_entry ls))"
proof (induction ls arbitrary: m)
  case (Cons l ls)
  show ?case
  proof (cases "line_entry l")
    case None
    then have "file_values (l # ls) m = file_values ls m"
      by (auto simp: line_entry_def Let_def split: option.splits if_splits)
    with None Cons show ?thesis by (simp add: List.map_filter_simps)
  next
    case (Some kv)
    obtain k v where kv: "kv = (k, v)" by (cases kv)
    have "file_values (l # ls) m = file_values ls (m(k \<mapsto> v))"
      using Some unfolding kv by (auto simp: line_entry_def Let_def split: if_splits)
    with Some kv Cons show ?thesis by (simp only: List.map_filter_simps option.case map_add_rev_Cons)
  qed
qed (simp add: List.map_filter_simps)

lemma environ_values_last:
  "environ_values envs m = m ++ map_of (rev (List.map_filter (\<lambda>env. Cut env (CHR ''='')) envs))"
proof (induction envs arbitrary: m)
  case (Cons env envs)
  show ?case
  proof (cases "Cut env (CHR ''='')")
    case None
    with Cons show ?thesis by (simp add: List.map_filter_simps)
  next
    case (Some kv)
    obtain k v where kv: "kv = (k, v)" by (cases kv)
    have "environ_values (env # envs) m = environ_values envs (m(k \<mapsto> v))"
      using Some unfolding kv by simp
    with Some kv Cons show ?thesis by (simp only: List.map_filter_simps option.case map_add_rev_Cons)
  qed
qed (simp add: List.map_filter_simps)

text \<open>The mask of the source: the permission bits of the group and of others.\<close>

lemma group_other_access_mask: "group_other_access perm \<longleftrightarrow> and perm 63 \<noteq> 0"
proof -
  have "and perm 63 = take_bit 6 perm" by (simp add: take_bit_eq_mask mask_eq_exp_minus_1)
  then show ?thesis by (simp add: group_other_access_def take_bit_eq_mod)
qed

lemma load_values_Inr:
  assumes "load_values E p = Inr values" "dp_Path p \<noteq> []"
  obtains content ls where "de_Open E (dp_Path p) = Inr (content, None)" "scan_lines content = Inr ls"
    "values = file_values ls (environ_values (de_Environ E) Map.empty)" "check_mode E p = None"
  using assms by (auto simp: load_values_def Let_def split: option.splits sum.splits)

lemma check_mode_None:
  assumes "check_mode E p = None" "dp_RequireChmod600 p" "\<not> de_windows E"
  obtains perm where "de_Stat E (dp_Path p) = Inr perm" "and perm 63 = 0"
  using assms by (auto simp: check_mode_def group_other_access_mask split: sum.splits if_splits)

lemma dotenv_Resolve_Inr:
  assumes "dotenv_Resolve E ctx p ref = (Inr c, p')"
  obtains vals where "dp_values p' = Some vals" "dotenv_creds p' (normalizeKey (ref_name ref)) = Inr c"
    "normalizeKey (ref_name ref) \<noteq> []" "dp_values p = None \<Longrightarrow> load_values E p = Inr vals"
    "dp_values p \<noteq> None \<Longrightarrow> p' = p" "dp_Path p' = dp_Path p"
proof -
  have ctx: "ctx = None" using assms by (cases ctx) (simp_all add: dotenv_Resolve_def)
  show thesis
  proof (cases "dp_values p")
    case (Some vals)
    with assms ctx have "p' = p" "normalizeKey (ref_name ref) \<noteq> []" "dotenv_creds p (normalizeKey (ref_name ref)) = Inr c"
      by (auto simp: dotenv_Resolve_def Let_def split: if_splits)
    with Some that [of vals] show ?thesis by simp
  next
    case None
    with assms ctx obtain vals where l: "load_values E p = Inr vals"
      by (cases "load_values E p") (auto simp: dotenv_Resolve_def dotenv_load_def)
    with None assms ctx have "p' = p\<lparr>dp_values := Some vals\<rparr>" "normalizeKey (ref_name ref) \<noteq> []"
      "dotenv_creds p' (normalizeKey (ref_name ref)) = Inr c"
      by (auto simp: dotenv_Resolve_def dotenv_load_def Let_def split: if_splits)
    with None l that [of vals] show ?thesis by simp
  qed
qed

text \<open>The value of an entry, the empty one when there is none.\<close>

definition entry :: "(string \<rightharpoonup> string) \<Rightarrow> string \<Rightarrow> string" where
  "entry m k = (case m k of None \<Rightarrow> [] | Some v \<Rightarrow> v)"

lemma dotenv_creds_Inr:
  assumes "dotenv_creds p name = Inr c" "dp_values p = Some vals"
  shows "c_Username c = entry vals (name @ ''_USERNAME'')" "c_Username c \<noteq> []"
    "SecretString_Reveal (c_Password c) = entry vals (name @ ''_PASSWORD'')"
    "SecretBytes_Reveal (c_PrivateKeyPEM c) = entry vals (name @ ''_PRIVATE_KEY_PEM'')"
    "SecretString_Reveal (c_EnableSecret c) = entry vals (name @ ''_ENABLE_SECRET'')"
    "c_AuthType c = (if SecretBytes_Reveal (c_PrivateKeyPEM c) \<noteq> [] then ''private_key'' else ''password'')"
    "c_AuthType c = ''password'' \<Longrightarrow> SecretString_Reveal (c_Password c) \<noteq> []"
  using assms
  by (auto simp: dotenv_creds_def dotenv_lookup_def entry_def auth_type_def Let_def NewSecretString_def NewSecretBytes_def
      SecretString_IsZero_def SecretBytes_IsZero_def SecretString_Reveal_def SecretBytes_Reveal_def split: if_splits)

section \<open>Keys\<close>

lemma hex_key_padded:
  assumes "c \<in> set s" "hex_val c = None"
  shows "hex_DecodeString s = None"
  using hex_Decode_Some [of s] assms by (cases "hex_DecodeString s") auto

lemma decodeKey_length: "decodeKey raw = Inr key \<Longrightarrow> validAESKeyLen (length key)"
  by (auto simp: decodeKey_def key_of_def split: option.splits if_splits)

lemma decodeKey_hex:
  assumes "validAESKeyLen (length key)"
  shows "decodeKey (EncodeToString key) = Inr key"
proof -
  have "EncodeToString key \<noteq> []" using assms by (cases key) (auto simp: validAESKeyLen_def EncodeToString_def)
  then show ?thesis using assms by (simp add: decodeKey_def key_of_def)
qed

lemma decodeKey_b64:
  assumes "validAESKeyLen (length key)" "c \<in> set (b64_EncodeToString key)" "hex_val c = None"
  shows "decodeKey (b64_EncodeToString key) = Inr key"
proof -
  have "b64_EncodeToString key \<noteq> []" using assms(2) by auto
  then show ?thesis using assms(1) hex_key_padded [OF assms(2,3)] by (simp add: decodeKey_def key_of_def)
qed

lemma decodeKey_raw16:
  assumes "length raw = 16"
  shows "decodeKey raw = Inr raw"
proof -
  have h: "key_of (hex_DecodeString raw) = None"
    using hex_Decode_Some [of raw] assms by (auto simp: key_of_def validAESKeyLen_def split: option.splits)
  have b: "key_of (b64_DecodeString raw) = None"
    using b64_Decode_length [of raw] assms by (auto simp: key_of_def validAESKeyLen_def split: option.splits)
  show ?thesis using h b assms by (auto simp: decodeKey_def validAESKeyLen_def)
qed

text \<open>
  A raw key of 32 letters and digits is base 64 of 24 bytes, and taken as that: the cipher
  is AES-192 with another key than the one that was set.
\<close>

lemma raw_key_taken_as_base64:
  "\<exists>key. decodeKey ''0123456789abcdefghijklmnopqrstuv'' = Inr key \<and> length key = 24"
proof -
  have "(case decodeKey ''0123456789abcdefghijklmnopqrstuv'' of Inl _ \<Rightarrow> False | Inr k \<Rightarrow> length k = 24)" by code_simp
  then show ?thesis by (auto split: sum.splits)
qed

text \<open>Two references can stand for the same entries.\<close>

lemma normalizeKey_collision: "normalizeKey ''core-1.west'' = normalizeKey ''core.1-west''"
  by code_simp

text \<open>
  The encryption key is read back from each documented form. Whatever \<open>decodeKey\<close>
  accepts is a key of 16, 24 or 32 bytes; a key of such a length is read back from its
  hexadecimal text, from its base 64 text unless that consists of hexadecimal digits only
  (which can only happen for 24 bytes), and from itself when it has 16 bytes.
\<close>

theorem decodeKey_roundtrip:
  assumes "validAESKeyLen (length key)"
  shows "decodeKey (EncodeToString key) = Inr key
    \<and> (length key \<noteq> 24 \<or> (\<exists>c\<in>set (b64_EncodeToString key). hex_val c = None)
         \<longrightarrow> decodeKey (b64_EncodeToString key) = Inr key)
    \<and> (length key = 16 \<longrightarrow> decodeKey key = Inr key)
    \<and> (\<forall>raw key'. decodeKey raw = Inr key' \<longrightarrow> validAESKeyLen (length key'))"
proof -
  have pad: "hex_val (CHR ''='') = None" by (simp add: hex_val_def code_def)
  have b64: "decodeKey (b64_EncodeToString key) = Inr key"
    if "length key \<noteq> 24 \<or> (\<exists>c\<in>set (b64_EncodeToString key). hex_val c = None)"
  proof (cases "length key = 24")
    case False
    then have "length key mod 3 \<noteq> 0" using assms by (auto simp: validAESKeyLen_def)
    then show ?thesis by (rule decodeKey_b64 [OF assms b64_Encode_padded pad])
  next
    case True
    then show ?thesis using that decodeKey_b64 [OF assms] by blast
  qed
  show ?thesis using b64 decodeKey_raw16 [of key] by (auto simp: decodeKey_hex assms dest: decodeKey_length)
qed

theorem decodeKey_roundtrip_witness:
  "decodeKey (EncodeToString ''0123456789abcdef'') = Inr ''0123456789abcdef''
   \<and> decodeKey (b64_EncodeToString ''0123456789abcdef'') = Inr ''0123456789abcdef''
   \<and> decodeKey ''0123456789abcdef'' = Inr ''0123456789abcdef''"
  using decodeKey_roundtrip [of "''0123456789abcdef''"] by (simp add: validAESKeyLen_def)

section \<open>Resolving\<close>

text \<open>
  C25: what a reference resolves to. The first reference a provider with a file resolves
  makes it read the file, and only a file that, where this is required, denies all access
  to the group and to others. The user name, the secrets and the kind of login are the last
  assignments to the entries of the normalised name, those of the file before those of the
  environment; there is a user name and a password or a key. Later references are resolved
  from the same entries, whatever has become of the file.
\<close>

theorem dotenv_credentials:
  assumes "dp_values p = None" "dp_Path p \<noteq> []" "dotenv_Resolve E None p ref = (Inr c, p')"
  shows "\<exists>content ls. de_Open E (dp_Path p) = Inr (content, None) \<and> scan_lines content = Inr ls
      \<and> (dp_RequireChmod600 p \<and> \<not> de_windows E \<longrightarrow> (\<exists>perm. de_Stat E (dp_Path p) = Inr perm \<and> and perm 63 = 0))
      \<and> (let vals = map_of (rev (List.map_filter (\<lambda>env. Cut env (CHR ''='')) (de_Environ E)))
                      ++ map_of (rev (List.map_filter line_entry ls));
             value_of = (\<lambda>suffix. entry vals (normalizeKey (ref_name ref) @ suffix))
         in c_Username c = value_of ''_USERNAME'' \<and> c_Username c \<noteq> []
            \<and> SecretString_Reveal (c_Password c) = value_of ''_PASSWORD''
            \<and> SecretBytes_Reveal (c_PrivateKeyPEM c) = value_of ''_PRIVATE_KEY_PEM''
            \<and> SecretString_Reveal (c_EnableSecret c) = value_of ''_ENABLE_SECRET''
            \<and> (c_AuthType c = ''private_key'' \<and> value_of ''_PRIVATE_KEY_PEM'' \<noteq> []
                 \<or> c_AuthType c = ''password'' \<and> value_of ''_PRIVATE_KEY_PEM'' = [] \<and> value_of ''_PASSWORD'' \<noteq> []))
      \<and> (\<forall>E' ref'. snd (dotenv_Resolve E' None p' ref') = p'
            \<and> fst (dotenv_Resolve E' None p' ref') = fst (dotenv_Resolve E None p' ref'))"
proof -
  from assms(3) obtain vals where v: "dp_values p' = Some vals"
    "dotenv_creds p' (normalizeKey (ref_name ref)) = Inr c" "load_values E p = Inr vals"
    by (rule dotenv_Resolve_Inr) (use assms(1) in auto)
  from load_values_Inr [OF v(3) assms(2)] obtain content ls where l: "de_Open E (dp_Path p) = Inr (content, None)"
    "scan_lines content = Inr ls" "vals = file_values ls (environ_values (de_Environ E) Map.empty)"
    "check_mode E p = None" by blast
  have e: "vals = map_of (rev (List.map_filter (\<lambda>env. Cut env (CHR ''='')) (de_Environ E)))
      ++ map_of (rev (List.map_filter line_entry ls))"
    unfolding l(3) file_values_last environ_values_last by simp
  have mode: "dp_RequireChmod600 p \<and> \<not> de_windows E \<longrightarrow> (\<exists>perm. de_Stat E (dp_Path p) = Inr perm \<and> and perm 63 = 0)"
    using check_mode_None [OF l(4)] by blast
  have later: "\<forall>E' ref'. snd (dotenv_Resolve E' None p' ref') = p'
      \<and> fst (dotenv_Resolve E' None p' ref') = fst (dotenv_Resolve E None p' ref')"
    using v(1) by (simp add: dotenv_Resolve_def Let_def)
  show ?thesis
    using l(1,2) mode later dotenv_creds_Inr [OF v(2,1)] e
    by (intro exI [of _ content] exI [of _ ls]) (auto simp: Let_def)
qed

definition demo_dotenv_env :: dotenv_env where
  "demo_dotenv_env = \<lparr>de_windows = False, de_Environ = [''CORE_1_USERNAME=env''],
     de_Stat = (\<lambda>_. Inr 384),
     de_Open = (\<lambda>_. Inr (Join [''# routers'', '' CORE_1_USERNAME = admin'', ''CORE_1_PASSWORD= s3cret ''] [CHR 0x0A], None))\<rparr>"

definition demo_resolve :: "(go_error + Credentials) \<times> dotenv_Provider" where
  "demo_resolve = dotenv_Resolve demo_dotenv_env None (dotenv_New ''.env'' True) ''dotenv://core-1''"

theorem dotenv_credentials_witness:
  "\<exists>c. fst demo_resolve = Inr c \<and> c_Username c \<noteq> [] \<and> c_AuthType c = ''password''
     \<and> SecretString_Reveal (c_Password c) = ''s3cret''"
proof -
  have "(case fst demo_resolve of Inl _ \<Rightarrow> False
     | Inr c \<Rightarrow> c_AuthType c = ''password'' \<and> SecretString_Reveal (c_Password c) = ''s3cret'')" by code_simp
  then obtain c where c: "fst demo_resolve = Inr c" "c_AuthType c = ''password''"
    "SecretString_Reveal (c_Password c) = ''s3cret''" by (auto split: sum.splits)
  have r: "dotenv_Resolve demo_dotenv_env None (dotenv_New ''.env'' True) ''dotenv://core-1'' = (Inr c, snd demo_resolve)"
    using c(1) by (cases demo_resolve) (simp add: demo_resolve_def)
  have n: "dp_values (dotenv_New ''.env'' True) = None" "dp_Path (dotenv_New ''.env'' True) \<noteq> []"
    by (simp_all add: dotenv_New_def)
  from dotenv_credentials [OF n r] c show ?thesis by (auto simp: Let_def)
qed

end
