(* ===== verification/App.thy ===== *)
theory App
  imports Device_Store Credentials Configuration Inventory Gitstore Schedule Worker
begin

text \<open>
  The composition of the program, app/app.go: building the planner from the configuration,
  reloading the inventory into the metadata store, the sweeper that queues the scheduled
  backups, and the construction of the application. The time zone data base, the
  environment and the outcome of opening the data base are parameters; logging is left
  out. The goroutine of the sweeper is a loop over rounds, and what the context decides in
  each round is given; \<open>Start\<close>'s HTTP listener is represented by the error it returns.
\<close>

section \<open>The planner\<close>

fun buildScheduleWindows :: "(string \<Rightarrow> go_error + location) \<Rightarrow> WindowConfig list \<Rightarrow> location \<Rightarrow> go_error + ScheduleWindow list" where
  "buildScheduleWindows load [] fallback = Inr []"
| "buildScheduleWindows load (w # ws) fallback =
     (case (if wc_Timezone w = [] then Inr fallback else load (wc_Timezone w)) of
        Inl e \<Rightarrow> Inl (Wrapf ''scheduler window %q timezone: %w'' [wc_Name w] e)
      | Inr loc \<Rightarrow>
          (case ParseClock (wc_Start w) of
             Inl e \<Rightarrow> Inl (Wrapf ''scheduler window %q start: %w'' [wc_Name w] e)
           | Inr start \<Rightarrow>
               (case ParseClock (wc_End w) of
                  Inl e \<Rightarrow> Inl (Wrapf ''scheduler window %q end: %w'' [wc_Name w] e)
                | Inr finish \<Rightarrow>
                    (case ParseWeekdays (wc_Days w) of
                       Inl e \<Rightarrow> Inl (Wrapf ''scheduler window %q days: %w'' [wc_Name w] e)
                     | Inr days \<Rightarrow>
                         res_bind (buildScheduleWindows load ws fallback) (\<lambda>out.
                           Inr (\<lparr>sw_Name = wc_Name w, sw_Days = days, sw_Start = start, sw_End = finish,
                                 sw_Location = Some loc, sw_Groups = wc_Groups w, sw_Sites = wc_Sites w,
                                 sw_Vendors = wc_Vendors w, sw_Roles = wc_Roles w\<rparr> # out))))))"

text \<open>\<open>Inr None\<close> is the nil planner of a configuration without interval and cron line.\<close>

definition buildSchedulePlanner :: "(string \<Rightarrow> go_error + location) \<Rightarrow> SchedulerConfig \<Rightarrow> go_error + Planner option" where
  "buildSchedulePlanner load cfg =
     (if sc_DefaultInterval cfg \<le> 0 \<and> sc_Cron cfg = [] then Inr None
      else (case (if sc_Timezone cfg = [] then Inr UTC else load (sc_Timezone cfg)) of
              Inl e \<Rightarrow> Inl (Wrapf ''scheduler.timezone: %w'' [] e)
            | Inr loc \<Rightarrow>
                res_bind (buildScheduleWindows load (sc_Windows cfg) loc) (\<lambda>windows.
                res_bind (buildScheduleWindows load (sc_Blackouts cfg) loc) (\<lambda>blackouts.
                res_bind (NewPlanner \<lparr>sp_Interval = sc_DefaultInterval cfg, sp_Cron = sc_Cron cfg, sp_Location = Some loc,
                            sp_JitterPercent = sc_JitterPercent cfg, sp_JitterMax = sc_JitterMax cfg, sp_Jitter = None,
                            sp_Windows = windows, sp_Blackouts = blackouts\<rparr>) (\<lambda>p. Inr (Some p))))))"

section \<open>The application\<close>

record 's App =
  ap_Config :: AppConfig
  ap_Metadata :: "'s MetadataStore"
  ap_Scheduler :: "'s SchedulerI"
  ap_schedule :: "Planner option"

text \<open>The sources in order: the targets of all of them, and the first error. \<open>load\<close> is the CSV source of a path.\<close>

fun reload_sources :: "(string \<Rightarrow> Target list \<times> go_error option) \<Rightarrow> InventorySource list \<Rightarrow> Target list \<Rightarrow> go_error option
    \<Rightarrow> Target list \<times> go_error option" where
  "reload_sources load [] all firstErr = (all, firstErr)"
| "reload_sources load (src # srcs) all firstErr =
     (if is_Type src \<noteq> ''csv''
      then reload_sources load srcs all
             (case firstErr of Some e \<Rightarrow> Some e
              | None \<Rightarrow> Some (errors_New (''unsupported inventory source type '' @ is_Type src)))
      else (let (targets, err) = load (is_Path src)
            in reload_sources load srcs (all @ targets) (case firstErr of Some e \<Rightarrow> Some e | None \<Rightarrow> err)))"

definition ReloadInventory :: "(string \<Rightarrow> Target list \<times> go_error option) \<Rightarrow> 's App \<Rightarrow> (go_error option, 's) op" where
  "ReloadInventory load a s =
     (let (all, firstErr) = reload_sources load (iv_Sources (ac_Inventory (ap_Config a))) [] None
      in if all = [] then (firstErr, s)
         else (case md_UpsertDevices (ap_Metadata a) all s of
                 (Some e, s1) \<Rightarrow> (Some e, s1)
               | (None, s1) \<Rightarrow> (firstErr, s1)))"

text \<open>The job of one device in a sweep, and the sweep: the requests handed to the scheduler, in order.\<close>

definition sweep_request :: "Target \<Rightarrow> ScheduleDecision \<Rightarrow> Request" where
  "sweep_request t d = \<lparr>rq_Job = \<lparr>j_ID = [], j_TargetID = t_ID t, j_Group = t_Group t, j_Trigger = ''schedule'',
     j_Actor = ''scheduler'', j_Status = StatusQueued, j_Attempt = 0, j_QueuedAt = sd_QueueAt d, j_StartedAt = 0,
     j_UpdatedAt = 0\<rparr>, rq_Target = t\<rparr>"

fun sweep_devices :: "'s SchedulerI \<Rightarrow> Planner \<Rightarrow> instant \<Rightarrow> Target list \<Rightarrow> 's \<Rightarrow> Request list \<times> 's" where
  "sweep_devices sc p base [] s = ([], s)"
| "sweep_devices sc p base (t # ts) s =
     (if \<not> t_Enabled t then sweep_devices sc p base ts s
      else (case QueueTime p base t of
              Inl e \<Rightarrow> sweep_devices sc p base ts s
            | Inr decision \<Rightarrow>
                (let req = sweep_request t decision; (_, s1) = sc_Enqueue sc req s;
                     (rs, s2) = sweep_devices sc p base ts s1
                 in (req # rs, s2))))"

definition enqueueSweep :: "'s App \<Rightarrow> Planner \<Rightarrow> instant \<Rightarrow> 's \<Rightarrow> Request list \<times> 's" where
  "enqueueSweep a p base s =
     (case md_ListDevices (ap_Metadata a) s of
        (Inl e, s1) \<Rightarrow> ([], s1)
      | (Inr devices, s1) \<Rightarrow> sweep_devices (ap_Scheduler a) p base devices s1)"



text \<open>A backup outside the scheduler, for the command line.\<close>

definition RunBackup :: "'s BackupRunner \<Rightarrow> Target \<Rightarrow> string \<Rightarrow> string \<Rightarrow> 's world \<Rightarrow> JobResult \<times> 's world" where
  "RunBackup runner target trigger actor w =
     (let (now, w1) = time_now runner w in
      Handle runner \<lparr>rq_Job = \<lparr>j_ID = [], j_TargetID = t_ID target, j_Group = t_Group target, j_Trigger = trigger,
        j_Actor = actor, j_Status = StatusQueued, j_Attempt = 0, j_QueuedAt = now, j_StartedAt = 0, j_UpdatedAt = 0\<rparr>,
        rq_Target = target\<rparr> w1)"

section \<open>Construction\<close>

text \<open>
  \<open>New\<close> in the order of the code. \<open>env\<close> gives the environment, the outcomes of opening and
  migrating the data base, the time zones, the OIDC client and the clock; what is built is
  a record of the settings each component gets, and \<open>metadata_log\<close> the calls on the
  connection pool, which has to be closed when the construction fails.
\<close>

record new_env =
  ne_Getenv :: "string \<Rightarrow> string"
  ne_Open :: "string \<Rightarrow> go_error option"
  ne_Migrate :: "go_error option"
  ne_LoadLocation :: "string \<Rightarrow> go_error + location"
  ne_NewOIDC :: "OIDCSettings \<Rightarrow> go_error option"
  ne_Now :: instant
  ne_Cwd :: string

datatype metadata_call = MOpen | MMigrate | MClose

record server_settings =
  ss_BootstrapToken :: string
  ss_AuthRequired :: bool
  ss_OIDCEnabled :: bool
  ss_OIDCSessionTTL :: duration
  ss_OIDCCookieName :: string
  ss_RequireEmailVerified :: bool
  ss_StartedAt :: instant

record 'db built =
  bt_storage :: "Gitstore.Store"
  bt_credentials :: string \<comment> \<open>the kind of the default provider\<close>
  bt_ssh :: SSHConfig
  bt_telnet :: TelnetConfig
  bt_schedule :: "Planner option"
  bt_manager :: "'db Config"
  bt_server :: server_settings

text \<open>The names under which the two kinds of providers are registered.\<close>

definition provider_kinds :: "(string \<times> string) list" where
  "provider_kinds = [(''dotenv'', ''dotenv''), (''env'', ''dotenv''), (''encfile'', ''encryptedfile''),
     (''encrypted-file'', ''encryptedfile'')]"

text \<open>
  The credential providers: four names over two kinds, each name with a provider of its
  own, behind the router of \<open>Credentials\<close>.
\<close>

record cred_state =
  cd_dotenv :: dotenv_Provider
  cd_env :: dotenv_Provider
  cd_encfile :: encfile_Provider
  cd_encrypted_file :: encfile_Provider

definition new_cred_state :: "CredentialsConfig \<Rightarrow> cred_state" where
  "new_cred_state c =
     (let d = dotenv_New (de_FilePath (cc_Dotenv c)) (de_RequireChmod600 (cc_Dotenv c));
          e = encfile_New (ef_Path (cc_EncryptedFile c)) (ef_KeyEnv (cc_EncryptedFile c))
      in \<lparr>cd_dotenv = d, cd_env = d, cd_encfile = e, cd_encrypted_file = e\<rparr>)"

definition cred_providers :: "dotenv_env \<Rightarrow> encfile_env \<Rightarrow> go_error option \<Rightarrow> string \<rightharpoonup> cred_state provider" where
  "cred_providers D E ctx =
     [''dotenv'' \<mapsto> (\<lambda>ref s. map_prod id (\<lambda>p. s\<lparr>cd_dotenv := p\<rparr>) (dotenv_Resolve D ctx (cd_dotenv s) ref)),
      ''env'' \<mapsto> (\<lambda>ref s. map_prod id (\<lambda>p. s\<lparr>cd_env := p\<rparr>) (dotenv_Resolve D ctx (cd_env s) ref)),
      ''encfile'' \<mapsto> (\<lambda>ref s. map_prod id (\<lambda>p. s\<lparr>cd_encfile := p\<rparr>) (encfile_Resolve E ctx (cd_encfile s) ref)),
      ''encrypted-file'' \<mapsto>
        (\<lambda>ref s. map_prod id (\<lambda>p. s\<lparr>cd_encrypted_file := p\<rparr>) (encfile_Resolve E ctx (cd_encrypted_file s) ref))]"

definition new_credentials :: "dotenv_env \<Rightarrow> encfile_env \<Rightarrow> go_error option \<Rightarrow> CredentialsConfig \<Rightarrow> go_error + cred_state cred_Router" where
  "new_credentials D E ctx c =
     (case cred_providers D E ctx (cc_DefaultProvider c) of
        None \<Rightarrow> Inl (errors_New (''unknown credentials.default_provider '' @ cc_DefaultProvider c))
      | Some p \<Rightarrow> Inr \<lparr>ro_Default = Some p, ro_Providers = cred_providers D E ctx\<rparr>)"

lemma cred_providers_kinds: "dom (cred_providers D E ctx) = set (map fst provider_kinds)"
  by (auto simp: cred_providers_def provider_kinds_def)

text \<open>
  What the application resolves comes from one provider: the one named before \<open>://\<close>, or the
  default one. An error is the context's, names an unknown scheme, or is classified as one
  of the credential provider.
\<close>

lemma credential_errors:
  assumes "new_credentials D E ctx c = Inr r" "router_Resolve r ref s = (Inl e, s')"
  shows "ctx = Some e \<or> ClassifyError e = FailureCredentialProvider
    \<or> provider_name ref \<noteq> [] \<and> provider_name ref \<notin> set (map fst provider_kinds) \<and> s' = s"
proof -
  from assms(1) obtain p where p: "cred_providers D E ctx (cc_DefaultProvider c) = Some p"
    "r = \<lparr>ro_Default = Some p, ro_Providers = cred_providers D E ctx\<rparr>"
    by (auto simp: new_credentials_def split: option.splits)
  have dot: "dotenv_Resolve D ctx q ref = (Inl e, q') \<Longrightarrow> ctx = Some e \<or> ClassifyError e = FailureCredentialProvider" for q q'
    by (auto simp: dotenv_Resolve_def dotenv_creds_def Let_def ClassifyError_def split: option.splits prod.splits if_splits)
  have enc: "encfile_Resolve E ctx q ref = (Inl e, q') \<Longrightarrow> ctx = Some e \<or> ClassifyError e = FailureCredentialProvider" for q q'
    by (auto simp: encfile_Resolve_def Let_def ClassifyError_def split: option.splits prod.splits if_splits)
  have q: "ctx = Some e \<or> ClassifyError e = FailureCredentialProvider"
    if "cred_providers D E ctx k = Some q" "q ref s = (Inl e, s')" for k q
    using that by (auto simp: cred_providers_def map_prod_def split: if_splits prod.splits dest!: dot enc)
  show ?thesis
  proof (cases "provider_name ref = []")
    case True
    then show ?thesis using assms(2) p q by (auto simp: router_Resolve_def)
  next
    case named: False
    show ?thesis
    proof (cases "cred_providers D E ctx (provider_name ref)")
      case None
      then have "provider_name ref \<notin> set (map fst provider_kinds)" using cred_providers_kinds [of D E ctx] by blast
      then show ?thesis using None named assms(2) p(2) by (auto simp: router_Resolve_def)
    next
      case (Some k)
      then show ?thesis using named assms(2) p(2) q [OF Some] by (auto simp: router_Resolve_def)
    qed
  qed
qed

definition manager_config :: "'db LeaseStore \<Rightarrow> SchedulerConfig \<Rightarrow> 'db Config" where
  "manager_config meta cfg =
     \<lparr>cfg_QueueSize = sc_QueueSize cfg, cfg_MaxGlobalConcurrency = sc_MaxGlobalConcurrency cfg,
      cfg_MaxPerVendorConcurrency = sc_MaxPerVendorConcurrency cfg, cfg_MaxPerGroupConcurrency = sc_MaxPerGroupConcurrency cfg,
      cfg_MaxPerSiteConcurrency = sc_MaxPerSiteConcurrency cfg,
      cfg_MaxNewConnectionsPerSecond = sc_MaxNewConnectionsPerSecond cfg,
      cfg_MaxAttempts = rt_MaxAttempts (sc_Retry cfg), cfg_BackoffInitial = rt_BackoffInitial (sc_Retry cfg),
      cfg_BackoffMax = rt_BackoffMax (sc_Retry cfg), cfg_CircuitFailureThreshold = 0, cfg_CircuitOpenDuration = 0,
      cfg_WorkerID = le_WorkerID (sc_Lease cfg),
      cfg_LeaseStore = (if le_Enabled (sc_Lease cfg) then Some meta else None),
      cfg_LeaseTTL = le_TTL (sc_Lease cfg), cfg_LeaseRenewInterval = le_RenewInterval (sc_Lease cfg)\<rparr>"

definition oidc_settings :: "string \<Rightarrow> OIDCConfig \<Rightarrow> OIDCSettings" where
  "oidc_settings secret o' = \<lparr>os_IssuerURL = oi_IssuerURL o', os_ClientID = oi_ClientID o', os_ClientSecret = secret,
     os_RedirectURL = oi_RedirectURL o', os_Scopes = oi_Scopes o', os_RequireVerified = False\<rparr>"

definition server_of :: "new_env \<Rightarrow> AuthConfig \<Rightarrow> server_settings" where
  "server_of env au =
     \<lparr>ss_BootstrapToken = ne_Getenv env (au_BootstrapTokenEnv au),
      ss_AuthRequired = (au_APITokensEnabled au \<or> OIDCActive au), ss_OIDCEnabled = OIDCActive au,
      ss_OIDCSessionTTL = oi_SessionTTL (au_OIDC au), ss_OIDCCookieName = oi_CookieName (au_OIDC au),
      ss_RequireEmailVerified = oi_RequireEmailVerified (au_OIDC au), ss_StartedAt = ne_Now env\<rparr>"

text \<open>The OIDC client, when it is active: an error, or nothing to report.\<close>

definition new_oidc :: "new_env \<Rightarrow> AuthConfig \<Rightarrow> go_error option" where
  "new_oidc env au =
     (if \<not> OIDCActive au then None
      else (let secret = ne_Getenv env (oi_ClientSecretEnv (au_OIDC au)) in
            if secret = [] then Some (Errorf ''%s is required when OIDC auth is enabled'' [oi_ClientSecretEnv (au_OIDC au)])
            else map_option (Wrapf ''configure oidc auth: %w'' []) (ne_NewOIDC env (oidc_settings secret (au_OIDC au)))))"

definition new_parts :: "new_env \<Rightarrow> 'db LeaseStore \<Rightarrow> AppConfig \<Rightarrow> go_error + 'db built" where
  "new_parts env meta cfg =
     (let st = st_Config (ac_Storage cfg); au = sv_Auth (ac_Server cfg) in
      case map_of provider_kinds (cc_DefaultProvider (ac_Credentials cfg)) of
        None \<Rightarrow> Inl (errors_New (''unknown credentials.default_provider '' @ cc_DefaultProvider (ac_Credentials cfg)))
      | Some kind \<Rightarrow>
          (case buildSchedulePlanner (ne_LoadLocation env) (ac_Scheduler cfg) of
             Inl e \<Rightarrow> Inl e
           | Inr schedule \<Rightarrow>
               (case new_oidc env au of
                  Some e \<Rightarrow> Inl e
                | None \<Rightarrow> Inr \<lparr>bt_storage = New_store (ne_Cwd env) (cs_BasePath st) (cs_ShardStrategy st) (cs_ShardCount st)
                                (cs_AuthorName st) (cs_AuthorEmail st),
                    bt_credentials = kind, bt_ssh = tr_SSH (ac_Transport cfg), bt_telnet = tr_Telnet (ac_Transport cfg),
                    bt_schedule = schedule, bt_manager = manager_config meta (ac_Scheduler cfg), bt_server = server_of env au\<rparr>)))"

definition New :: "new_env \<Rightarrow> 'db LeaseStore \<Rightarrow> AppConfig \<Rightarrow> (go_error + 'db built) \<times> metadata_call list" where
  "New env meta cfg =
     (let dsn = MetadataDSN (ne_Getenv env) cfg in
      if dsn = [] then (Inl (errors_New ''GOXIDIZED_POSTGRES_DSN or storage.metadata.dsn is required''), [])
      else (case ne_Open env dsn of
              Some e \<Rightarrow> (Inl e, [])
            | None \<Rightarrow>
                (case ne_Migrate env of
                   Some e \<Rightarrow> (Inl e, [MOpen, MMigrate, MClose])
                 | None \<Rightarrow>
                     (case new_parts env meta cfg of
                        Inl e \<Rightarrow> (Inl e, [MOpen, MMigrate, MClose])
                      | Inr b \<Rightarrow> (Inr b, [MOpen, MMigrate])))))"

text \<open>\<open>Close\<close> on a built application.\<close>

definition Close :: "metadata_call list \<Rightarrow> metadata_call list" where
  "Close calls = calls @ [MClose]"

text \<open>
  \<open>Start\<close> as the sequence of what it does before it blocks in the listener: the reload,
  whose error is only logged, the goroutine of the sweeper, the workers of the manager, and
  the listener, whose result \<open>serve\<close> gives. The goroutines are \<open>startSweeper\<close> and the
  threads of \<open>Manager\<close>.
\<close>

datatype start_step =
    StReload "go_error option"
  | StSweeper
  | StWorkers int
  | StListen string
  | StListenTLS string string string

definition ErrServerClosed :: go_error where
  "ErrServerClosed = errors_New ''http: Server closed''"

definition start_error :: "go_error option \<Rightarrow> go_error option" where
  "start_error err =
     (case err of None \<Rightarrow> None | Some e \<Rightarrow> if error_is e ErrServerClosed then None else Some e)"

definition start_listen :: "ServerConfig \<Rightarrow> start_step" where
  "start_listen srv =
     (if sv_TLSEnabled srv then StListenTLS (sv_ListenAddress srv) (sv_TLSCertFile srv) (sv_TLSKeyFile srv)
      else StListen (sv_ListenAddress srv))"

definition app_Start :: "(string \<Rightarrow> Target list \<times> go_error option) \<Rightarrow> (start_step \<Rightarrow> go_error option) \<Rightarrow> 's App
    \<Rightarrow> (go_error option \<times> start_step list, 's) op" where
  "app_Start load serve a s =
     (let (err, s1) = ReloadInventory load a s;
          listen = start_listen (ac_Server (ap_Config a))
      in ((start_error (serve listen),
           [StReload err] @ (if ap_schedule a = None then [] else [StSweeper])
           @ [StWorkers (sc_MaxGlobalConcurrency (ac_Scheduler (ap_Config a))), listen]), s1))"

text \<open>A reload that fails does not keep the service from starting; a closed listener is no error.\<close>

lemma app_Start_steps:
  assumes "app_Start load serve a s = ((r, steps), s')"
  shows "\<exists>err. ReloadInventory load a s = (err, s') \<and> hd steps = StReload err
      \<and> last steps = start_listen (ac_Server (ap_Config a))
      \<and> (StSweeper \<in> set steps \<longleftrightarrow> ap_schedule a \<noteq> None)"
    and "serve (start_listen (ac_Server (ap_Config a))) = Some ErrServerClosed \<Longrightarrow> r = None"
  using assms
  by (auto simp: app_Start_def start_error_def start_listen_def ErrServerClosed_def Let_def split: prod.splits if_splits)

section \<open>Credentials are resolved once\<close>

text \<open>The four providers as members of a router; an environment is that of both kinds.\<close>

definition app_providers :: "string \<rightharpoonup> (dotenv_env \<times> encfile_env \<Rightarrow> cred_state provider)" where
  "app_providers n =
     (if n \<in> set (map fst provider_kinds) then Some (\<lambda>e. the (cred_providers (fst e) (snd e) None n)) else None)"

definition app_knowns :: "string \<Rightarrow> cred_state \<Rightarrow> string \<rightharpoonup> Credentials" where
  "app_knowns n s =
     (if n = ''dotenv'' then dotenv_known (cd_dotenv s) else if n = ''env'' then dotenv_known (cd_env s)
      else if n = ''encfile'' then encfile_known (cd_encfile s)
      else if n = ''encrypted-file'' then encfile_known (cd_encrypted_file s) else Map.empty)"

lemma app_provider_cases:
  assumes "app_providers n = Some p"
  obtains (dotenv) "n = ''dotenv''" "p = (\<lambda>e ref s. map_prod id (\<lambda>q. s\<lparr>cd_dotenv := q\<rparr>) (dotenv_Resolve (fst e) None (cd_dotenv s) ref))"
  | (env) "n = ''env''" "p = (\<lambda>e ref s. map_prod id (\<lambda>q. s\<lparr>cd_env := q\<rparr>) (dotenv_Resolve (fst e) None (cd_env s) ref))"
  | (encfile) "n = ''encfile''" "p = (\<lambda>e ref s. map_prod id (\<lambda>q. s\<lparr>cd_encfile := q\<rparr>) (encfile_Resolve (snd e) None (cd_encfile s) ref))"
  | (encrypted) "n = ''encrypted-file''"
      "p = (\<lambda>e ref s. map_prod id (\<lambda>q. s\<lparr>cd_encrypted_file := q\<rparr>) (encfile_Resolve (snd e) None (cd_encrypted_file s) ref))"
proof -
  from assms have "n \<in> set (map fst provider_kinds)" "p = (\<lambda>e. the (cred_providers (fst e) (snd e) None n))"
    by (simp_all add: app_providers_def split: if_splits)
  then show ?thesis using that by (auto simp: provider_kinds_def cred_providers_def)
qed

lemma app_provider_contract:
  assumes "app_providers n = Some p"
  shows "credential_provider p (app_knowns n)"
  using assms
proof (cases rule: app_provider_cases)
  case dotenv
  show ?thesis unfolding dotenv app_knowns_def
    by unfold_locales (auto simp: map_prod_def dotenv.answered split: prod.splits dest: dotenv.typed dotenv.learnt dotenv.kept)
next
  case env
  show ?thesis unfolding env app_knowns_def
    by unfold_locales (auto simp: map_prod_def dotenv.answered split: prod.splits dest: dotenv.typed dotenv.learnt dotenv.kept)
next
  case encfile
  show ?thesis unfolding encfile app_knowns_def
    by unfold_locales (auto simp: map_prod_def encfile.answered split: prod.splits dest: encfile.typed encfile.learnt encfile.kept)
next
  case encrypted
  show ?thesis unfolding encrypted app_knowns_def
    by unfold_locales (auto simp: map_prod_def encfile.answered split: prod.splits dest: encfile.typed encfile.learnt encfile.kept)
qed

interpretation app_credentials: credential_router app_providers app_knowns dflt for dflt
proof (rule credential_router.intro)
  fix n p m s ref c e ref' x s'
  show "credential_provider p (app_knowns n)" if "app_providers n = Some p"
    using that by (rule app_provider_contract)
  show "app_knowns m s' ref = Some c"
    if "app_providers n = Some p" "app_knowns m s ref = Some c" "p e ref' s = (x, s')"
    using that(1)
    by (cases rule: app_provider_cases)
       (use that(2,3) in \<open>auto simp: app_knowns_def map_prod_def split: prod.splits if_splits dest: dotenv.kept encfile.kept\<close>)
  show "app_knowns n s ref = None" if "app_providers n = None"
    using that by (auto simp: app_providers_def app_knowns_def provider_kinds_def split: if_splits)
qed

lemma new_credentials_router:
  assumes "new_credentials D E None c = Inr r"
  shows "r = app_credentials.router_at (cc_DefaultProvider c) (D, E)"
proof -
  have p: "map_option (\<lambda>p. p (D, E)) (app_providers n) = cred_providers D E None n" for n
    using cred_providers_kinds [of D E None]
    by (cases "cred_providers D E None n") (auto simp: app_providers_def)
  from assms show ?thesis
    by (auto simp: new_credentials_def app_credentials.router_at_def p split: option.splits)
qed

text \<open>Later resolutions by the same application, while its environment changes.\<close>

definition resolve_later :: "CredentialsConfig \<Rightarrow> ((dotenv_env \<times> encfile_env) \<times> string) list \<Rightarrow> cred_state \<Rightarrow> cred_state" where
  "resolve_later c rs s =
     fold (\<lambda>(e, ref) s. case new_credentials (fst e) (snd e) None c of Inl _ \<Rightarrow> s | Inr r \<Rightarrow> snd (router_Resolve r ref s)) rs s"

text \<open>
  C26: what was resolved stays. Once a reference has been resolved, every later resolution of
  it gives the same credentials, whatever becomes of the environment, the files and the
  key, and whatever other references are resolved in between, successfully or not.
\<close>

theorem credentials_resolved_once:
  assumes "new_credentials D E None c = Inr r" "router_Resolve r ref s = (Inr creds, s1)"
    and "new_credentials D' E' None c = Inr r'"
  shows "c_AuthType creds = auth_type creds
    \<and> router_Resolve r' ref (resolve_later c rs s1) = (Inr creds, resolve_later c rs s1)"
proof -
  let ?d = "cc_DefaultProvider c"
  note routed = new_credentials_router
  have some: "\<exists>q. new_credentials A B None c = Inr q" for A B
  proof -
    have "dom (cred_providers A B None) = dom (cred_providers D E None)" by (simp add: cred_providers_kinds)
    with assms(1) show ?thesis
      by (auto simp: new_credentials_def dom_def set_eq_iff split: option.splits)
  qed
  have "resolve_later c rs s1 = app_credentials.routed.later ?d rs s1"
    unfolding resolve_later_def app_credentials.routed.later_def
  proof (rule fold_cong [OF refl refl], clarsimp)
    fix A B x
    obtain q where "new_credentials A B None c = Inr q" using some by blast
    with routed [OF this]
    show "(\<lambda>s. case new_credentials A B None c of Inl _ \<Rightarrow> s | Inr r \<Rightarrow> snd (router_Resolve r x s))
        = (\<lambda>s. snd (router_Resolve (app_credentials.router_at ?d (A, B)) x s))" by simp
  qed
  with app_credentials.routed.resolved_once app_credentials.routed.typed assms(2)
  show ?thesis unfolding routed [OF assms(1)] routed [OF assms(3)] by metis
qed

definition demo_encfile_env :: encfile_env where
  "demo_encfile_env = \<lparr>ee_Getenv = (\<lambda>_. []), ee_ReadFile = (\<lambda>_. Inl Canceled), ee_Open = (\<lambda>_ _ _. Inl Canceled),
     ee_Unmarshal = (\<lambda>_. Inl Canceled)\<rparr>"

definition demo_cred_config :: CredentialsConfig where
  "demo_cred_config = \<lparr>cc_DefaultProvider = ''env'', cc_Dotenv = \<lparr>de_FilePath = [], de_RequireChmod600 = False\<rparr>,
     cc_EncryptedFile = \<lparr>ef_Path = [], ef_KeyEnv = [], ef_NonceSize = 0\<rparr>, cc_Providers = Map.empty\<rparr>"

definition demo_environ :: "string list \<Rightarrow> dotenv_env" where
  "demo_environ vars = \<lparr>de_windows = False, de_Environ = vars, de_Stat = (\<lambda>_. Inl Canceled), de_Open = (\<lambda>_. Inl Canceled)\<rparr>"

definition demo_creds_first :: "(go_error + Credentials) \<times> cred_state" where
  "demo_creds_first = (case new_credentials (demo_environ [''R1_USERNAME=u'', ''R1_PASSWORD=p'']) demo_encfile_env None demo_cred_config of
     Inr r \<Rightarrow> router_Resolve r ''r1'' (new_cred_state demo_cred_config))"

theorem credentials_resolved_once_witness:
  "\<exists>creds s r'. demo_creds_first = (Inr creds, s)
     \<and> new_credentials (demo_environ []) demo_encfile_env None demo_cred_config = Inr r'
     \<and> router_Resolve r' ''r1'' (resolve_later demo_cred_config [((demo_environ [], demo_encfile_env), ''encfile://x'')] s)
         = (Inr creds, resolve_later demo_cred_config [((demo_environ [], demo_encfile_env), ''encfile://x'')] s)"
proof -
  have n: "\<exists>r. new_credentials A B None demo_cred_config = Inr r" for A B
    by (simp add: new_credentials_def cred_providers_def demo_cred_config_def)
  obtain r where r: "new_credentials (demo_environ [''R1_USERNAME=u'', ''R1_PASSWORD=p'']) demo_encfile_env None demo_cred_config = Inr r"
    using n by blast
  obtain r' where r': "new_credentials (demo_environ []) demo_encfile_env None demo_cred_config = Inr r'" using n by blast
  have "\<not> isl (fst demo_creds_first)" by code_simp
  then obtain creds s where c: "demo_creds_first = (Inr creds, s)"
    by (metis isl_def sum.collapse(2) prod.collapse)
  then have "router_Resolve r ''r1'' (new_cred_state demo_cred_config) = (Inr creds, s)"
    by (simp add: demo_creds_first_def r)
  from credentials_resolved_once [OF r this r'] c r' show ?thesis by blast
qed

section \<open>The planner of a configuration\<close>

lemma buildScheduleWindows_names:
  "buildScheduleWindows load ws loc = Inr out \<Longrightarrow>
   map sw_Name out = map wc_Name ws \<and> map sw_Groups out = map wc_Groups ws \<and> map sw_Sites out = map wc_Sites ws
   \<and> map sw_Vendors out = map wc_Vendors ws \<and> map sw_Roles out = map wc_Roles ws \<and> (\<forall>w\<in>set out. sw_Location w \<noteq> None)"
proof (induction ws arbitrary: out)
  case (Cons w ws)
  then show ?case by (auto split: sum.splits)
qed simp

text \<open>A validated configuration has a planner, unless it cannot be built at all.\<close>

lemma planner_of_valid:
  assumes "Validate c = None" "buildSchedulePlanner load (ac_Scheduler c) = Inr po"
  obtains p where "po = Some p" "sp_Interval (p_policy p) = sc_DefaultInterval (ac_Scheduler c)"
    "sp_Cron (p_policy p) = sc_Cron (ac_Scheduler c)"
proof -
  have "\<not> (sc_DefaultInterval (ac_Scheduler c) \<le> 0 \<and> sc_Cron (ac_Scheduler c) = [])"
    using Validate_scheduler_usable(5) [OF assms(1)] by auto
  with assms(2) show ?thesis
    by (auto simp: buildSchedulePlanner_def NewPlanner_def split: sum.splits option.splits if_splits intro: that)
qed

text \<open>
  A cron line of blanks passes the validation although there is no interval; the planner is
  built, has no base time, and the sweeper ends at once without a sweep.
\<close>

lemma blank_cron_disables:
  assumes "sc_Cron cfg = '' ''" "sc_DefaultInterval cfg \<le> 0" "sc_Timezone cfg = []"
    "sc_Windows cfg = []" "sc_Blackouts cfg = []"
  shows "\<exists>p. buildSchedulePlanner load cfg = Inr (Some p)
    \<and> InitialBase p now = Inl (errors_New ''scheduler interval or cron is required'')"
proof -
  have "TrimSpace '' '' = []" by code_simp
  then show ?thesis using assms
    by (simp add: buildSchedulePlanner_def NewPlanner_def InitialBase_def)
qed

section \<open>Sweeps\<close>

definition swept :: "Planner \<Rightarrow> instant \<Rightarrow> Target list \<Rightarrow> Request list" where
  "swept p base devices =
     concat (map (\<lambda>t. case QueueTime p base t of Inl _ \<Rightarrow> [] | Inr d \<Rightarrow> [sweep_request t d]) (filter t_Enabled devices))"

lemma sweep_devices_requests: "fst (sweep_devices sc p base devices s) = swept p base devices"
  by (induction devices arbitrary: s)
     (auto simp: swept_def Let_def case_prod_beta split: sum.splits)

lemma sweep_request_simps [simp]:
  "rq_Target (sweep_request t d) = t" "j_QueuedAt (rq_Job (sweep_request t d)) = sd_QueueAt d"
  "j_TargetID (rq_Job (sweep_request t d)) = t_ID t" "j_Trigger (rq_Job (sweep_request t d)) = ''schedule''"
  "j_Actor (rq_Job (sweep_request t d)) = ''scheduler''"
  by (simp_all add: sweep_request_def)













section \<open>Reloading the inventory\<close>

lemma reload_sources_result:
  "reload_sources load srcs all err = (all', err') \<Longrightarrow>
   (\<exists>parts. all' = all @ concat parts
      \<and> parts = map (\<lambda>src. fst (load (is_Path src))) (filter (\<lambda>src. is_Type src = ''csv'') srcs))
   \<and> (err' = None \<longrightarrow> err = None \<and> (\<forall>src\<in>set srcs. is_Type src = ''csv'' \<and> snd (load (is_Path src)) = None))"
proof (induction srcs arbitrary: all err)
  case (Cons src srcs)
  show ?case
  proof (cases "is_Type src = ''csv''")
    case True
    obtain ts e where l: "load (is_Path src) = (ts, e)" by fastforce
    with Cons.prems True have "reload_sources load srcs (all @ ts) (case err of Some e \<Rightarrow> Some e | None \<Rightarrow> e) = (all', err')"
      by simp
    from Cons.IH [OF this] True l show ?thesis by (auto split: option.splits)
  next
    case False
    with Cons.prems have "reload_sources load srcs all
        (case err of Some e \<Rightarrow> Some e | None \<Rightarrow> Some (errors_New (''unsupported inventory source type '' @ is_Type src))) = (all', err')"
      by simp
    from Cons.IH [OF this] False show ?thesis by (auto split: option.splits)
  qed
qed auto

lemma Load_inventory_valid:
  "list_all valid_target (fst (Load_inventory ctx opened)) \<and> list_all trimmed (fst (Load_inventory ctx opened))"
  using Parse_spec by (auto simp: Load_inventory_def split: sum.splits prod.splits)

lemma sweep_devices_targets:
  assumes "sweep_devices sc p base ts s = (rs, s')" "r \<in> set rs"
  shows "rq_Target r \<in> set ts \<and> t_Enabled (rq_Target r)"
proof -
  have "r \<in> set (swept p base ts)" using assms sweep_devices_requests [of sc p base ts s] by simp
  then show ?thesis by (auto simp: swept_def sweep_request_def split: sum.splits)
qed

context device_store
begin

text \<open>A reload through the interface: all devices of the files are written, or none is.\<close>

lemma reload:
  assumes "ap_Metadata a = M" "inv s" "ReloadInventory load a s = (r, s')"
    and "reload_sources load (iv_Sources (ac_Inventory (ap_Config a))) [] None = (all, err)"
  shows "inv s' \<and> devices s' \<in> {devices s, upsert_map all (devices s)}
    \<and> (r = None \<longrightarrow> devices s' = upsert_map all (devices s) \<and> err = None)"
proof (cases "all = []")
  case True
  with assms show ?thesis by (simp add: ReloadInventory_def upsert_map_def)
next
  case False
  obtain x s1 where u: "md_UpsertDevices M all s = (x, s1)" by fastforce
  have "s' = s1" "r = (case x of Some e \<Rightarrow> Some e | None \<Rightarrow> err)"
    using assms(1,3,4) False u by (auto simp: ReloadInventory_def split: option.splits)
  with upserted_cases [OF assms(2) u] show ?thesis by (auto split: option.splits)
qed

text \<open>What a sweep queues are enabled devices of the store, as the store holds them.\<close>

lemma sweep_known:
  assumes "ap_Metadata a = M" "inv s" "enqueueSweep a p base s = (rs, s')" "r \<in> set rs"
  shows "devices s (t_ID (rq_Target r)) = Some (rq_Target r) \<and> t_Enabled (rq_Target r)"
proof -
  obtain x s1 where l: "md_ListDevices M s = (x, s1)" by fastforce
  with assms obtain ts where ts: "x = Inr ts" "sweep_devices (ap_Scheduler a) p base ts s1 = (rs, s')"
    by (cases x) (auto simp: enqueueSweep_def)
  from sweep_devices_targets [OF ts(2) assms(4)] listed_found [OF assms(2) l [unfolded ts(1)]]
  show ?thesis by blast
qed

end

lemma upsert_map_other: "i \<notin> t_ID ` set ds \<Longrightarrow> upsert_map ds m i = m i"
  unfolding upsert_map_def by (induction ds arbitrary: m) auto

text \<open>
  C22: what a reload of the inventory does to the data base. The devices of all CSV sources,
  in order, are the ones written, and every one has its required fields, a valid port and no
  surrounding blanks, whatever the files contain. The device table becomes the table
  overridden by them or stays as it was; no device that the files do not name changes, in
  particular none is removed. An answer without error means that every source was a CSV
  source read without a validation error and that all was written.
\<close>

theorem reload_stores_inventory:
  assumes "ap_Metadata a = pg_MetadataStore E" "devices_keyed (pg_tables s)"
    and "ReloadInventory (\<lambda>path. Load_inventory ctx (read path)) a s = (r, s')"
    and "srcs = iv_Sources (ac_Inventory (ap_Config a))"
    and "all = concat (map (\<lambda>src. fst (Load_inventory ctx (read (is_Path src)))) (filter (\<lambda>src. is_Type src = ''csv'') srcs))"
  shows "list_all valid_target all \<and> list_all trimmed all \<and> devices_keyed (pg_tables s')
    \<and> device_map (pg_tables s') \<in> {device_map (pg_tables s), upsert_map all (device_map (pg_tables s))}
    \<and> (\<forall>i. i \<notin> t_ID ` set all \<longrightarrow> device_map (pg_tables s') i = device_map (pg_tables s) i)
    \<and> (r = None \<longrightarrow> device_map (pg_tables s') = upsert_map all (device_map (pg_tables s))
         \<and> (\<forall>src\<in>set srcs. is_Type src = ''csv'' \<and> snd (Load_inventory ctx (read (is_Path src))) = None))"
proof -
  let ?load = "\<lambda>path. Load_inventory ctx (read path)"
  have valid: "list_all valid_target all \<and> list_all trimmed all"
    using Load_inventory_valid [of ctx] unfolding assms(5) by (fastforce simp: list_all_iff)
  obtain all' err where l: "reload_sources ?load srcs [] None = (all', err)" by fastforce
  from reload_sources_result [OF l] have all': "all' = all" and ok: "err = None \<longrightarrow>
      (\<forall>src\<in>set srcs. is_Type src = ''csv'' \<and> snd (?load (is_Path src)) = None)"
    by (auto simp: assms(5) comp_def)
  have st: "devices_keyed (pg_tables s')
    \<and> device_map (pg_tables s') \<in> {device_map (pg_tables s), upsert_map all (device_map (pg_tables s))}
    \<and> (r = None \<longrightarrow> device_map (pg_tables s') = upsert_map all (device_map (pg_tables s)) \<and> err = None)"
    using pg_devices.reload [OF assms(1,2,3) l [unfolded assms(4)]] unfolding all' .
  moreover have "device_map (pg_tables s') i = device_map (pg_tables s) i" if "i \<notin> t_ID ` set all" for i
    using st upsert_map_other [OF that, of "device_map (pg_tables s)"] by auto
  ultimately show ?thesis using valid ok by blast
qed

section \<open>A built application\<close>

text \<open>
  C24: what \<open>New\<close> builds is well formed. A failed construction leaves no open connection pool.
  A successful one has a job manager all of whose normalised limits, delays and periods are
  positive; its API requires authentication unless both kinds of it are switched off; OIDC
  is on only with a client secret. For a validated configuration there is a planner, and the
  global limit and the connection rate are the configured ones.
\<close>

theorem New_well_formed:
  assumes "New env meta cfg = (res, calls)"
  shows "case res of
      Inl e \<Rightarrow> count_list calls MOpen = count_list calls MClose
    | Inr b \<Rightarrow> calls = [MOpen, MMigrate] \<and> config_ok (normalize h pid (bt_manager b))
        \<and> (ss_AuthRequired (bt_server b) \<longleftrightarrow> au_APITokensEnabled (sv_Auth (ac_Server cfg)) \<or> ss_OIDCEnabled (bt_server b))
        \<and> (ss_OIDCEnabled (bt_server b) \<longrightarrow> ne_Getenv env (oi_ClientSecretEnv (au_OIDC (sv_Auth (ac_Server cfg)))) \<noteq> [])
        \<and> (Validate cfg = None \<longrightarrow> bt_schedule b \<noteq> None
             \<and> cfg_MaxGlobalConcurrency (normalize h pid (bt_manager b)) = sc_MaxGlobalConcurrency (ac_Scheduler cfg)
             \<and> cfg_MaxNewConnectionsPerSecond (normalize h pid (bt_manager b)) = sc_MaxNewConnectionsPerSecond (ac_Scheduler cfg))"
proof (cases res)
  case (Inl e)
  with assms show ?thesis by (auto simp: New_def Let_def split: if_splits option.splits sum.splits)
next
  case (Inr b)
  with assms have c: "calls = [MOpen, MMigrate]" and parts: "new_parts env meta cfg = Inr b"
    by (auto simp: New_def Let_def split: if_splits option.splits sum.splits)
  let ?au = "sv_Auth (ac_Server cfg)"
  from parts obtain sch where sch: "buildSchedulePlanner (ne_LoadLocation env) (ac_Scheduler cfg) = Inr sch"
    "bt_schedule b = sch" and oidc: "new_oidc env ?au = None"
    and sm: "bt_server b = server_of env ?au" "bt_manager b = manager_config meta (ac_Scheduler cfg)"
    by (auto simp: new_parts_def Let_def split: option.splits sum.splits)
  have "bt_schedule b \<noteq> None" if "Validate cfg = None"
    using planner_of_valid [OF that sch(1)] sch(2) by auto
  moreover have "cfg_MaxGlobalConcurrency (normalize h pid (bt_manager b)) = sc_MaxGlobalConcurrency (ac_Scheduler cfg)
      \<and> cfg_MaxNewConnectionsPerSecond (normalize h pid (bt_manager b)) = sc_MaxNewConnectionsPerSecond (ac_Scheduler cfg)"
    if "Validate cfg = None"
    using Validate_scheduler_usable(1,2) [OF that] sm by (simp add: normalize_def manager_config_def Let_def or_default_def)
  moreover have "ne_Getenv env (oi_ClientSecretEnv (au_OIDC ?au)) \<noteq> []" if "OIDCActive ?au"
    using oidc that by (auto simp: new_oidc_def Let_def)
  moreover have "config_ok (normalize h pid (bt_manager b))" by (rule normalize_ok)
  ultimately show ?thesis using Inr c sm by (simp add: server_of_def)
qed

text \<open>The validation accepts a renewal period above the lease's time to live.\<close>

lemma renew_above_ttl_accepted:
  "Validate (Default\<lparr>ac_Scheduler := default_scheduler\<lparr>sc_Lease :=
     \<lparr>le_Enabled = True, le_WorkerID = [], le_TTL = 15 * Minute, le_RenewInterval = 20 * Minute\<rparr>\<rparr>\<rparr>) = None"
  by (simp add: Validate_def Default_def default_server_def default_scheduler_def OIDCActive_def
      validate_scheduler_def Let_def)

section \<open>Witnesses\<close>

definition hourly_planner :: Planner where
  "hourly_planner = \<lparr>p_policy = \<lparr>sp_Interval = Hour, sp_Cron = [], sp_Location = Some UTC, sp_JitterPercent = 0, sp_JitterMax = 0,
     sp_Jitter = None, sp_Windows = [], sp_Blackouts = []\<rparr>, p_cron = None, p_loc = UTC, p_jitter = DeterministicJitter\<rparr>"

definition demo_app :: "pg App" where
  "demo_app = \<lparr>ap_Config = Default, ap_Metadata = pg_MetadataStore demo_env,
     ap_Scheduler = \<lparr>sc_Enqueue = (\<lambda>r s. (None, s)), sc_QueueDepth = (\<lambda>s. (0, s))\<rparr>, ap_schedule = Some hourly_planner\<rparr>"

definition demo_fleet :: pg where
  "demo_fleet = \<lparr>pg_tables = empty_tables\<lparr>tb_devices :=
     [(demo_device ''b'' ''on'')\<lparr>t_Enabled := True\<rparr>, demo_device ''c'' ''off'', (demo_device ''a'' ''on'')\<lparr>t_Enabled := True\<rparr>]\<rparr>,
     pg_sent = 0\<rparr>"




definition demo_new_env :: new_env where
  "demo_new_env = \<lparr>ne_Getenv = (\<lambda>_. ''x''), ne_Open = (\<lambda>_. None), ne_Migrate = None, ne_LoadLocation = (\<lambda>_. Inr UTC),
     ne_NewOIDC = (\<lambda>_. None), ne_Now = 1, ne_Cwd = ''/''\<rparr>"

definition demo_new :: "(go_error + lease_table built) \<times> metadata_call list" where
  "demo_new = New demo_new_env (pg_LeaseStore pg_micro) Default"

theorem New_well_formed_witness:
  "\<exists>b. demo_new = (Inr b, [MOpen, MMigrate]) \<and> ss_AuthRequired (bt_server b) \<and> bt_schedule b \<noteq> None
     \<and> cfg_MaxGlobalConcurrency (normalize None 7 (bt_manager b)) = 250"
proof -
  have "\<not> isl (fst demo_new)" by code_simp
  then obtain b where b: "fst demo_new = Inr b" by (cases "fst demo_new") auto
  have e: "New demo_new_env (pg_LeaseStore pg_micro) Default = (Inr b, snd demo_new)"
    using b by (cases demo_new) (simp add: demo_new_def)
  have sel: "au_APITokensEnabled (sv_Auth (ac_Server Default))" "sc_MaxGlobalConcurrency (ac_Scheduler Default) = 250"
    by (simp_all add: Default_def default_server_def default_scheduler_def)
  have "demo_new = (Inr b, snd demo_new)" using b by (metis prod.collapse)
  moreover from New_well_formed [OF e, of None 7] Default_valid sel
  have "snd demo_new = [MOpen, MMigrate]" "ss_AuthRequired (bt_server b)" "bt_schedule b \<noteq> None"
    "cfg_MaxGlobalConcurrency (normalize None 7 (bt_manager b)) = 250" by simp_all
  ultimately show ?thesis by metis
qed

definition demo_source_read :: "string \<Rightarrow> go_error + string" where
  "demo_source_read path = Inr demo_inventory"

definition demo_reload :: "go_error option \<times> pg" where
  "demo_reload = ReloadInventory (\<lambda>path. Load_inventory (\<lambda>_. None) (demo_source_read path)) demo_app demo_fleet"

lemma demo_inventory_ids:
  "(case Parse (\<lambda>_. None) demo_inventory of Inl _ \<Rightarrow> False
    | Inr (ts, errs) \<Rightarrow> map t_ID ts = [''r1''] \<and> length errs = 1)"
  by code_simp

theorem reload_stores_inventory_witness:
  "device_map (pg_tables (snd demo_reload)) ''b'' = device_map (pg_tables demo_fleet) ''b''
   \<and> devices_keyed (pg_tables (snd demo_reload)) \<and> fst demo_reload \<noteq> None"
proof -
  have k: "devices_keyed (pg_tables demo_fleet)" by code_simp
  have m: "ap_Metadata demo_app = pg_MetadataStore demo_env" by (simp add: demo_app_def)
  have src: "iv_Sources (ac_Inventory (ap_Config demo_app)) = [\<lparr>is_Name = ''primary-csv'', is_Type = ''csv'', is_Path = ''devices.csv''\<rparr>]"
    by (simp add: demo_app_def Default_def)
  obtain ts errs where p: "Parse (\<lambda>_. None) demo_inventory = Inr (ts, errs)" "map t_ID ts = [''r1'']" "length errs = 1"
    using demo_inventory_ids by (auto split: sum.splits)
  have l: "Load_inventory (\<lambda>_. None) (demo_source_read path) = (ts, Some (Joined errs))" for path
    using p by (auto simp: Load_inventory_def demo_source_read_def)
  have "t_ID ` set ts = {''r1''}" using p(2) by (metis list.set(1,2) set_map)
  then have ids: "''b'' \<notin> t_ID ` set ts" by simp
  have r: "ReloadInventory (\<lambda>path. Load_inventory (\<lambda>_. None) (demo_source_read path)) demo_app demo_fleet
      = (fst demo_reload, snd demo_reload)" by (simp add: demo_reload_def)
  note thm' = reload_stores_inventory [OF m k r refl refl]
  from thm' ids l src show ?thesis by auto
qed

end
