(* ===== verification/Transport.thy ===== *)
theory Transport
  imports Core_Types Go_Time Go_Net
begin

text \<open>
  What the two transports share: contexts with deadlines, reading from a device until its
  prompt, and cleaning the transcript. internal/transport/sshtransport/ssh.go and
  telnettransport/telnet.go have these functions twice, with the same text except that the
  SSH one strips terminal escapes: \<open>rd_clean\<close> of the reader cleans what was read for a command. The prompt is a configured
  regular expression: a compiled pattern is the predicate of the texts it matches.
\<close>

section \<open>Reading\<close>

type_synonym ('a, 's) io = "'s \<Rightarrow> 'a \<times> 's"

text \<open>
  An error of \<open>Read\<close>: a time-out (a \<open>net.Error\<close> that says so, or \<open>os.ErrDeadlineExceeded\<close>,
  which the code treats alike), or any other.
\<close>

datatype read_error = ReadTimeout | ReadFailed go_error

text \<open>
  \<open>rd_Read\<close> gets the deadline that was set before; \<open>None\<close> is a call that never returns.
  \<open>rd_CtxErr\<close> is the error of the context with the given deadline.
\<close>

record 's reader =
  rd_Read :: "instant \<Rightarrow> ((string \<times> read_error option) option, 's) io"
  rd_CtxErr :: "instant option \<Rightarrow> (go_error option, 's) io"
  rd_Now :: "(instant, 's) io"
  rd_clean :: "string \<Rightarrow> string \<Rightarrow> string"
  rd_prompt :: "(string \<Rightarrow> bool) option"
  rd_idle :: duration
  rd_max :: int

text \<open>\<open>context.WithTimeout\<close>: the earlier of the parent's deadline and the new one.\<close>

definition with_timeout :: "instant option \<Rightarrow> instant \<Rightarrow> duration \<Rightarrow> instant option" where
  "with_timeout parent now d = Some (case parent of None \<Rightarrow> now + d | Some p \<Rightarrow> min p (now + d))"

definition readIdle :: "duration \<Rightarrow> duration" where
  "readIdle idle =
     (if idle \<le> 0 then 500 * Millisecond else if idle > 2 * Second then 2 * Second else idle)"

definition read_deadline :: "instant option \<Rightarrow> instant \<Rightarrow> duration \<Rightarrow> instant" where
  "read_deadline ctx now idle =
     (let deadline = now + readIdle idle
      in case ctx of None \<Rightarrow> deadline | Some dl \<Rightarrow> if dl < deadline then dl else deadline)"

definition prompt_matches :: "(string \<Rightarrow> bool) option \<Rightarrow> string \<Rightarrow> bool" where
  "prompt_matches prompt s = (case prompt of None \<Rightarrow> False | Some p \<Rightarrow> p s)"

section \<open>Cleaning a transcript\<close>

fun clean_lines :: "(string \<Rightarrow> string) \<Rightarrow> (string \<Rightarrow> bool) option \<Rightarrow> string \<Rightarrow> string list \<Rightarrow> string list" where
  "clean_lines strip prompt command [] = []"
| "clean_lines strip prompt command (line # lines) =
     (let trimmed = TrimSpace (strip line) in
      if trimmed = [] then clean_lines strip prompt command lines
      else if command \<noteq> [] \<and> trimmed = command then clean_lines strip prompt command lines
      else if prompt_matches prompt (CHR 0x0A # trimmed) then clean_lines strip prompt command lines
      else TrimRight (strip line) [CHR '' '', CHR 0x09] # clean_lines strip prompt command lines)"

definition clean_output :: "(string \<Rightarrow> string) \<Rightarrow> string \<Rightarrow> string \<Rightarrow> (string \<Rightarrow> bool) option \<Rightarrow> string" where
  "clean_output strip raw command prompt =
     (let text1 = ReplaceAll raw [CHR 0x0D, CHR 0x0A] [CHR 0x0A];
          text2 = ReplaceAll text1 [CHR 0x0D] [CHR 0x0A];
          text3 = ReplaceAll text2 ''--More--'' [];
          clean = clean_lines strip prompt (TrimSpace command) (Split text3 (CHR 0x0A))
      in TrimSpace (Join clean [CHR 0x0A]) @ [CHR 0x0A])"

section \<open>Reading until the prompt\<close>

text \<open>
  The loop of \<open>readUntilPrompt\<close> on what was read so far; \<open>None\<close> when it never returns. An
  error that comes with data is dropped.
\<close>

partial_function (option) read_loop ::
    "'s reader \<Rightarrow> instant option \<Rightarrow> string \<Rightarrow> string \<Rightarrow> 's \<Rightarrow> ((string \<times> go_error option) \<times> 's) option" where
  "read_loop R ctx command out s =
     (if rd_max R > 0 \<and> int (length out) > rd_max R
      then Some ((take (nat (rd_max R)) out,
             Some (BackupError FailureCommand command (Errorf ''output exceeded %d bytes'' [Itoa (rd_max R)]))), s)
      else if out \<noteq> [] \<and> prompt_matches (rd_prompt R) out
      then Some ((rd_clean R out command, None), s)
      else (case rd_CtxErr R ctx s of
              (Some e, s1) \<Rightarrow> Some ((rd_clean R out command,
                                  Some (BackupError FailureTimeout command e)), s1)
            | (None, s1) \<Rightarrow>
                (case rd_Now R s1 of (now, s2) \<Rightarrow>
                (case rd_Read R (read_deadline ctx now (rd_idle R)) s2 of
                   (None, s3) \<Rightarrow> None
                 | (Some (data, err), s3) \<Rightarrow>
                     if data \<noteq> [] then read_loop R ctx command (out @ data) s3
                     else (case err of
                             None \<Rightarrow> read_loop R ctx command out s3
                           | Some ReadTimeout \<Rightarrow>
                               if out \<noteq> [] then Some ((rd_clean R out command, None), s3)
                               else read_loop R ctx command out s3
                           | Some (ReadFailed e) \<Rightarrow>
                               if out \<noteq> [] then Some ((rd_clean R out command, None), s3)
                               else Some (([], Some e), s3))))))"

definition readUntilPrompt :: "'s reader \<Rightarrow> instant option \<Rightarrow> string \<Rightarrow> 's \<Rightarrow> ((string \<times> go_error option) \<times> 's) option" where
  "readUntilPrompt R ctx command = read_loop R ctx command []"

declare read_loop.simps [code]

section \<open>What is read\<close>

text \<open>The texts read in a row while the context is not done.\<close>

inductive received :: "'s reader \<Rightarrow> instant option \<Rightarrow> 's \<Rightarrow> string \<Rightarrow> 's \<Rightarrow> bool" for R ctx where
  received_nothing: "received R ctx s [] s"
| received_more: "\<lbrakk>rd_CtxErr R ctx s = (None, s1); rd_Now R s1 = (now, s2);
     rd_Read R (read_deadline ctx now (rd_idle R)) s2 = (Some (data, err), s3); received R ctx s3 raw s'\<rbrakk>
   \<Longrightarrow> received R ctx s (data @ raw) s'"

text \<open>How a loop ends: by too much output, at a prompt, with the context, or after a fruitless read.\<close>

definition read_end :: "'s reader \<Rightarrow> string \<Rightarrow> string \<Rightarrow> string \<Rightarrow> go_error option \<Rightarrow> bool" where
  "read_end R command raw r e \<longleftrightarrow>
     (case e of
        None \<Rightarrow> raw \<noteq> [] \<and> r = rd_clean R raw command
      | Some e \<Rightarrow>
          (\<exists>c. e = BackupError FailureTimeout command c) \<and> r = rd_clean R raw command
          \<or> e = BackupError FailureCommand command (Errorf ''output exceeded %d bytes'' [Itoa (rd_max R)])
             \<and> int (length raw) > rd_max R \<and> rd_max R > 0 \<and> r = take (nat (rd_max R)) raw
          \<or> raw = [] \<and> r = [])"

text \<open>One round of the loop, and what it leaves to the next.\<close>

lemma read_round:
  assumes "rd_CtxErr R ctx s = (None, s1)" "rd_Now R s1 = (now, s2)"
    "rd_Read R (read_deadline ctx now (rd_idle R)) s2 = (Some (data, err), s3)"
    and "\<exists>raw s'. received R ctx s3 raw s' \<and> read_end R command ((out @ data) @ raw) r e"
  shows "\<exists>raw s'. received R ctx s raw s' \<and> read_end R command (out @ raw) r e"
proof -
  from assms(4) obtain raw s' where "received R ctx s3 raw s'" "read_end R command ((out @ data) @ raw) r e" by blast
  with received_more [OF assms(1-3)] show ?thesis by fastforce
qed

lemma read_stop: "read_end R command out r e \<Longrightarrow> \<exists>raw s'. received R ctx s raw s' \<and> read_end R command (out @ raw) r e"
  using received_nothing [of R ctx s] by fastforce

lemma read_loop_result:
  assumes "read_loop R ctx command out s = Some y"
  shows "\<exists>raw s'. received R ctx s raw s' \<and> read_end R command (out @ raw) (fst (fst y)) (snd (fst y))"
proof (rule read_loop.raw_induct [where P = "\<lambda>R ctx command out s y.
    \<exists>raw s'. received R ctx s raw s' \<and> read_end R command (out @ raw) (fst (fst y)) (snd (fst y))", OF _ assms], goal_cases)
  case (1 f R ctx command out s y)
  show ?case
  proof (cases "(rd_max R > 0 \<and> int (length out) > rd_max R) \<or> (out \<noteq> [] \<and> prompt_matches (rd_prompt R) out)")
    case False
    then have more: "\<not> (rd_max R > 0 \<and> int (length out) > rd_max R)"
      "\<not> (out \<noteq> [] \<and> prompt_matches (rd_prompt R) out)" by blast+
    obtain ce s1 now s2 res s3 where c: "rd_CtxErr R ctx s = (ce, s1)" and n: "rd_Now R s1 = (now, s2)"
      and r: "rd_Read R (read_deadline ctx now (rd_idle R)) s2 = (res, s3)" by (meson surj_pair)
    show ?thesis
    proof (cases ce)
      case (Some e)
      with 1(2) more c show ?thesis by (intro read_stop) (auto simp: read_end_def)
    next
      case None
      note c = c [unfolded None]
      from 1(2) more c n r have "res \<noteq> None" by (cases res) auto
      then obtain data err where res: "res = Some (data, err)" by auto
      note round = read_round [OF c n r [unfolded res]]
      have body: "(if data \<noteq> [] then f R ctx command (out @ data) s3
         else case err of None \<Rightarrow> f R ctx command out s3
           | Some ReadTimeout \<Rightarrow>
               if out \<noteq> [] then Some ((rd_clean R out command, None), s3)
               else f R ctx command out s3
           | Some (ReadFailed e) \<Rightarrow>
               if out \<noteq> [] then Some ((rd_clean R out command, None), s3)
               else Some (([], Some e), s3)) = Some y"
        using 1(2) more c n r unfolding res by (auto split: if_splits)
      show ?thesis
      proof (cases "f R ctx command (out @ data) s3 = Some y")
        case True
        from round [OF 1(1) [OF True]] show ?thesis .
      next
        case False
        then have "data = []" using body by (auto split: if_splits)
        with body False show ?thesis
          by (intro read_stop) (auto split: option.splits read_error.splits if_splits simp: read_end_def)
      qed
    qed
  qed (rule read_stop, use 1(2) in \<open>auto simp: read_end_def split: if_splits\<close>)
qed

lemma readUntilPrompt_result:
  assumes "readUntilPrompt R ctx command s = Some ((r, e), s')"
  shows "\<exists>raw s1. received R ctx s raw s1 \<and> read_end R command raw r e"
  using read_loop_result [OF assms [unfolded readUntilPrompt_def]] by simp

text \<open>What the steps of the loop keep of the state, the loop keeps.\<close>

lemma read_loop_state:
  assumes "read_loop R ctx command out s = Some (r, s')"
    and refl: "\<And>s. Q s s" and trans: "\<And>a b c. Q a b \<Longrightarrow> Q b c \<Longrightarrow> Q a c"
    and ctx_err: "\<And>s x s'. rd_CtxErr R ctx s = (x, s') \<Longrightarrow> Q s s'"
    and now: "\<And>s x s'. rd_Now R s = (x, s') \<Longrightarrow> Q s s'"
    and read: "\<And>s dl x s'. rd_Read R dl s = (x, s') \<Longrightarrow> Q s s'"
  shows "Q s s'"
proof -
  define steps where "steps = (\<lambda>(R :: 'a reader) ctx. (\<forall>s x s'. rd_CtxErr R ctx s = (x, s') \<longrightarrow> Q s s')
    \<and> (\<forall>s x s'. rd_Now R s = (x, s') \<longrightarrow> Q s s') \<and> (\<forall>dl s x s'. rd_Read R dl s = (x, s') \<longrightarrow> Q s s'))"
  have "steps R ctx \<longrightarrow> Q s (snd (r, s'))"
  proof (rule read_loop.raw_induct [where P = "\<lambda>R ctx command out s y. steps R ctx \<longrightarrow> Q s (snd y)", OF _ assms(1)],
      goal_cases)
    case (1 f R ctx command out s y)
    show ?case
    proof
      assume st: "steps R ctx"
      obtain ce s1 now s2 res s3 where c: "rd_CtxErr R ctx s = (ce, s1)" and n: "rd_Now R s1 = (now, s2)"
        and r: "rd_Read R (read_deadline ctx now (rd_idle R)) s2 = (res, s3)" by (meson surj_pair)
      have q1: "Q s s1" using st c unfolding steps_def by blast
      have "Q s1 s2" "Q s2 s3" using st n r unfolding steps_def by blast+
      then have q3: "Q s s3" using trans q1 by blast
      have ih: "Q s (snd y)" if "f R ctx command o' s3 = Some y" for o'
        using 1(1) [OF that] st trans [OF q3] by blast
      show "Q s (snd y)"
        using 1(2) c n r q1 q3 ih refl [of s]
        by (auto split: if_splits option.splits read_error.splits)
    qed
  qed
  then show ?thesis using ctx_err now read unfolding steps_def by auto
qed

text \<open>
  The loop returns when its rounds use something up: a natural number of the state, such as
  the time left to the deadline, that each round with a context that is not done decreases.
\<close>

definition rounds_bounded :: "'s reader \<Rightarrow> instant option \<Rightarrow> ('s \<Rightarrow> nat) \<Rightarrow> bool" where
  "rounds_bounded R ctx left \<longleftrightarrow>
     (\<forall>s s1 now s2 dl res s3. rd_CtxErr R ctx s = (None, s1) \<and> rd_Now R s1 = (now, s2) \<and> rd_Read R dl s2 = (res, s3)
        \<longrightarrow> res \<noteq> None \<and> left s3 < left s)"

lemma read_loop_returns:
  assumes "rounds_bounded R ctx left"
  shows "\<exists>y. read_loop R ctx command out s = Some y"
proof (induction "left s" arbitrary: out s rule: less_induct)
  case less
  obtain ce s1 now s2 res s3 where c: "rd_CtxErr R ctx s = (ce, s1)" and n: "rd_Now R s1 = (now, s2)"
    and r: "rd_Read R (read_deadline ctx now (rd_idle R)) s2 = (res, s3)" by (meson surj_pair)
  show ?case
  proof (cases ce)
    case None
    have res: "res \<noteq> None" and dec: "left s3 < left s"
      using assms c n r unfolding None rounds_bounded_def by blast+
    from res obtain data err where "res = Some (data, err)" by auto
    with c n r None less.hyps [OF dec] show ?thesis
      by (subst read_loop.simps) (simp split: option.split read_error.split)
  qed (subst read_loop.simps, simp add: c)
qed

end
