(* ===== verification/Telnet.thy ===== *)
theory Telnet
  imports Transport
begin

text \<open>
  The Telnet transport, telnettransport/telnet.go: option negotiation, reading until the
  prompt, the login dialogue, dialing and running commands. The connection and the clock
  are functions on a state \<open>'s\<close>; what the transport does on the wire is recorded in order.
\<close>

section \<open>Configuration\<close>

record telnet_Config =
  tc_Enabled :: bool
  tc_ConnectTimeout :: duration
  tc_LoginTimeout :: duration
  tc_CommandTimeout :: duration
  tc_IdleTimeout :: duration
  tc_PromptPattern :: string
  tc_MaxOutputBytes :: int

definition defaultPromptPattern :: string where
  "defaultPromptPattern = map (\<lambda>c. if c = CHR 0x60 then CHR 0x5C else c) ''(?m)(^|`n)[^`n]{1,96}[>#]`s*$''"

definition defaultMaxOutput :: int where
  "defaultMaxOutput = 16 * 2 ^ 20"

definition telnet_NewConfig :: "telnet_Config \<Rightarrow> telnet_Config" where
  "telnet_NewConfig c = c\<lparr>
     tc_ConnectTimeout := (if tc_ConnectTimeout c \<le> 0 then 20 * Second else tc_ConnectTimeout c),
     tc_LoginTimeout := (if tc_LoginTimeout c \<le> 0 then 20 * Second else tc_LoginTimeout c),
     tc_CommandTimeout := (if tc_CommandTimeout c \<le> 0 then 60 * Second else tc_CommandTimeout c),
     tc_IdleTimeout := (if tc_IdleTimeout c \<le> 0 then 30 * Second else tc_IdleTimeout c),
     tc_PromptPattern := (if tc_PromptPattern c = [] then defaultPromptPattern else tc_PromptPattern c),
     tc_MaxOutputBytes := (if tc_MaxOutputBytes c \<le> 0 then defaultMaxOutput else tc_MaxOutputBytes c)\<rparr>"

definition telnet_New :: "bool \<Rightarrow> telnet_Config" where
  "telnet_New enabled = telnet_NewConfig \<lparr>tc_Enabled = enabled, tc_ConnectTimeout = 0, tc_LoginTimeout = 0,
     tc_CommandTimeout = 0, tc_IdleTimeout = 0, tc_PromptPattern = [], tc_MaxOutputBytes = 0\<rparr>"

definition portString :: "int \<Rightarrow> int \<Rightarrow> string" where
  "portString port fallback = Itoa (if port = 0 then fallback else port)"

section \<open>The wire\<close>

text \<open>
  The connection, the caller's context with an optional deadline, and the regular
  expression compiler. \<open>tn_Read\<close> reads at most 4096 bytes before the deadline.
\<close>

record 's telnet_net =
  tn_Dial :: "string \<Rightarrow> duration \<Rightarrow> (go_error option, 's) io"
  tn_Read :: "instant \<Rightarrow> (string \<times> read_error option, 's) io"
  tn_Write :: "string \<Rightarrow> (go_error option, 's) io"
  tn_Close :: "(go_error option, 's) io"
  tn_CtxErr :: "instant option \<Rightarrow> (go_error option, 's) io"
  tn_Now :: "(instant, 's) io"
  tn_Compile :: "string \<Rightarrow> go_error + (string \<Rightarrow> bool)"

text \<open>\<open>Asked\<close> is a text the login dialogue acts on, \<open>Sent\<close> a line, \<open>Negotiated\<close> an option reply.\<close>

datatype wire_event = Dialed string | Asked string | Sent string | Negotiated string | Closed

record 's wire =
  wi_state :: 's
  wi_log :: "wire_event list"

definition on_wire :: "('a, 's) io \<Rightarrow> ('a, 's wire) io" where
  "on_wire f w = (let (x, s) = f (wi_state w) in (x, w\<lparr>wi_state := s\<rparr>))"

definition on_wire_log :: "wire_event \<Rightarrow> ('a, 's) io \<Rightarrow> ('a, 's wire) io" where
  "on_wire_log ev f w = (let (x, w1) = on_wire f w in (x, w1\<lparr>wi_log := wi_log w1 @ [ev]\<rparr>))"

section \<open>Negotiation\<close>

abbreviation (input) IAC :: char where "IAC \<equiv> CHR 0xFF"
abbreviation (input) DONT :: char where "DONT \<equiv> CHR 0xFE"
abbreviation (input) DO :: char where "DO \<equiv> CHR 0xFD"
abbreviation (input) WONT :: char where "WONT \<equiv> CHR 0xFC"
abbreviation (input) WILL :: char where "WILL \<equiv> CHR 0xFB"

definition negotiate :: "char \<Rightarrow> char \<Rightarrow> string list" where
  "negotiate cmd opt =
     (if cmd = DO \<or> cmd = DONT then [[IAC, WONT, opt]]
      else if cmd = WILL \<or> cmd = WONT then [[IAC, DONT, opt]] else [])"

text \<open>
  The loop of \<open>read\<close> over the bytes of one read: the data, and the replies in order. A
  command byte without two more bytes behind it is dropped alone.
\<close>

fun strip_iac :: "string \<Rightarrow> string \<times> string list" where
  "strip_iac [] = ([], [])"
| "strip_iac (b # s) =
     (if b \<noteq> IAC then (let (out, replies) = strip_iac s in (b # out, replies))
      else (case s of
              cmd # opt # s' \<Rightarrow> (let (out, replies) = strip_iac s' in (out, negotiate cmd opt @ replies))
            | _ \<Rightarrow> strip_iac s))"

fun send_replies :: "'s telnet_net \<Rightarrow> string list \<Rightarrow> 's wire \<Rightarrow> 's wire" where
  "send_replies N [] w = w"
| "send_replies N (r # rs) w = send_replies N rs (snd (on_wire_log (Negotiated r) (tn_Write N r) w))"

definition telnet_read :: "'s telnet_net \<Rightarrow> instant \<Rightarrow> (string \<times> read_error option, 's wire) io" where
  "telnet_read N dl w =
     (let ((data, err), w1) = on_wire (tn_Read N dl) w; (out, replies) = strip_iac data
      in ((out, err), send_replies N replies w1))"

section \<open>Sessions\<close>

record telnet_Session =
  ts_commandTimeout :: duration
  ts_idleTimeout :: duration
  ts_prompt :: "string \<Rightarrow> bool"
  ts_maxOutputBytes :: int

definition cleanOutput :: "string \<Rightarrow> string \<Rightarrow> (string \<Rightarrow> bool) option \<Rightarrow> string" where
  "cleanOutput = clean_output id"

definition telnet_reader :: "'s telnet_net \<Rightarrow> telnet_Session \<Rightarrow> 's wire reader" where
  "telnet_reader N S =
     \<lparr>rd_Read = (\<lambda>dl w. case telnet_read N dl w of (r, w1) \<Rightarrow> (Some r, w1)),
      rd_CtxErr = (\<lambda>ctx. on_wire (tn_CtxErr N ctx)), rd_Now = on_wire (tn_Now N), rd_clean = (\<lambda>raw command. cleanOutput raw command (Some (ts_prompt S))),
      rd_prompt = Some (ts_prompt S), rd_idle = ts_idleTimeout S, rd_max = ts_maxOutputBytes S\<rparr>"

definition telnet_readUntilPrompt :: "'s telnet_net \<Rightarrow> telnet_Session \<Rightarrow> instant option \<Rightarrow> string
    \<Rightarrow> 's wire \<Rightarrow> ((string \<times> go_error option) \<times> 's wire) option" where
  "telnet_readUntilPrompt N S = readUntilPrompt (telnet_reader N S)"

definition CRLF :: string where
  "CRLF = [CHR 0x0D, CHR 0x0A]"

definition send_line :: "'s telnet_net \<Rightarrow> string \<Rightarrow> (go_error option, 's wire) io" where
  "send_line N line = on_wire_log (Sent line) (tn_Write N (line @ CRLF))"

definition telnet_Run :: "'s telnet_net \<Rightarrow> telnet_Session \<Rightarrow> instant option \<Rightarrow> string \<Rightarrow> 's wire
    \<Rightarrow> ((string \<times> go_error option) \<times> 's wire) option" where
  "telnet_Run N S ctx command w =
     (let (ctx1, w1) = (if ts_commandTimeout S > 0
                        then (let (now, w1) = on_wire (tn_Now N) w in (with_timeout ctx now (ts_commandTimeout S), w1))
                        else (ctx, w));
          (err, w2) = send_line N command w1
      in case err of
           Some e \<Rightarrow> Some (([], Some e), w2)
         | None \<Rightarrow> telnet_readUntilPrompt N S ctx1 command w2)"

definition telnet_Close :: "'s telnet_net \<Rightarrow> (go_error option, 's wire) io" where
  "telnet_Close N = on_wire_log Closed (tn_Close N)"

section \<open>The login dialogue\<close>

text \<open>What the login does about a text: give up, answer, be done, or look at the error of the read.\<close>

datatype login_step = LDeny go_error | LSend string | LDone | LDefault

definition login_step :: "Credentials \<Rightarrow> (string \<Rightarrow> bool) \<Rightarrow> string \<Rightarrow> login_step" where
  "login_step creds prompt out =
     (let text = ToLower out in
      if Contains text ''username'' \<or> Contains text ''login'' then
        (if c_Username creds = [] then LDeny (BackupError FailureAuth ''telnet username'' (errors_New ''username is required''))
         else LSend (c_Username creds))
      else if Contains text ''password'' then
        (if SecretString_IsZero (c_Password creds)
         then LDeny (BackupError FailureAuth ''telnet password'' (errors_New ''password is required''))
         else LSend (SecretString_Reveal (c_Password creds)))
      else if prompt out then LDone
      else LDefault)"

partial_function (option) telnet_login ::
    "'s telnet_net \<Rightarrow> telnet_Session \<Rightarrow> instant option \<Rightarrow> Credentials \<Rightarrow> 's wire \<Rightarrow> (go_error option \<times> 's wire) option" where
  "telnet_login N S ctx creds w =
     (case telnet_readUntilPrompt N S ctx [] w of
        None \<Rightarrow> None
      | Some ((out, err), w0) \<Rightarrow>
          (let w1 = w0\<lparr>wi_log := wi_log w0 @ [Asked out]\<rparr> in
           case login_step creds (ts_prompt S) out of
             LDeny e \<Rightarrow> Some (Some e, w1)
           | LSend line \<Rightarrow>
               (case send_line N line w1 of
                  (Some e, w2) \<Rightarrow> Some (Some e, w2)
                | (None, w2) \<Rightarrow>
                    (case err of Some e \<Rightarrow> Some (Some e, w2) | None \<Rightarrow> telnet_login N S ctx creds w2))
           | LDone \<Rightarrow> Some (None, w1)
           | LDefault \<Rightarrow>
               (case err of
                  Some e \<Rightarrow> Some (Some e, w1)
                | None \<Rightarrow> if out \<noteq> [] then Some (None, w1) else telnet_login N S ctx creds w1)))"

section \<open>Dialing\<close>

definition telnet_session :: "telnet_Config \<Rightarrow> (string \<Rightarrow> bool) \<Rightarrow> telnet_Session" where
  "telnet_session c prompt = \<lparr>ts_commandTimeout = tc_CommandTimeout c, ts_idleTimeout = tc_IdleTimeout c,
     ts_prompt = prompt, ts_maxOutputBytes = tc_MaxOutputBytes c\<rparr>"

definition telnet_Dial :: "'s telnet_net \<Rightarrow> telnet_Config \<Rightarrow> instant option \<Rightarrow> Target \<Rightarrow> Credentials \<Rightarrow> 's wire
    \<Rightarrow> ((go_error + telnet_Session) \<times> 's wire) option" where
  "telnet_Dial N c ctx t creds w =
     (case on_wire (tn_CtxErr N ctx) w of
        (Some e, w1) \<Rightarrow> Some (Inl e, w1)
      | (None, w1) \<Rightarrow>
          if \<not> tc_Enabled c \<or> \<not> t_TelnetEnabled t
          then Some (Inl (BackupError FailureConnect ''telnet gate''
                 (errors_New ''telnet requires both global and target opt-in'')), w1)
          else (let addr = JoinHostPort (t_IPAddress t) (portString (t_Port t) 23) in
            case on_wire_log (Dialed addr) (tn_Dial N addr (tc_ConnectTimeout c)) w1 of
              (Some e, w2) \<Rightarrow> Some (Inl (BackupError FailureConnect ''telnet dial'' e), w2)
            | (None, w2) \<Rightarrow>
                (case tn_Compile N (tc_PromptPattern c) of
                   Inl e \<Rightarrow> Some (Inl (BackupError FailureConnect ''telnet prompt pattern'' e), snd (telnet_Close N w2))
                 | Inr prompt \<Rightarrow>
                     (let S = telnet_session c prompt;
                          (now, w3) = on_wire (tn_Now N) w2;
                          loginCtx = with_timeout ctx now (tc_LoginTimeout c)
                      in case telnet_login N S loginCtx creds w3 of
                           None \<Rightarrow> None
                         | Some (Some e, w4) \<Rightarrow> Some (Inl e, snd (telnet_Close N w4))
                         | Some (None, w4) \<Rightarrow> Some (Inr S, w4)))))"

section \<open>Negotiation, as a protocol\<close>

text \<open>What a device sends: data bytes and options, each of three bytes.\<close>

datatype telnet_item = Data char | Option char char

fun item_bytes :: "telnet_item \<Rightarrow> string" where
  "item_bytes (Data c) = [c]"
| "item_bytes (Option cmd opt) = [IAC, cmd, opt]"

fun item_data :: "telnet_item \<Rightarrow> string" where
  "item_data (Data c) = [c]"
| "item_data (Option cmd opt) = []"

text \<open>The refusal of an option: it is not offered to us, and we do not offer it.\<close>

fun item_reply :: "telnet_item \<Rightarrow> string list" where
  "item_reply (Data c) = []"
| "item_reply (Option cmd opt) = negotiate cmd opt"

definition stream_bytes :: "telnet_item list \<Rightarrow> string" where
  "stream_bytes items = concat (map item_bytes items)"

lemma strip_iac_stream:
  "Data IAC \<notin> set items \<Longrightarrow>
   strip_iac (stream_bytes items @ rest)
   = (concat (map item_data items) @ fst (strip_iac rest), concat (map item_reply items) @ snd (strip_iac rest))"
proof (induction items)
  case (Cons item items)
  then show ?case by (cases item) (auto simp: stream_bytes_def split: prod.splits)
qed (simp add: stream_bytes_def)

lemma send_replies_log: "wi_log (send_replies N rs w) = wi_log w @ map Negotiated rs"
  by (induction rs arbitrary: w) (auto simp: on_wire_log_def on_wire_def split: prod.splits)

text \<open>
  A sequence split between two reads loses its meaning: the command bytes that come with
  the second read are taken for output. So is the byte behind an escaped 255.
\<close>

lemma split_option_leaks:
  "strip_iac [CHR ''a'', IAC] = (''a'', [])" "strip_iac [WILL, CHR 0x01] = ([WILL, CHR 0x01], [])"
  "strip_iac [IAC, IAC, CHR ''b'', CHR ''c''] = (''c'', [])"
  by (simp_all add: negotiate_def)

section \<open>The log of the wire\<close>

definition only_negotiates :: "'s wire \<Rightarrow> 's wire \<Rightarrow> bool" where
  "only_negotiates w w' \<longleftrightarrow> (\<exists>rs. wi_log w' = wi_log w @ map Negotiated rs)"

lemma only_negotiates_refl: "only_negotiates w w"
  unfolding only_negotiates_def by (rule exI [of _ "[]"]) simp

lemma only_negotiates_trans: "only_negotiates a b \<Longrightarrow> only_negotiates b c \<Longrightarrow> only_negotiates a c"
  unfolding only_negotiates_def by (metis append.assoc map_append)

lemma on_wire_log_same: "on_wire f w = (x, w') \<Longrightarrow> wi_log w' = wi_log w"
  by (auto simp: on_wire_def split: prod.splits)

lemma on_wire_log_snoc: "on_wire_log ev f w = (x, w') \<Longrightarrow> wi_log w' = wi_log w @ [ev]"
  by (auto simp: on_wire_log_def dest: on_wire_log_same split: prod.splits)

lemma telnet_read_log: "telnet_read N dl w = (r, w') \<Longrightarrow> only_negotiates w w'"
  by (auto simp: telnet_read_def only_negotiates_def send_replies_log dest!: on_wire_log_same split: prod.splits)

lemma telnet_reads_log:
  assumes "telnet_readUntilPrompt N S ctx command w = Some (r, w')"
  shows "only_negotiates w w'"
proof (rule read_loop_state [OF assms [unfolded telnet_readUntilPrompt_def readUntilPrompt_def]])
  show "only_negotiates s s'" if "rd_CtxErr (telnet_reader N S) ctx s = (x, s')" for s x s'
    using that only_negotiates_refl [of s] on_wire_log_same
    by (fastforce simp: telnet_reader_def only_negotiates_def)
  show "only_negotiates s s'" if "rd_Now (telnet_reader N S) s = (x, s')" for s x s'
    using that only_negotiates_refl [of s] on_wire_log_same
    by (fastforce simp: telnet_reader_def only_negotiates_def)
  show "only_negotiates s s'" if "rd_Read (telnet_reader N S) dl s = (x, s')" for s dl x s'
    using that by (auto simp: telnet_reader_def dest: telnet_read_log split: prod.splits)
qed (fact only_negotiates_refl, fact only_negotiates_trans)

section \<open>Who gets the credentials\<close>

text \<open>What a text asks for: the user name, or the password.\<close>

definition asks_user :: "string \<Rightarrow> bool" where
  "asks_user text \<longleftrightarrow> Contains (ToLower text) ''username'' \<or> Contains (ToLower text) ''login''"

definition asks_password :: "string \<Rightarrow> bool" where
  "asks_password text \<longleftrightarrow> \<not> asks_user text \<and> Contains (ToLower text) ''password''"

definition asked_for :: "Credentials \<Rightarrow> string \<Rightarrow> string \<Rightarrow> bool" where
  "asked_for creds text line \<longleftrightarrow>
     asks_user text \<and> line = c_Username creds \<and> line \<noteq> []
     \<or> asks_password text \<and> line = SecretString_Reveal (c_Password creds) \<and> line \<noteq> []"

lemma login_step_send:
  "login_step creds prompt out = LSend line \<Longrightarrow> asked_for creds out line"
  by (auto simp: login_step_def asked_for_def asks_user_def asks_password_def Let_def
      SecretString_IsZero_def SecretString_Reveal_def split: if_splits)

lemma login_step_done:
  "login_step creds prompt out = LDone \<or> login_step creds prompt out = LDefault
   \<Longrightarrow> \<not> asks_user out \<and> \<not> asks_password out"
  by (auto simp: login_step_def asks_user_def asks_password_def Let_def split: if_splits)

text \<open>Every line sent directly follows a text that asks for it.\<close>

definition only_answers :: "Credentials \<Rightarrow> wire_event list \<Rightarrow> bool" where
  "only_answers creds evs \<longleftrightarrow>
     (\<forall>pre line post. evs = pre @ Sent line # post \<longrightarrow>
        (\<exists>pre' text. pre = pre' @ [Asked text] \<and> asked_for creds text line))"

lemma only_answersI:
  assumes "\<And>line. Sent line \<notin> set evs"
  shows "only_answers creds evs"
  using assms by (fastforce simp: only_answers_def)

lemma only_answers_append:
  assumes "only_answers creds xs" "only_answers creds ys"
  shows "only_answers creds (xs @ ys)"
  unfolding only_answers_def
proof (intro allI impI)
  fix pre line post assume e: "xs @ ys = pre @ Sent line # post"
  from e [unfolded append_eq_append_conv2] obtain us
    where "xs @ us = pre \<and> ys = us @ Sent line # post \<or> xs = pre @ us \<and> us @ ys = Sent line # post" by blast
  then have "(\<exists>us. xs = pre @ Sent line # us) \<or> (\<exists>us. pre = xs @ us \<and> ys = us @ Sent line # post)"
    by (cases us) auto
  then show "\<exists>pre' text. pre = pre' @ [Asked text] \<and> asked_for creds text line"
  proof (elim disjE exE conjE)
    fix us assume "xs = pre @ Sent line # us"
    then show ?thesis using assms(1) by (auto simp: only_answers_def)
  next
    fix us assume 2: "pre = xs @ us" "ys = us @ Sent line # post"
    then obtain pre' t where "us = pre' @ [Asked t] \<and> asked_for creds t line"
      using assms(2) unfolding only_answers_def by blast
    with 2 show ?thesis by auto
  qed
qed

lemma only_answers_asked:
  "asked_for creds out line \<Longrightarrow> only_answers creds (map Negotiated rs @ [Asked out, Sent line])"
proof -
  assume a: "asked_for creds out line"
  have "only_answers creds [Asked out, Sent line]"
    unfolding only_answers_def using a by (auto simp: Cons_eq_append_conv)
  then show ?thesis by (intro only_answers_append [OF only_answersI]) auto
qed

text \<open>
  The events of a login: texts that ask for something, each answered, and for a login that
  is taken as done a last text that asks for nothing.
\<close>

definition login_events :: "Credentials \<Rightarrow> go_error option \<Rightarrow> wire_event list \<Rightarrow> bool" where
  "login_events creds r evs \<longleftrightarrow>
     only_answers creds evs \<and> (\<forall>addr. Dialed addr \<notin> set evs) \<and> Closed \<notin> set evs
     \<and> (r = None \<longrightarrow> (\<exists>pre out. evs = pre @ [Asked out] \<and> \<not> asks_user out \<and> \<not> asks_password out))"

lemma login_events_asked:
  assumes "r \<noteq> None \<or> \<not> asks_user out \<and> \<not> asks_password out"
  shows "login_events creds r (map Negotiated rs @ [Asked out])"
  using assms by (auto simp: login_events_def intro!: only_answersI)

lemma login_events_sent:
  assumes "asked_for creds out line" "evs = [] \<and> r \<noteq> None \<or> login_events creds r evs"
  shows "login_events creds r ((map Negotiated rs @ [Asked out, Sent line]) @ evs)"
proof -
  have a: "only_answers creds ((map Negotiated rs @ [Asked out, Sent line]) @ evs)"
    by (rule only_answers_append [OF only_answers_asked [OF assms(1)]])
       (use assms(2) in \<open>auto simp: login_events_def intro: only_answersI\<close>)
  show ?thesis using assms(2) a unfolding login_events_def by auto
qed

lemma telnet_login_events:
  assumes "telnet_login N S ctx creds w = Some (r, w')"
  shows "\<exists>evs. wi_log w' = wi_log w @ evs \<and> login_events creds r evs"
proof -
  have "\<exists>evs. wi_log (snd (r, w')) = wi_log w @ evs \<and> login_events creds (fst (r, w')) evs"
  proof (rule telnet_login.raw_induct [where P = "\<lambda>N S ctx creds w y.
      \<exists>evs. wi_log (snd y) = wi_log w @ evs \<and> login_events creds (fst y) evs", OF _ assms], goal_cases)
    case (1 f N S ctx creds w y)
    let ?goal = "\<exists>evs. wi_log (snd y) = wi_log w @ evs \<and> login_events creds (fst y) evs"
    from 1(2) obtain out err w0 where r: "telnet_readUntilPrompt N S ctx [] w = Some ((out, err), w0)"
      by (cases "telnet_readUntilPrompt N S ctx [] w") auto
    obtain rs where rs: "wi_log w0 = wi_log w @ map Negotiated rs"
      using telnet_reads_log [OF r] unfolding only_negotiates_def by blast
    let ?w1 = "w0\<lparr>wi_log := wi_log w0 @ [Asked out]\<rparr>"
    have stop: ?goal if "y = (e, ?w1)" "e \<noteq> None \<or> \<not> asks_user out \<and> \<not> asks_password out" for e
      using login_events_asked [OF that(2)] rs that(1) by auto
    show ?case
    proof (cases "login_step creds (ts_prompt S) out")
      case (LDeny e)
      with 1(2) r have "y = (Some e, ?w1)" by simp
      then show ?thesis by (rule stop) simp
    next
      case (LSend line)
      obtain se w2 where s: "send_line N line ?w1 = (se, w2)" by (meson surj_pair)
      have l: "wi_log w2 = wi_log w @ (map Negotiated rs @ [Asked out, Sent line])"
        using s rs by (auto simp: send_line_def dest: on_wire_log_snoc)
      note sent = login_events_sent [OF login_step_send [OF LSend], of _ _ rs]
      show ?thesis
      proof (cases "f N S ctx creds w2 = Some y")
        case True
        from 1(1) [OF True] obtain evs where "wi_log (snd y) = wi_log w2 @ evs" "login_events creds (fst y) evs" by blast
        with l sent [of evs "fst y"] show ?thesis by auto
      next
        case False
        from 1(2) have "(case se of Some e \<Rightarrow> Some (Some e, w2)
            | None \<Rightarrow> (case err of Some e \<Rightarrow> Some (Some e, w2) | None \<Rightarrow> f N S ctx creds w2)) = Some y"
          unfolding r option.case prod.case Let_def LSend login_step.case s .
        with False have "snd y = w2" "fst y \<noteq> None" by (auto split: option.splits)
        with l sent [of "[]" "fst y"] show ?thesis by auto
      qed
    next
      case LDone
      with 1(2) r have "y = (None, ?w1)" by simp
      then show ?thesis by (rule stop) (use login_step_done LDone in blast)
    next
      case LDefault
      note d = login_step_done [of creds "ts_prompt S" out, OF disjI2, OF LDefault]
      show ?thesis
      proof (cases "f N S ctx creds ?w1 = Some y")
        case True
        from 1(1) [OF True] obtain evs where e: "wi_log (snd y) = wi_log w @ ((map Negotiated rs @ [Asked out]) @ evs)"
          "login_events creds (fst y) evs" using rs by auto
        have "only_answers creds (map Negotiated rs @ [Asked out])" by (rule only_answersI) auto
        then have "only_answers creds ((map Negotiated rs @ [Asked out]) @ evs)"
          by (rule only_answers_append) (use e(2) in \<open>simp add: login_events_def\<close>)
        with e(2) have "login_events creds (fst y) ((map Negotiated rs @ [Asked out]) @ evs)"
          unfolding login_events_def by auto
        with e(1) show ?thesis by blast
      next
        case False
        with 1(2) r LDefault have "y = (err, ?w1)" by (auto simp: Let_def split: option.splits if_splits)
        then show ?thesis by (rule stop) (use d in blast)
      qed
    qed
  qed
  then show ?thesis by simp
qed

section \<open>Dialing safely\<close>

text \<open>
  C16: Telnet is used only where both sides opted in, and the credentials go only to what
  asks for them. Whatever the device does, a dial that returns opened a connection only if
  the configuration and the target both enable Telnet, and then to the address of the
  target; every line it sent directly follows a text from the device that asks for a user
  name or, when it does not, for a password, and is that user name or password. A dial that
  fails leaves no connection open; one that succeeds leaves it open, after a text that asked
  for nothing.
\<close>

theorem telnet_Dial_safe:
  assumes "telnet_Dial N c ctx t creds w = Some (res, w')"
  shows "\<exists>evs. wi_log w' = wi_log w @ evs \<and> only_answers creds evs
     \<and> (evs \<noteq> [] \<longrightarrow> tc_Enabled c \<and> t_TelnetEnabled t
          \<and> hd evs = Dialed (JoinHostPort (t_IPAddress t) (Itoa (if t_Port t = 0 then 23 else t_Port t))))
     \<and> (case res of
          Inl e \<Rightarrow> evs = [] \<or> last evs = Closed \<or> (\<exists>e'. evs = [hd evs] \<and> e = BackupError FailureConnect ''telnet dial'' e')
        | Inr S \<Rightarrow> Closed \<notin> set evs \<and> (\<exists>out. last evs = Asked out \<and> \<not> asks_user out \<and> \<not> asks_password out))"
proof -
  let ?addr = "JoinHostPort (t_IPAddress t) (portString (t_Port t) 23)"
  obtain ce w1 where c: "on_wire (tn_CtxErr N ctx) w = (ce, w1)" by (meson surj_pair)
  obtain de w2 where d: "on_wire_log (Dialed ?addr) (tn_Dial N ?addr (tc_ConnectTimeout c)) w1 = (de, w2)" by (meson surj_pair)
  obtain now w3 where n: "on_wire (tn_Now N) w2 = (now, w3)" by (meson surj_pair)
  have l: "wi_log w1 = wi_log w" "wi_log w2 = wi_log w @ [Dialed ?addr]" "wi_log w3 = wi_log w @ [Dialed ?addr]"
    using on_wire_log_same [OF c] on_wire_log_snoc [OF d] on_wire_log_same [OF n] by auto
  have closed: "wi_log (snd (telnet_Close N w)) = wi_log w @ [Closed]" for w
    unfolding telnet_Close_def by (metis on_wire_log_snoc prod.collapse)
  show ?thesis
  proof (cases "ce \<noteq> None \<or> \<not> (tc_Enabled c \<and> t_TelnetEnabled t)")
    case True
    with assms c have "w' = w1" "\<not> isl res \<longrightarrow> False" by (auto simp: telnet_Dial_def split: option.splits if_splits)
    with l show ?thesis by (intro exI [of _ "[]"]) (auto simp: isl_def intro: only_answersI)
  next
    case False
    then have on: "ce = None" "tc_Enabled c" "t_TelnetEnabled t" by auto
    note dial = assms [unfolded telnet_Dial_def c [unfolded on(1)] prod.case option.case Let_def d n]
    have dialed: "only_answers creds [Dialed ?addr]" "only_answers creds [Dialed ?addr, Closed]"
      by (rule only_answersI, simp)+
    show ?thesis
    proof (cases de)
      case (Some e)
      with dial on have "w' = w2" "res = Inl (BackupError FailureConnect ''telnet dial'' e)" by auto
      with l on dialed show ?thesis by (intro exI [of _ "[Dialed ?addr]"]) (simp add: portString_def)
    next
      case None
      note dial = dial [unfolded None option.case]
      show ?thesis
      proof (cases "tn_Compile N (tc_PromptPattern c)")
        case (Inl e)
        with dial on have "w' = snd (telnet_Close N w2)" "isl res" by auto
        with l on dialed closed show ?thesis
          by (intro exI [of _ "[Dialed ?addr, Closed]"]) (auto simp: portString_def isl_def)
      next
        case (Inr prompt)
        with dial on obtain le w4 where lo: "telnet_login N (telnet_session c prompt)
            (with_timeout ctx now (tc_LoginTimeout c)) creds w3 = Some (le, w4)"
          "(case le of Some e \<Rightarrow> Some (Inl e, snd (telnet_Close N w4)) | None \<Rightarrow> Some (Inr (telnet_session c prompt), w4)) = Some (res, w')"
          by (auto split: option.splits)
        from telnet_login_events [OF lo(1)] obtain evs where e: "wi_log w4 = wi_log w3 @ evs" "login_events creds le evs" by blast
        then have oa: "only_answers creds evs" by (simp add: login_events_def)
        have o1: "only_answers creds ([Dialed ?addr] @ evs)" by (rule only_answers_append [OF dialed(1) oa])
        have "only_answers creds [Closed]" by (rule only_answersI) simp
        then have o2: "only_answers creds (([Dialed ?addr] @ evs) @ [Closed])" by (rule only_answers_append [OF o1])
        show ?thesis
        proof (cases le)
          case (Some x)
          with lo(2) have "w' = snd (telnet_Close N w4)" "isl res" by auto
          with l on e(1) o2 closed show ?thesis
            by (intro exI [of _ "([Dialed ?addr] @ evs) @ [Closed]"]) (auto simp: portString_def isl_def)
        next
          case None
          with lo(2) have "w' = w4" "res = Inr (telnet_session c prompt)" by auto
          moreover obtain pre out where "evs = pre @ [Asked out]" "\<not> asks_user out" "\<not> asks_password out" "Closed \<notin> set evs"
            using e(2) None by (auto simp: login_events_def)
          ultimately show ?thesis using l on e(1) o1
            by (intro exI [of _ "[Dialed ?addr] @ evs"]) (auto simp: portString_def)
        qed
      qed
    qed
  qed
qed

text \<open>A device as the list of what its reads give; the empty text stands for a time-out.\<close>

definition script_net :: "(string \<Rightarrow> bool) \<Rightarrow> string list telnet_net" where
  "script_net prompt =
     \<lparr>tn_Dial = (\<lambda>addr timeout s. (None, s)),
      tn_Read = (\<lambda>dl s. case s of [] \<Rightarrow> (([], Some ReadTimeout), [])
                       | c # cs \<Rightarrow> ((c, if c = [] then Some ReadTimeout else None), cs)),
      tn_Write = (\<lambda>line s. (None, s)), tn_Close = (\<lambda>s. (None, s)),
      tn_CtxErr = (\<lambda>ctx s. (if s = [] then Some DeadlineExceeded else None, s)),
      tn_Now = (\<lambda>s. (0, s)), tn_Compile = (\<lambda>pattern. Inr prompt)\<rparr>"

declare telnet_login.simps [code]

definition demo_target :: Target where
  "demo_target = \<lparr>t_ID = ''r1'', t_Hostname = ''r1'', t_IPAddress = ''10.0.0.1'', t_Port = 0, t_Vendor = ''cisco'',
     t_Group = [], t_Site = [], t_Role = [], t_Tags = [], t_Metadata = Map.empty, t_JumpHost = [], t_CredentialRef = [],
     t_Enabled = True, t_TelnetEnabled = True\<rparr>"

definition demo_creds :: Credentials where
  "demo_creds = \<lparr>c_Username = ''admin'', c_Password = SecretString ''s3cret'', c_PrivateKeyPEM = SecretBytes [],
     c_EnableSecret = SecretString [], c_Source = [], c_AuthType = ''password''\<rparr>"

definition demo_telnet_dial :: "((go_error + telnet_Session) \<times> string list wire) option" where
  "demo_telnet_dial = telnet_Dial (script_net (\<lambda>s. HasSuffix s ''#'')) (telnet_New True) None demo_target demo_creds
     \<lparr>wi_state = [[IAC, WILL, CHR 0x01] @ ''Username: '', [], ''Password: '', [], ''r1#''], wi_log = []\<rparr>"

lemma demo_telnet_log:
  "map_option (\<lambda>(res, w). (isl res, wi_log w)) demo_telnet_dial
   = Some (False, [Dialed ''10.0.0.1:23'', Negotiated [IAC, DONT, CHR 0x01], Asked (''Username:'' @ [CHR 0x0A]), Sent ''admin'',
       Asked (''Password:'' @ [CHR 0x0A]), Sent ''s3cret'', Asked [CHR 0x0A]])"
  by code_simp

theorem telnet_Dial_safe_witness:
  "\<exists>S w. demo_telnet_dial = Some (Inr S, w) \<and> hd (wi_log w) = Dialed ''10.0.0.1:23'' \<and> only_answers demo_creds (wi_log w)
     \<and> Sent ''s3cret'' \<in> set (wi_log w) \<and> (\<exists>out. last (wi_log w) = Asked out)"
proof -
  obtain S w where d: "demo_telnet_dial = Some (Inr S, w)" and l: "wi_log w = [Dialed ''10.0.0.1:23'',
      Negotiated [IAC, DONT, CHR 0x01], Asked (''Username:'' @ [CHR 0x0A]), Sent ''admin'',
       Asked (''Password:'' @ [CHR 0x0A]), Sent ''s3cret'', Asked [CHR 0x0A]]"
  proof -
    obtain res w where d: "demo_telnet_dial = Some (res, w)" using demo_telnet_log by (cases demo_telnet_dial) auto
    from demo_telnet_log [unfolded d] have "\<not> isl res" "wi_log w = [Dialed ''10.0.0.1:23'',
      Negotiated [IAC, DONT, CHR 0x01], Asked (''Username:'' @ [CHR 0x0A]), Sent ''admin'',
       Asked (''Password:'' @ [CHR 0x0A]), Sent ''s3cret'', Asked [CHR 0x0A]]" by simp_all
    with d that show ?thesis by (cases res) simp_all
  qed
  from telnet_Dial_safe [OF d [unfolded demo_telnet_dial_def]] have "only_answers demo_creds (wi_log w)" by auto
  with d l show ?thesis by (intro exI [of _ S] exI [of _ w]) simp
qed

text \<open>
  A device that refuses the login in words the dialogue does not know, and then hangs up or
  falls silent, passes for one that accepted it.
\<close>

lemma refused_login_succeeds:
  "map_option (\<lambda>(res, w). isl res) (telnet_Dial (script_net (\<lambda>s. HasSuffix s ''#'')) (telnet_New True) None demo_target demo_creds
     \<lparr>wi_state = [''Username: '', [], ''Password: '', [], ''Access denied'', []], wi_log = []\<rparr>) = Some False"
  by code_simp

text \<open>
  A device that pauses longer than the idle time, or hangs up, in the middle of its output
  ends the command: what came before is returned as the whole output, without an error.
\<close>

lemma partial_output_succeeds:
  "map_option fst (telnet_Run (script_net (\<lambda>s. HasSuffix s ''#'')) (telnet_session (telnet_New True) (\<lambda>s. HasSuffix s ''#'')) None
     ''show run'' \<lparr>wi_state = [''hostname r1'', [], ''interface e0'', ''r1#''], wi_log = []\<rparr>)
   = Some (''hostname r1'' @ [CHR 0x0A], None)"
  by code_simp

section \<open>Running commands\<close>





end
