(* ===== verification/Ssh.thy ===== *)
theory Ssh
  imports Transport Go_Regexp
begin

text \<open>
  The SSH transport, sshtransport/ssh.go: authentication methods, host keys with trust on
  first use, jump hosts, dialing, and commands over exec channels or one interactive shell.
  The SSH library and its known-hosts files are parameters; what is opened and closed is
  recorded in order.
\<close>

section \<open>Configuration\<close>

record ssh_Config =
  sh_ConnectTimeout :: duration
  sh_AuthTimeout :: duration
  sh_CommandTimeout :: duration
  sh_IdleTimeout :: duration
  sh_SessionDeadline :: duration
  sh_InteractiveShell :: bool
  sh_PromptPattern :: string
  sh_MaxOutputBytes :: int
  sh_HostKeyMode :: string
  sh_KnownHostsPath :: string
  sh_TOFUPath :: string

definition ssh_defaultPromptPattern :: string where
  "ssh_defaultPromptPattern = map (\<lambda>c. if c = CHR 0x60 then CHR 0x5C else c) ''(?m)(^|`n)[^`n]{1,96}[>#]`s*$''"

definition ssh_New :: "ssh_Config \<Rightarrow> ssh_Config" where
  "ssh_New c = c\<lparr>
     sh_PromptPattern := (if sh_PromptPattern c = [] then ssh_defaultPromptPattern else sh_PromptPattern c),
     sh_MaxOutputBytes := (if sh_MaxOutputBytes c \<le> 0 then 16 * 2 ^ 20 else sh_MaxOutputBytes c)\<rparr>"

definition ssh_portString :: "int \<Rightarrow> string" where
  "ssh_portString port = Itoa (if port = 0 then 22 else port)"

section \<open>Authentication\<close>

text \<open>\<open>parse\<close> is the error of \<open>ssh.ParsePrivateKey\<close>.\<close>

datatype auth_method = PublicKeys string | Password string

definition authMethods :: "(string \<Rightarrow> go_error option) \<Rightarrow> Credentials \<Rightarrow> go_error + auth_method list" where
  "authMethods parse creds =
     (let pem = SecretBytes_Reveal (c_PrivateKeyPEM creds);
          keys = (if SecretBytes_IsZero (c_PrivateKeyPEM creds) then Inr []
                  else (case parse pem of Some e \<Rightarrow> Inl e | None \<Rightarrow> Inr [PublicKeys pem]))
      in res_bind keys (\<lambda>ms.
           let methods = ms @ (if SecretString_IsZero (c_Password creds) then []
                               else [Password (SecretString_Reveal (c_Password creds))])
           in if methods = [] then Inl (errors_New ''no SSH auth method available'') else Inr methods))"

section \<open>Host keys\<close>

text \<open>How host keys are checked: against a file that was read, on first use, or not at all.\<close>

datatype 'db host_key_check = KnownHosts 'db | Tofu string | InsecureIgnoreHostKey

text \<open>The check of a configuration, and the warnings given.\<close>

definition hostKeyCallback :: "(string \<Rightarrow> go_error + 'db) \<Rightarrow> ssh_Config \<Rightarrow> (go_error + 'db host_key_check) \<times> string list" where
  "hostKeyCallback knownhosts c =
     (let mode = ToLower (sh_HostKeyMode c) in
      if mode = [] \<or> mode = ''strict'' then
        (if sh_KnownHostsPath c = [] then Inl (errors_New ''known_hosts path is required in strict mode'')
         else map_sum id KnownHosts (knownhosts (sh_KnownHostsPath c)), [])
      else if mode = ''tofu'' then
        (let path = (if sh_TOFUPath c = [] then sh_KnownHostsPath c else sh_TOFUPath c)
         in (if path = [] then Inl (errors_New ''tofu path is required in tofu mode'') else Inr (Tofu path), []))
      else if mode = ''insecure'' then
        (Inr InsecureIgnoreHostKey, [''ssh host key verification is disabled''])
      else (Inl (Errorf ''unknown host key mode %q'' [sh_HostKeyMode c]), []))"

text \<open>
  The package \<open>knownhosts\<close>: parsing a file, checking a key (a \<open>KeyError\<close> carries the keys the
  file wants for the host) and writing a line.
\<close>

datatype 'key kh_result = KhOk | KhKeyError "'key list" go_error | KhError go_error

record ('key, 'db) knownhosts =
  kh_Parse :: "string \<Rightarrow> go_error + 'db"
  kh_Check :: "'db \<Rightarrow> string \<Rightarrow> string \<Rightarrow> 'key \<Rightarrow> 'key kh_result"
  kh_Line :: "string \<Rightarrow> 'key \<Rightarrow> string"

datatype tofu_decision = TofuAccept | TofuReject go_error | TofuRecord

text \<open>The first half of the callback: what the file, \<open>None\<close> when it does not exist, says about a key.\<close>

definition tofu_lookup :: "('key, 'db) knownhosts \<Rightarrow> go_error option \<Rightarrow> string \<Rightarrow> string \<Rightarrow> 'key \<Rightarrow> string option \<Rightarrow> tofu_decision" where
  "tofu_lookup L read_err hostname remote key file =
     (case file of
        None \<Rightarrow> TofuRecord
      | Some content \<Rightarrow>
          (case read_err of
             Some e \<Rightarrow> TofuReject e
           | None \<Rightarrow>
               (case kh_Parse L content of
                  Inl e \<Rightarrow> TofuReject e
                | Inr db \<Rightarrow>
                    (case kh_Check L db hostname remote key of
                       KhOk \<Rightarrow> TofuAccept
                     | KhKeyError want e \<Rightarrow> if want \<noteq> [] then TofuReject e else TofuRecord
                     | KhError e \<Rightarrow> TofuReject e))))"

text \<open>
  The second half, under the mutex: the line is appended. \<open>open_err\<close> is the error of opening,
  \<open>write\<close> what a write leaves in the file and its error.
\<close>

definition tofu_record :: "('key, 'db) knownhosts \<Rightarrow> go_error option \<Rightarrow> (string \<Rightarrow> string \<times> go_error option)
    \<Rightarrow> string \<Rightarrow> 'key \<Rightarrow> string option \<Rightarrow> go_error option \<times> string option" where
  "tofu_record L open_err write hostname key file =
     (case open_err of
        Some e \<Rightarrow> (Some e, file)
      | None \<Rightarrow>
          (let (written, err) = write (kh_Line L hostname key @ [CHR 0x0A])
           in (err, Some ((case file of None \<Rightarrow> [] | Some c \<Rightarrow> c) @ written))))"


section \<open>Jump hosts\<close>

record jumpSpec =
  js_username :: string
  js_host :: string
  js_port :: string

text \<open>\<open>strings.LastIndex(spec, "@")\<close>: the user before the last at sign, and the rest.\<close>

definition split_user :: "string \<Rightarrow> string \<Rightarrow> string \<times> string" where
  "split_user spec defaultUser =
     (case LastIndexByte spec (CHR ''@'') of
        None \<Rightarrow> (defaultUser, spec)
      | Some at \<Rightarrow> (take at spec, drop (Suc at) spec))"

definition jump_host_port :: "string \<Rightarrow> go_error + string \<times> string" where
  "jump_host_port spec =
     (case SplitHostPort spec of
        Inr hp \<Rightarrow> Inr hp
      | Inl e \<Rightarrow> if Contains (error_text e) ''missing port in address'' then Inr (Trim spec ''[]'', ''22'') else Inl e)"

definition parseJumpHost :: "string \<Rightarrow> string \<Rightarrow> go_error + jumpSpec" where
  "parseJumpHost raw defaultUser =
     (let spec0 = TrimSpace raw in
      if spec0 = [] then Inl (errors_New ''jump host is empty'')
      else (let (user, spec) = split_user spec0 defaultUser in
            res_bind (jump_host_port spec) (\<lambda>(host, port).
              if user = [] then Inl (errors_New ''jump host user is empty'')
              else if host = [] then Inl (errors_New ''jump host address is empty'')
              else if Atoi port = None then Inl (Errorf ''invalid jump host port %q'' [port])
              else Inr \<lparr>js_username = user, js_host = host, js_port = port\<rparr>)))"

section \<open>Dialing\<close>

record 'db client_config =
  cl_User :: string
  cl_Auth :: "auth_method list"
  cl_HostKeyCallback :: "'db host_key_check"
  cl_Timeout :: duration

definition cloneClientConfig :: "'db client_config \<Rightarrow> 'db client_config" where
  "cloneClientConfig c = c"

text \<open>
  What a dial opens: the connection to the target, that to the jump host, the SSH client on
  the latter (which owns it from then on), the SSH client on the former, a shell.
\<close>

datatype handle = TargetConn | JumpConn | JumpClient | Client | Shell

datatype ssh_event = Opened handle | Released handle

record ('db, 's) ssh_lib =
  sl_ParsePrivateKey :: "string \<Rightarrow> go_error option"
  sl_KnownHosts :: "string \<Rightarrow> go_error + 'db"
  sl_DialContext :: "string \<Rightarrow> duration \<Rightarrow> (go_error option, 's) io"
  sl_NewClientConn :: "handle \<Rightarrow> string \<Rightarrow> 'db client_config \<Rightarrow> (go_error option, 's) io"
  sl_ClientDial :: "string \<Rightarrow> (go_error option, 's) io"
  sl_Close :: "handle \<Rightarrow> (go_error option, 's) io"
  sl_SetDeadline :: "handle \<Rightarrow> instant \<Rightarrow> 's \<Rightarrow> 's"
  sl_Compile :: "string \<Rightarrow> go_error + (string \<Rightarrow> bool)"
  sl_Now :: "(instant, 's) io"

record 's ssh_world =
  sw_state :: 's
  sw_log :: "ssh_event list"

definition ssh_op :: "('a, 's) io \<Rightarrow> ('a, 's ssh_world) io" where
  "ssh_op f w = (let (x, s) = f (sw_state w) in (x, w\<lparr>sw_state := s\<rparr>))"

definition ssh_set :: "('s \<Rightarrow> 's) \<Rightarrow> 's ssh_world \<Rightarrow> 's ssh_world" where
  "ssh_set f w = w\<lparr>sw_state := f (sw_state w)\<rparr>"

text \<open>An operation that opens a handle when it succeeds, and one that closes a handle.\<close>

definition opening_op :: "handle \<Rightarrow> (go_error option, 's) io \<Rightarrow> (go_error option, 's ssh_world) io" where
  "opening_op h f w =
     (let (err, w1) = ssh_op f w
      in (err, if err = None then w1\<lparr>sw_log := sw_log w1 @ [Opened h]\<rparr> else w1))"

definition close_handle :: "('db, 's) ssh_lib \<Rightarrow> handle \<Rightarrow> (go_error option, 's ssh_world) io" where
  "close_handle L h w =
     (let (err, w1) = ssh_op (sl_Close L h) w in (err, w1\<lparr>sw_log := sw_log w1 @ [Released h]\<rparr>))"

definition close_handles :: "('db, 's) ssh_lib \<Rightarrow> handle list \<Rightarrow> 's ssh_world \<Rightarrow> 's ssh_world" where
  "close_handles L hs w = fold (\<lambda>h w. snd (close_handle L h w)) hs w"

definition tcpDial :: "('db, 's) ssh_lib \<Rightarrow> ssh_Config \<Rightarrow> handle \<Rightarrow> string \<Rightarrow> (go_error option, 's ssh_world) io" where
  "tcpDial L c h addr = opening_op h (sl_DialContext L addr (if sh_ConnectTimeout c > 0 then sh_ConnectTimeout c else 0))"

text \<open>\<open>SetDeadline(time.Now().Add(AuthTimeout))\<close>, when there is a time-out.\<close>

definition auth_deadline :: "('db, 's) ssh_lib \<Rightarrow> ssh_Config \<Rightarrow> handle \<Rightarrow> 's ssh_world \<Rightarrow> 's ssh_world" where
  "auth_deadline L c h w =
     (if sh_AuthTimeout c > 0
      then (let (now, w1) = ssh_op (sl_Now L) w in ssh_set (sl_SetDeadline L h (now + sh_AuthTimeout c)) w1)
      else w)"

text \<open>The connection to the target; the result tells whether it goes through a jump client.\<close>

definition networkConn :: "('db, 's) ssh_lib \<Rightarrow> ssh_Config \<Rightarrow> Target \<Rightarrow> 'db client_config \<Rightarrow> string
    \<Rightarrow> (go_error + bool, 's ssh_world) io" where
  "networkConn L c t cfg targetAddr w =
     (if t_JumpHost t = [] then
        (case tcpDial L c TargetConn targetAddr w of
           (Some e, w1) \<Rightarrow> (Inl (BackupError FailureConnect ''tcp dial'' e), w1)
         | (None, w1) \<Rightarrow> (Inr False, w1))
      else
        (case parseJumpHost (t_JumpHost t) (cl_User cfg) of
           Inl e \<Rightarrow> (Inl (BackupError FailureConnect ''ssh jump host'' e), w)
         | Inr jump \<Rightarrow>
             (let jumpCfg = (cloneClientConfig cfg)\<lparr>cl_User := js_username jump\<rparr>;
                  jumpAddr = JoinHostPort (js_host jump) (js_port jump)
              in case tcpDial L c JumpConn jumpAddr w of
                   (Some e, w1) \<Rightarrow> (Inl (BackupError FailureConnect ''jump tcp dial'' e), w1)
                 | (None, w1) \<Rightarrow>
                     (case opening_op JumpClient (sl_NewClientConn L JumpConn jumpAddr jumpCfg) (auth_deadline L c JumpConn w1) of
                        (Some e, w2) \<Rightarrow> (Inl (BackupError FailureConnect ''jump ssh handshake'' e), close_handles L [JumpConn] w2)
                      | (None, w2) \<Rightarrow>
                          (case opening_op TargetConn (sl_ClientDial L targetAddr) w2 of
                             (Some e, w3) \<Rightarrow> (Inl (BackupError FailureConnect ''jump target dial'' e), close_handles L [JumpClient] w3)
                           | (None, w3) \<Rightarrow> (Inr True, w3))))))"

record ssh_Session =
  se_jump :: bool
  se_commandTimeout :: duration
  se_idleTimeout :: duration
  se_sessionDeadline :: instant
  se_interactive :: bool
  se_prompt :: "string \<Rightarrow> bool"
  se_maxOutputBytes :: int

definition dialed_handles :: "bool \<Rightarrow> handle list" where
  "dialed_handles jump = TargetConn # (if jump then [JumpClient] else [])"

text \<open>The session deadline: set on the connection, or cleared.\<close>

definition session_deadline :: "('db, 's) ssh_lib \<Rightarrow> ssh_Config \<Rightarrow> 's ssh_world \<Rightarrow> instant \<times> 's ssh_world" where
  "session_deadline L c w =
     (if sh_SessionDeadline c > 0
      then (let (now, w1) = ssh_op (sl_Now L) w; dl = now + sh_SessionDeadline c
            in (dl, ssh_set (sl_SetDeadline L TargetConn dl) w1))
      else (0, ssh_set (sl_SetDeadline L TargetConn 0) w))"

definition handshake_error :: "go_error \<Rightarrow> go_error" where
  "handshake_error e =
     (if Contains (ToLower (error_text e)) ''unable to authenticate''
      then BackupError FailureAuth ''ssh handshake'' e else BackupError FailureConnect ''ssh handshake'' e)"

definition ssh_client_config :: "ssh_Config \<Rightarrow> Credentials \<Rightarrow> auth_method list \<Rightarrow> 'db host_key_check \<Rightarrow> 'db client_config" where
  "ssh_client_config c creds methods hostKey =
     \<lparr>cl_User = c_Username creds, cl_Auth = methods, cl_HostKeyCallback = hostKey, cl_Timeout = sh_ConnectTimeout c\<rparr>"

text \<open>From the connected target on: the handshake, the deadlines and the prompt.\<close>

definition dial_session :: "('db, 's) ssh_lib \<Rightarrow> ssh_Config \<Rightarrow> 'db client_config \<Rightarrow> string \<Rightarrow> bool
    \<Rightarrow> (go_error + ssh_Session, 's ssh_world) io" where
  "dial_session L c cfg targetAddr jump w =
     (case opening_op Client (sl_NewClientConn L TargetConn targetAddr cfg) (auth_deadline L c TargetConn w) of
        (Some e, w1) \<Rightarrow> (Inl (handshake_error e), close_handles L (dialed_handles jump) w1)
      | (None, w1) \<Rightarrow>
          (let (sessionDeadline, w2) = session_deadline L c w1 in
           case sl_Compile L (sh_PromptPattern c) of
             Inl e \<Rightarrow> (Inl (BackupError FailureConnect ''ssh prompt pattern'' e), close_handles L (dialed_handles jump) w2)
           | Inr prompt \<Rightarrow>
               (Inr \<lparr>se_jump = jump,
                     se_commandTimeout = (if sh_CommandTimeout c \<le> 0 then sh_IdleTimeout c else sh_CommandTimeout c),
                     se_idleTimeout = sh_IdleTimeout c, se_sessionDeadline = sessionDeadline,
                     se_interactive = sh_InteractiveShell c, se_prompt = prompt,
                     se_maxOutputBytes = sh_MaxOutputBytes c\<rparr>, w2)))"

definition ssh_Dial :: "('db, 's) ssh_lib \<Rightarrow> ssh_Config \<Rightarrow> Target \<Rightarrow> Credentials \<Rightarrow> (go_error + ssh_Session, 's ssh_world) io" where
  "ssh_Dial L c t creds w =
     (case authMethods (sl_ParsePrivateKey L) creds of
        Inl e \<Rightarrow> (Inl (BackupError FailureAuth ''ssh auth'' e), w)
      | Inr methods \<Rightarrow>
          (case fst (hostKeyCallback (sl_KnownHosts L) c) of
             Inl e \<Rightarrow> (Inl (BackupError FailureConnect ''ssh host key'' e), w)
           | Inr hostKey \<Rightarrow>
               (let cfg = ssh_client_config c creds methods hostKey;
                    targetAddr = JoinHostPort (t_IPAddress t) (ssh_portString (t_Port t))
                in case networkConn L c t cfg targetAddr w of
                     (Inl e, w1) \<Rightarrow> (Inl e, w1)
                   | (Inr jump, w1) \<Rightarrow> dial_session L c cfg targetAddr jump w1)))"

section \<open>Sessions\<close>

definition ansiRE :: regex where
  \<open>ansiRE = MustCompile ''`x1b`[[0-9;?]*[ -/]*[@-~]''\<close>

definition stripANSI :: "string \<Rightarrow> string" where
  "stripANSI s = ReplaceAllString ansiRE s []"

definition cleanInteractiveOutput :: "string \<Rightarrow> string \<Rightarrow> (string \<Rightarrow> bool) option \<Rightarrow> string" where
  "cleanInteractiveOutput = clean_output stripANSI"

text \<open>When a command has to be done: the command's deadline, or the session's, or never (0).\<close>

definition ssh_deadline :: "ssh_Session \<Rightarrow> instant \<Rightarrow> instant" where
  "ssh_deadline S now =
     (if IsZero (se_sessionDeadline S)
      then (if se_commandTimeout S > 0 then now + se_commandTimeout S else 0)
      else if se_commandTimeout S \<le> 0 then se_sessionDeadline S
      else if now + se_commandTimeout S < se_sessionDeadline S then now + se_commandTimeout S
      else se_sessionDeadline S)"

text \<open>
  The session's client, its shell and the caller's context. \<open>xs_CombinedOutput\<close> is the race
  between the command and the context. \<open>xs_Read\<close> reads the pipe both output streams are
  copied to: it ends only with data, since the pipe is never closed once the shell runs, so
  \<open>None\<close> is a read that never returns.
\<close>

datatype exec_result = ExecDone string "go_error option" | ExecCtx go_error

record 's ssh_net =
  xs_NewSession :: "(go_error option, 's) io"
  xs_CombinedOutput :: "instant option \<Rightarrow> string \<Rightarrow> (exec_result, 's) io"
  xs_StartShell :: "(go_error option, 's) io" \<comment> \<open>the terminal, the pipes and the shell\<close>
  xs_Write :: "string \<Rightarrow> (go_error option, 's) io"
  xs_Read :: "instant \<Rightarrow> (string option, 's) io"
  xs_SetDeadline :: "instant \<Rightarrow> 's \<Rightarrow> 's"
  xs_CtxErr :: "instant option \<Rightarrow> (go_error option, 's) io"
  xs_Now :: "(instant, 's) io"
  xs_Close :: "handle \<Rightarrow> (go_error option, 's) io"

text \<open>The state of a session: whether its shell runs.\<close>

record 's ssh_state =
  st_net :: 's
  st_shell :: bool

definition on_net :: "('a, 's) io \<Rightarrow> ('a, 's ssh_state) io" where
  "on_net f s = (let (x, n) = f (st_net s) in (x, s\<lparr>st_net := n\<rparr>))"

definition set_net :: "('s \<Rightarrow> 's) \<Rightarrow> 's ssh_state \<Rightarrow> 's ssh_state" where
  "set_net f s = s\<lparr>st_net := f (st_net s)\<rparr>"

text \<open>\<open>context.WithTimeout(ctx, s.commandTimeout)\<close>, when there is a time-out.\<close>

definition command_ctx :: "'s ssh_net \<Rightarrow> ssh_Session \<Rightarrow> instant option \<Rightarrow> (instant option, 's ssh_state) io" where
  "command_ctx X S ctx s =
     (if se_commandTimeout S > 0
      then (let (now, s1) = on_net (xs_Now X) s in (with_timeout ctx now (se_commandTimeout S), s1))
      else (ctx, s))"

definition set_command_deadline :: "'s ssh_net \<Rightarrow> ssh_Session \<Rightarrow> 's ssh_state \<Rightarrow> 's ssh_state" where
  "set_command_deadline X S s =
     (let (now, s1) = on_net (xs_Now X) s in set_net (xs_SetDeadline X (ssh_deadline S now)) s1)"

definition reset_deadline :: "'s ssh_net \<Rightarrow> ssh_Session \<Rightarrow> 's ssh_state \<Rightarrow> 's ssh_state" where
  "reset_deadline X S s =
     (if IsZero (se_sessionDeadline S) then s else set_net (xs_SetDeadline X (se_sessionDeadline S)) s)"

definition exec_output :: "ssh_Session \<Rightarrow> string \<Rightarrow> string \<Rightarrow> go_error option \<Rightarrow> string \<times> go_error option" where
  "exec_output S command out err =
     (if int (length out) > se_maxOutputBytes S
      then (take (nat (se_maxOutputBytes S)) out, Some (BackupError FailureCommand command
              (Errorf ''output exceeded %d bytes'' [Itoa (se_maxOutputBytes S)])))
      else (out, err))"

definition runExec :: "'s ssh_net \<Rightarrow> ssh_Session \<Rightarrow> instant option \<Rightarrow> string \<Rightarrow> (string \<times> go_error option, 's ssh_state) io" where
  "runExec X S ctx command s =
     (let (ctx1, s1) = command_ctx X S ctx s;
          (err, s2) = on_net (xs_NewSession X) (set_command_deadline X S s1)
      in case err of
           Some e \<Rightarrow> (([], Some e), s2)
         | None \<Rightarrow>
             (case on_net (xs_CombinedOutput X ctx1 command) s2 of
                (ExecCtx e, s3) \<Rightarrow> (([], Some (BackupError FailureTimeout command e)), s3)
              | (ExecDone out err, s3) \<Rightarrow> (exec_output S command out err, reset_deadline X S s3)))"

definition shell_reader :: "'s ssh_net \<Rightarrow> ssh_Session \<Rightarrow> 's ssh_state reader" where
  "shell_reader X S =
     \<lparr>rd_Read = (\<lambda>dl s. case on_net (xs_Read X dl) (set_net (xs_SetDeadline X dl) s) of
                     (None, s1) \<Rightarrow> (None, s1)
                   | (Some data, s1) \<Rightarrow> (Some (data, None), s1)),
      rd_CtxErr = (\<lambda>ctx. on_net (xs_CtxErr X ctx)), rd_Now = on_net (xs_Now X), rd_clean = (\<lambda>raw command. cleanInteractiveOutput raw command (Some (se_prompt S))),
      rd_prompt = Some (se_prompt S), rd_idle = se_idleTimeout S, rd_max = se_maxOutputBytes S\<rparr>"

definition ssh_readUntilPrompt :: "'s ssh_net \<Rightarrow> ssh_Session \<Rightarrow> instant option \<Rightarrow> string
    \<Rightarrow> 's ssh_state \<Rightarrow> ((string \<times> go_error option) \<times> 's ssh_state) option" where
  "ssh_readUntilPrompt X S = readUntilPrompt (shell_reader X S)"

text \<open>Starting the shell once, and reading what it greets with for at most two seconds.\<close>

definition ensureShell :: "'s ssh_net \<Rightarrow> ssh_Session \<Rightarrow> instant option \<Rightarrow> 's ssh_state \<Rightarrow> (go_error option \<times> 's ssh_state) option" where
  "ensureShell X S ctx s =
     (if st_shell s then Some (None, s)
      else (case on_net (xs_NewSession X) s of
              (Some e, s1) \<Rightarrow> Some (Some e, s1)
            | (None, s1) \<Rightarrow>
                (case on_net (xs_StartShell X) s1 of
                   (Some e, s2) \<Rightarrow> Some (Some e, snd (on_net (xs_Close X Shell) s2))
                 | (None, s2) \<Rightarrow>
                     (let (now, s3) = on_net (xs_Now X) (s2\<lparr>st_shell := True\<rparr>) in
                      case ssh_readUntilPrompt X S (with_timeout ctx now (2 * Second)) [] s3 of
                        None \<Rightarrow> None
                      | Some (_, s4) \<Rightarrow> Some (None, s4)))))"

definition runInteractive :: "'s ssh_net \<Rightarrow> ssh_Session \<Rightarrow> instant option \<Rightarrow> string \<Rightarrow> 's ssh_state
    \<Rightarrow> ((string \<times> go_error option) \<times> 's ssh_state) option" where
  "runInteractive X S ctx command s =
     (let (ctx1, s1) = command_ctx X S ctx s in
      case ensureShell X S ctx1 s1 of
        None \<Rightarrow> None
      | Some (Some e, s2) \<Rightarrow> Some (([], Some e), s2)
      | Some (None, s2) \<Rightarrow>
          (case on_net (xs_Write X (command @ [CHR 0x0A])) (set_command_deadline X S s2) of
             (Some e, s3) \<Rightarrow> Some (([], Some e), s3)
           | (None, s3) \<Rightarrow>
               (case ssh_readUntilPrompt X S ctx1 command s3 of
                  None \<Rightarrow> None
                | Some (r, s4) \<Rightarrow> Some (r, reset_deadline X S s4))))"

definition ssh_Run :: "'s ssh_net \<Rightarrow> ssh_Session \<Rightarrow> instant option \<Rightarrow> string \<Rightarrow> 's ssh_state
    \<Rightarrow> ((string \<times> go_error option) \<times> 's ssh_state) option" where
  "ssh_Run X S ctx command s =
     (if se_interactive S then runInteractive X S ctx command s else Some (runExec X S ctx command s))"

text \<open>\<open>Close\<close>: everything that is there is closed in order; the first error is the result.\<close>

definition session_handles :: "ssh_Session \<Rightarrow> bool \<Rightarrow> handle list" where
  "session_handles S shell = (if shell then [Shell] else []) @ [Client, TargetConn] @ (if se_jump S then [JumpClient] else [])"

fun close_all :: "(handle \<Rightarrow> (go_error option, 's) io) \<Rightarrow> handle list \<Rightarrow> (go_error option, 's) io" where
  "close_all f [] s = (None, s)"
| "close_all f (h # hs) s =
     (let (e, s1) = f h s; (e', s2) = close_all f hs s1 in (if e = None then e' else e, s2))"

definition ssh_Close :: "('db, 's) ssh_lib \<Rightarrow> ssh_Session \<Rightarrow> bool \<Rightarrow> (go_error option, 's ssh_world) io" where
  "ssh_Close L S shell = close_all (close_handle L) (session_handles S shell)"

section \<open>What a dial leaves open\<close>

text \<open>
  The handles that are open after the events: a jump client takes its connection over, and
  releasing the connection to the target ends the client on it.
\<close>

fun event_effect :: "ssh_event \<Rightarrow> handle set \<Rightarrow> handle set" where
  "event_effect (Opened h) H = insert h (if h = JumpClient then H - {JumpConn} else H)"
| "event_effect (Released h) H = H - (if h = TargetConn then {TargetConn, Client} else {h})"

definition open_handles :: "ssh_event list \<Rightarrow> handle set" where
  "open_handles evs = fold event_effect evs {}"

definition log_after :: "'s ssh_world \<Rightarrow> 's ssh_world \<Rightarrow> ssh_event list \<Rightarrow> bool" where
  "log_after w w' evs \<longleftrightarrow> sw_log w' = sw_log w @ evs"

lemma ssh_op_log: "ssh_op f w = (x, w') \<Longrightarrow> sw_log w' = sw_log w"
  by (auto simp: ssh_op_def split: prod.splits)

lemma ssh_set_log [simp]: "sw_log (ssh_set f w) = sw_log w"
  by (simp add: ssh_set_def)

lemma opening_op_log:
  "opening_op h f w = (err, w') \<Longrightarrow> sw_log w' = sw_log w @ (if err = None then [Opened h] else [])"
  by (auto simp: opening_op_def dest!: ssh_op_log split: prod.splits)

lemma close_handle_log: "sw_log (snd (close_handle L h w)) = sw_log w @ [Released h]"
  by (auto simp: close_handle_def dest!: ssh_op_log split: prod.splits)

lemma close_handles_log: "sw_log (close_handles L hs w) = sw_log w @ map Released hs"
  unfolding close_handles_def by (induction hs arbitrary: w) (auto simp: close_handle_log)

lemma auth_deadline_log [simp]: "sw_log (auth_deadline L c h w) = sw_log w"
  by (auto simp: auth_deadline_def dest!: ssh_op_log split: prod.splits)

lemma session_deadline_log: "session_deadline L c w = (dl, w') \<Longrightarrow> sw_log w' = sw_log w"
  by (auto simp: session_deadline_def Let_def dest!: ssh_op_log split: prod.splits if_splits)

lemma tcpDial_log:
  "tcpDial L c h addr w = (err, w') \<Longrightarrow> sw_log w' = sw_log w @ (if err = None then [Opened h] else [])"
  unfolding tcpDial_def by (rule opening_op_log)

definition connected_events :: "bool \<Rightarrow> ssh_event list" where
  "connected_events jump = (if jump then [Opened JumpConn, Opened JumpClient, Opened TargetConn] else [Opened TargetConn])"

lemma networkConn_events:
  assumes "networkConn L c t cfg addr w = (res, w')"
  shows "\<exists>evs. sw_log w' = sw_log w @ evs
    \<and> (case res of
         Inl e \<Rightarrow> open_handles evs = {} \<and> (\<exists>op e'. e = BackupError FailureConnect op e')
       | Inr jump \<Rightarrow> evs = connected_events jump \<and> jump = (t_JumpHost t \<noteq> []))"
proof (cases "t_JumpHost t = []")
  case True
  obtain err w1 where d: "tcpDial L c TargetConn addr w = (err, w1)" by (meson surj_pair)
  with assms True tcpDial_log [OF d] show ?thesis
    by (cases err) (auto simp: networkConn_def connected_events_def open_handles_def)
next
  case jump: False
  show ?thesis
  proof (cases "parseJumpHost (t_JumpHost t) (cl_User cfg)")
    case (Inl e)
    with assms jump show ?thesis by (auto simp: networkConn_def open_handles_def intro: exI [of _ "[]"])
  next
    case (Inr js)
    let ?addr = "JoinHostPort (js_host js) (js_port js)"
    let ?cfg = "(cloneClientConfig cfg)\<lparr>cl_User := js_username js\<rparr>"
    obtain e1 w1 where d: "tcpDial L c JumpConn ?addr w = (e1, w1)" by (meson surj_pair)
    obtain e2 w2 where h: "opening_op JumpClient (sl_NewClientConn L JumpConn ?addr ?cfg) (auth_deadline L c JumpConn w1) = (e2, w2)"
      by (meson surj_pair)
    obtain e3 w3 where j: "opening_op TargetConn (sl_ClientDial L addr) w2 = (e3, w3)" by (meson surj_pair)
    note logs = tcpDial_log [OF d] opening_op_log [OF h] opening_op_log [OF j]
    have r: "(res, w') = (case e1 of Some e \<Rightarrow> (Inl (BackupError FailureConnect ''jump tcp dial'' e), w1)
       | None \<Rightarrow> (case e2 of Some e \<Rightarrow> (Inl (BackupError FailureConnect ''jump ssh handshake'' e), close_handles L [JumpConn] w2)
          | None \<Rightarrow> (case e3 of Some e \<Rightarrow> (Inl (BackupError FailureConnect ''jump target dial'' e), close_handles L [JumpClient] w3)
             | None \<Rightarrow> (Inr True, w3))))"
      using assms jump Inr d h j by (simp add: networkConn_def Let_def split: option.splits)
    show ?thesis
      using r logs jump
      by (auto simp: connected_events_def open_handles_def close_handles_log split: option.splits)
  qed
qed

lemma dial_session_events:
  assumes "dial_session L c cfg addr jump w = (res, w')"
  shows "\<exists>evs. sw_log w' = sw_log w @ evs
    \<and> (case res of
         Inl e \<Rightarrow> open_handles (connected_events jump @ evs) = {}
              \<and> (\<exists>cat op e'. e = BackupError cat op e' \<and> (cat = FailureConnect \<or> cat = FailureAuth))
       | Inr S \<Rightarrow> evs = [Opened Client] \<and> se_jump S = jump)"
proof -
  obtain e1 w1 where h: "opening_op Client (sl_NewClientConn L TargetConn addr cfg) (auth_deadline L c TargetConn w) = (e1, w1)"
    by (meson surj_pair)
  obtain dl w2 where d: "session_deadline L c w1 = (dl, w2)" by (meson surj_pair)
  note logs = opening_op_log [OF h] session_deadline_log [OF d]
  show ?thesis
  proof (cases e1)
    case (Some e)
    with assms h logs show ?thesis
      by (auto simp: dial_session_def close_handles_log handshake_error_def connected_events_def open_handles_def dialed_handles_def)
  next
    case None
    with assms h d logs show ?thesis
      by (cases "sl_Compile L (sh_PromptPattern c)")
        (auto simp: dial_session_def close_handles_log connected_events_def open_handles_def dialed_handles_def)
  qed
qed

lemma close_all_log:
  "sw_log (snd (close_all (close_handle L) hs w)) = sw_log w @ map Released hs"
proof (induction hs arbitrary: w)
  case (Cons h hs)
  then show ?case by (simp add: case_prod_beta close_handle_log)
qed simp

text \<open>
  C15: a dial that fails leaves nothing open. Whatever the network, the jump host and the
  device do, a dial either returns an error, of the connection or of the authentication,
  with every connection and client it opened released again, or a session with exactly the
  connection to the target, the client on it and, through a jump host, the jump client open,
  all of which closing the session releases, with or without a shell.
\<close>

theorem ssh_Dial_releases:
  assumes "ssh_Dial L c t creds w = (res, w')"
  shows "\<exists>evs. sw_log w' = sw_log w @ evs
    \<and> (case res of
         Inl e \<Rightarrow> open_handles evs = {}
           \<and> (\<exists>cat op e'. e = BackupError cat op e' \<and> (cat = FailureConnect \<or> cat = FailureAuth))
       | Inr S \<Rightarrow> open_handles evs = {TargetConn, Client} \<union> (if t_JumpHost t = [] then {} else {JumpClient})
           \<and> (\<forall>shell. \<exists>rs. sw_log (snd (ssh_Close L S shell w')) = sw_log w' @ rs
                \<and> open_handles (evs @ (if shell then [Opened Shell] else []) @ rs) = {}))"
proof -
  consider (refused) "w' = w" "\<exists>cat op e'. res = Inl (BackupError cat op e') \<and> (cat = FailureConnect \<or> cat = FailureAuth)"
    | (dial) methods hostKey where "authMethods (sl_ParsePrivateKey L) creds = Inr methods"
        "fst (hostKeyCallback (sl_KnownHosts L) c) = Inr hostKey"
    using assms by (auto simp: ssh_Dial_def split: sum.splits)
  then show ?thesis
  proof cases
    case refused
    then show ?thesis by (intro exI [of _ "[]"]) (auto simp: open_handles_def)
  next
    case dial
    let ?cfg = "ssh_client_config c creds methods hostKey"
    let ?addr = "JoinHostPort (t_IPAddress t) (ssh_portString (t_Port t))"
    obtain nr w1 where n: "networkConn L c t ?cfg ?addr w = (nr, w1)" by (meson surj_pair)
    from networkConn_events [OF n] obtain evs1 where e1: "sw_log w1 = sw_log w @ evs1"
      "case nr of Inl e \<Rightarrow> open_handles evs1 = {} \<and> (\<exists>op e'. e = BackupError FailureConnect op e')
         | Inr jump \<Rightarrow> evs1 = connected_events jump \<and> jump = (t_JumpHost t \<noteq> [])" by blast
    show ?thesis
    proof (cases nr)
      case (Inl e)
      with assms dial n have "res = Inl e" "w' = w1" by (auto simp: ssh_Dial_def Let_def)
      with e1 Inl show ?thesis by auto
    next
      case (Inr jump)
      with assms dial n have s: "dial_session L c ?cfg ?addr jump w1 = (res, w')" by (simp add: ssh_Dial_def Let_def)
      from dial_session_events [OF s] obtain evs2 where e2: "sw_log w' = sw_log w1 @ evs2"
        "case res of Inl e \<Rightarrow> open_handles (connected_events jump @ evs2) = {}
              \<and> (\<exists>cat op e'. e = BackupError cat op e' \<and> (cat = FailureConnect \<or> cat = FailureAuth))
           | Inr S \<Rightarrow> evs2 = [Opened Client] \<and> se_jump S = jump" by blast
      from e1 Inr have j: "evs1 = connected_events jump" "jump = (t_JumpHost t \<noteq> [])" by simp_all
      show ?thesis
      proof (cases res)
        case (Inl e)
        with e1 e2 j show ?thesis by (intro exI [of _ "evs1 @ evs2"]) auto
      next
        case (Inr S)
        with e1 e2 j show ?thesis
          by (intro exI [of _ "evs1 @ evs2"])
             (auto simp: ssh_Close_def close_all_log session_handles_def connected_events_def open_handles_def)
      qed
    qed
  qed
qed

definition demo_ssh_lib :: "(string, nat) ssh_lib" where
  "demo_ssh_lib = \<lparr>sl_ParsePrivateKey = (\<lambda>_. None), sl_KnownHosts = Inr,
     sl_DialContext = (\<lambda>addr timeout s. (None, s)), sl_NewClientConn = (\<lambda>h addr cfg s. (None, s)),
     sl_ClientDial = (\<lambda>addr s. (None, s)), sl_Close = (\<lambda>h s. (None, s)), sl_SetDeadline = (\<lambda>h dl s. s),
     sl_Compile = (\<lambda>p. Inr (\<lambda>_. False)), sl_Now = (\<lambda>s. (1, s))\<rparr>"

definition demo_ssh_config :: ssh_Config where
  "demo_ssh_config = ssh_New \<lparr>sh_ConnectTimeout = Second, sh_AuthTimeout = Second, sh_CommandTimeout = Minute,
     sh_IdleTimeout = Second, sh_SessionDeadline = Minute, sh_InteractiveShell = True, sh_PromptPattern = [],
     sh_MaxOutputBytes = 0, sh_HostKeyMode = ''strict'', sh_KnownHostsPath = ''known_hosts'', sh_TOFUPath = []\<rparr>"

definition demo_ssh_target :: Target where
  "demo_ssh_target = \<lparr>t_ID = ''r1'', t_Hostname = ''r1'', t_IPAddress = ''10.0.0.1'', t_Port = 0, t_Vendor = ''cisco'',
     t_Group = [], t_Site = [], t_Role = [], t_Tags = [], t_Metadata = Map.empty, t_JumpHost = ''ops@bastion'', t_CredentialRef = [],
     t_Enabled = True, t_TelnetEnabled = False\<rparr>"

definition demo_ssh_creds :: Credentials where
  "demo_ssh_creds = \<lparr>c_Username = ''admin'', c_Password = SecretString ''s3cret'', c_PrivateKeyPEM = SecretBytes [],
     c_EnableSecret = SecretString [], c_Source = [], c_AuthType = ''password''\<rparr>"

definition demo_ssh_dial :: "(go_error + ssh_Session) \<times> nat ssh_world" where
  "demo_ssh_dial = ssh_Dial demo_ssh_lib demo_ssh_config demo_ssh_target demo_ssh_creds \<lparr>sw_state = 0, sw_log = []\<rparr>"

theorem ssh_Dial_releases_witness:
  "\<not> isl (fst demo_ssh_dial) \<and> open_handles (sw_log (snd demo_ssh_dial)) = {TargetConn, Client, JumpClient}"
proof -
  have r: "\<not> isl (fst demo_ssh_dial)" by code_simp
  then obtain S where s: "fst demo_ssh_dial = Inr S" by (cases "fst demo_ssh_dial") auto
  have d: "ssh_Dial demo_ssh_lib demo_ssh_config demo_ssh_target demo_ssh_creds \<lparr>sw_state = 0, sw_log = []\<rparr>
      = (Inr S, snd demo_ssh_dial)" using s by (cases demo_ssh_dial) (simp add: demo_ssh_dial_def)
  from ssh_Dial_releases [OF d] r show ?thesis by (auto simp: demo_ssh_target_def)
qed

section \<open>Trust on first use\<close>





text \<open>
  The lookup is not under the mutex: two first connections to one host at the same time,
  with different keys, are both accepted.
\<close>

lemma tofu_race:
  assumes "tofu_lookup L None hostname remote key1 file = TofuRecord" "tofu_lookup L None hostname remote key2 file = TofuRecord"
  shows "fst (tofu_record L None (\<lambda>line. (line, None)) hostname key1 file) = None
    \<and> fst (tofu_record L None (\<lambda>line. (line, None)) hostname key2
        (snd (tofu_record L None (\<lambda>line. (line, None)) hostname key1 file))) = None"
  by (simp add: tofu_record_def)




section \<open>The shell\<close>

text \<open>
  A shell as the list of what its reads give; when there is no more, a read never returns.
\<close>

definition script_shell :: "string list ssh_net" where
  "script_shell =
     \<lparr>xs_NewSession = (\<lambda>s. (None, s)), xs_CombinedOutput = (\<lambda>ctx command s. (ExecDone (concat s) None, [])),
      xs_StartShell = (\<lambda>s. (None, s)), xs_Write = (\<lambda>line s. (None, s)),
      xs_Read = (\<lambda>dl s. case s of [] \<Rightarrow> (None, []) | c # cs \<Rightarrow> (Some c, cs)),
      xs_SetDeadline = (\<lambda>dl s. s), xs_CtxErr = (\<lambda>ctx s. (None, s)), xs_Now = (\<lambda>s. (1, s)),
      xs_Close = (\<lambda>h s. (None, s))\<rparr>"

definition demo_session :: "(string \<Rightarrow> bool) \<Rightarrow> ssh_Session" where
  "demo_session prompt = \<lparr>se_jump = False, se_commandTimeout = Minute, se_idleTimeout = Second, se_sessionDeadline = 0,
     se_interactive = True, se_prompt = prompt, se_maxOutputBytes = 2 ^ 24\<rparr>"

definition demo_shell :: "(string \<Rightarrow> bool) \<Rightarrow> string list \<Rightarrow> (string \<times> go_error option) option" where
  "demo_shell prompt script = map_option fst
     (ssh_Run script_shell (demo_session prompt) None ''show run'' \<lparr>st_net = script, st_shell = False\<rparr>)"

text \<open>
  A device that falls silent before its prompt, or whose connection breaks, holds the command
  forever: neither the command's time-out nor the idle time ends the read of the pipe.
\<close>

lemma shell_stall_hangs:
  "demo_shell (\<lambda>s. HasSuffix s ''#'') [''r1#'', ''hostname r1''] = None"
  "demo_shell (\<lambda>s. HasSuffix s ''#'') [''r1#'', ''hostname r1'', ''end'', ''r1#''] \<noteq> None"
  by code_simp+

text \<open>
  The default pattern also finds a prompt at the end of a line in the middle of the output:
  what follows is lost, and the line is taken out of the transcript.
\<close>

definition default_prompt :: "string \<Rightarrow> bool" where
  "default_prompt s = (case parse_regex ssh_defaultPromptPattern of Some r \<Rightarrow> MatchString r s | None \<Rightarrow> False)"

lemma prompt_inside_output_truncates:
  "demo_shell default_prompt [''r1#'', ''hostname r1'' @ [CHR 0x0A] @ ''description to r2 >'' @ [CHR 0x0A], ''end'' @ [CHR 0x0A] @ ''r1#'']
   = Some (''hostname r1'' @ [CHR 0x0A], None)"
  by code_simp

end
