(* ===== verification/Bench.thy ===== *)
theory Bench
  imports Gitstore
begin

text \<open>
  The benchmark program, cmd/goxidized-bench/main.go: the simulation of a sweep, the load on
  the archive and on the data base, and the statistics over what they measure. Measured
  times and the answers of the services are given. Floating point numbers are an abstract
  type with the operations the code uses; integers are 64 bits wide.
\<close>

section \<open>Results\<close>

datatype 'f meta_value = MetaInt int | MetaFloat 'f | MetaText string

record 'f bench_result =
  bm_Name :: string
  bm_Count :: int
  bm_DurationMS :: int
  bm_P50MS :: int
  bm_P95MS :: int
  bm_P99MS :: int
  bm_Failures :: int
  bm_Skipped :: bool
  bm_Reason :: string
  bm_Meta :: "(string \<times> 'f meta_value) list"

definition skipped :: "string \<Rightarrow> int \<Rightarrow> string \<Rightarrow> 'f bench_result" where
  "skipped name count reason = \<lparr>bm_Name = name, bm_Count = count, bm_DurationMS = 0, bm_P50MS = 0, bm_P95MS = 0,
     bm_P99MS = 0, bm_Failures = 0, bm_Skipped = True, bm_Reason = reason, bm_Meta = []\<rparr>"

text \<open>The value at the index computed in 64 bits; \<open>values\<close> is sorted by the callers.\<close>

definition percentile :: "int list \<Rightarrow> int \<Rightarrow> int" where
  "percentile vs p =
     (if vs = [] then 0
      else (let idx = go_div (wrap64 (wrap64 (int (length vs) * p) + 99)) 100;
                idx1 = (if idx \<le> 0 then 1 else idx);
                idx2 = (if idx1 > int (length vs) then int (length vs) else idx1)
            in vs ! nat (idx2 - 1)))"

definition measured :: "string \<Rightarrow> int \<Rightarrow> int \<Rightarrow> int list \<Rightarrow> int \<Rightarrow> (string \<times> 'f meta_value) list \<Rightarrow> 'f bench_result" where
  "measured name count elapsed ds failures meta =
     \<lparr>bm_Name = name, bm_Count = count, bm_DurationMS = elapsed, bm_P50MS = percentile ds 50,
       bm_P95MS = percentile ds 95, bm_P99MS = percentile ds 99, bm_Failures = failures, bm_Skipped = False,
       bm_Reason = [], bm_Meta = meta\<rparr>"

section \<open>The simulated sweep\<close>

text \<open>The remainder of Go, with the sign of the dividend.\<close>

definition go_rem :: "int \<Rightarrow> int \<Rightarrow> int" where
  "go_rem a b = a - b * go_div a b"

text \<open>The duration in milliseconds; the code's floating point numbers hold these integers exactly.\<close>

definition syntheticSSHDurationMS :: "int \<Rightarrow> int" where
  "syntheticSSHDurationMS i =
     2800 + go_rem (wrap64 (i * 7919)) 3500 + (if go_rem i 37 = 0 then 8000 else 0) + (if go_rem i 211 = 0 then 22000 else 0)"

record 'f floats =
  fl_of_int :: "int \<Rightarrow> 'f"
  fl_add :: "'f \<Rightarrow> 'f \<Rightarrow> 'f"
  fl_mul :: "'f \<Rightarrow> 'f \<Rightarrow> 'f"
  fl_div :: "'f \<Rightarrow> 'f \<Rightarrow> 'f"
  fl_less :: "'f \<Rightarrow> 'f \<Rightarrow> bool"
  fl_le :: "'f \<Rightarrow> 'f \<Rightarrow> bool"
  fl_int64 :: "'f \<Rightarrow> int"

fun min_from :: "'f floats \<Rightarrow> 'f \<Rightarrow> nat \<Rightarrow> nat \<Rightarrow> 'f list \<Rightarrow> nat" where
  "min_from F best minIdx i [] = minIdx"
| "min_from F best minIdx i (v # vs) =
     (if fl_less F v best then min_from F v i (Suc i) vs else min_from F best minIdx (Suc i) vs)"

definition minWorker :: "'f floats \<Rightarrow> 'f list \<Rightarrow> nat" where
  "minWorker F vs = (case vs of [] \<Rightarrow> 0 | v # vs' \<Rightarrow> min_from F v 0 1 vs')"

fun sweep_loop :: "'f floats \<Rightarrow> 'f \<Rightarrow> nat \<Rightarrow> int \<Rightarrow> 'f list \<Rightarrow> int list \<Rightarrow> int list" where
  "sweep_loop F rate 0 i workerReady completions = completions"
| "sweep_loop F rate (Suc n) i workerReady completions =
     (let w = minWorker F workerReady;
          startGate = fl_div F (fl_of_int F i) rate;
          startAt = (if fl_less F (workerReady ! w) startGate then startGate else workerReady ! w);
          duration = fl_div F (fl_of_int F (syntheticSSHDurationMS i)) (fl_of_int F 1000);
          ready = fl_add F startAt duration
      in sweep_loop F rate n (i + 1) (workerReady[w := ready]) (completions @ [fl_int64 F (fl_mul F ready (fl_of_int F 1000))]))"

definition sweep_note :: string where
  "sweep_note = ''deterministic synthetic SSH duration distribution; validate with lab timing before production acceptance''"

definition fullSweep :: "'f floats \<Rightarrow> int \<Rightarrow> int \<Rightarrow> int \<Rightarrow> 'f \<Rightarrow> 'f bench_result" where
  "fullSweep F elapsed devices concurrency newConnRate =
     (let devices = (if devices \<le> 0 then 1 else devices);
          concurrency = (if concurrency \<le> 0 then 1 else concurrency);
          rate = (if fl_le F newConnRate (fl_of_int F 0) then fl_of_int F 1 else newConnRate);
          completions = sort (sweep_loop F rate (nat devices) 0 (replicate (nat concurrency) (fl_of_int F 0)) [])
      in measured ''full_sweep_simulation'' devices elapsed completions 0
           [(''concurrency'', MetaInt concurrency), (''new_connection_rate_per_sec'', MetaFloat rate),
            (''estimated_sweep_wall_ms'', MetaInt (last completions)), (''model'', MetaText sweep_note)])"

definition timing_note :: string where
  "timing_note = ''synthetic deterministic distribution calibrated for benchmark plumbing only; replace with lab CSV for production acceptance''"

definition sshTiming :: "int \<Rightarrow> int \<Rightarrow> 'f bench_result" where
  "sshTiming elapsed samples =
     (let samples = (if samples \<le> 0 then 1 else samples)
      in measured ''ssh_session_timing'' samples elapsed (sort (map (\<lambda>i. syntheticSSHDurationMS (int i)) [0..<nat samples])) 0
           [(''source'', MetaText timing_note)])"

section \<open>The load on the archive\<close>

text \<open>\<open>%05d\<close> and \<open>%02d\<close> of a number that is not negative.\<close>

definition padded :: "nat \<Rightarrow> nat \<Rightarrow> string" where
  "padded width i = (let s = Itoa (int i) in replicate (width - length s) (CHR ''0'') @ s)"

definition vendorFor :: "nat \<Rightarrow> string" where
  "vendorFor i = [''cisco_iosxe'', ''huawei_vrp'', ''cisco_iosxr'', ''juniper_junos'', ''zte_zxr10'', ''ericsson_ipos''] ! (i mod 6)"

definition bench_target :: "nat \<Rightarrow> Target" where
  "bench_target i = \<lparr>t_ID = ''bench-'' @ padded 5 i, t_Hostname = ''bench-'' @ padded 5 i, t_IPAddress = [], t_Port = 0,
     t_Vendor = vendorFor i, t_Group = [], t_Site = [], t_Role = ''role-'' @ padded 2 (i mod 8), t_Tags = [],
     t_Metadata = Map.empty, t_JumpHost = [], t_CredentialRef = [], t_Enabled = True, t_TelnetEnabled = False\<rparr>"

definition bench_config :: "nat \<Rightarrow> RedactedConfig" where
  "bench_config i = \<lparr>rc_TargetID = t_ID (bench_target i),
     rc_Content = ''hostname '' @ t_Hostname (bench_target i) @ [CHR 0x0A] @ ''interface Loopback0'' @ [CHR 0x0A]
       @ '' description bench-'' @ Itoa (int i) @ [CHR 0x0A]\<rparr>"

definition bench_meta :: "nat \<Rightarrow> CommitMeta" where
  "bench_meta i = \<lparr>cm_JobID = ''job-'' @ padded 5 i, cm_Trigger = ''benchmark'', cm_Actor = ''goxidized-bench'', cm_RulesetVersion = [],
     cm_RedactionReport = empty_report, cm_Risk = None, cm_DeviceMetadata = Map.empty,
     cm_AdditionalTrails = [''content_sha256'' \<mapsto> EncodeToString (Sum256 (rc_Content (bench_config i)))]\<rparr>"

text \<open>
  The saves run in parallel, at most \<open>workers\<close> at once: \<open>save\<close> gives what each of them
  answers and how long it took. A negative number of devices panics.
\<close>

definition gitContention :: "go_error option \<Rightarrow> (Target \<Rightarrow> RedactedConfig \<Rightarrow> CommitMeta \<Rightarrow> go_error option \<times> int) \<Rightarrow> int
    \<Rightarrow> int \<Rightarrow> int \<Rightarrow> int \<Rightarrow> 'f bench_result option" where
  "gitContention mkdir_err save elapsed devices shards workers =
     (case mkdir_err of
        Some e \<Rightarrow> Some (skipped ''git_contention'' 0 (error_text e))
      | None \<Rightarrow>
          if devices < 0 then None
          else (let workers = (if workers \<le> 0 then 1 else workers);
                    outcomes = map (\<lambda>i. save (bench_target i) (bench_config i) (bench_meta i)) [0..<nat devices]
                in Some (measured ''git_contention'' devices elapsed (sort (map snd outcomes))
                     (int (length (filter (\<lambda>o'. fst o' \<noteq> None) outcomes)))
                     [(''shards'', MetaInt shards), (''workers'', MetaInt workers), (''adapter'', MetaText ''go-git'')])))"

section \<open>The load on the data base\<close>

fun insert_rows :: "(nat \<Rightarrow> go_error option \<times> int) \<Rightarrow> nat \<Rightarrow> nat \<Rightarrow> int list \<times> int" where
  "insert_rows exec i 0 = ([], 0)"
| "insert_rows exec i (Suc n) =
     (let (err, ms) = exec i; (durations, failures) = insert_rows exec (Suc i) n
      in (ms # durations, if err = None then failures else failures + 1))"

definition postgresWrites :: "string \<Rightarrow> go_error option \<Rightarrow> go_error option \<Rightarrow> (nat \<Rightarrow> go_error option \<times> int) \<Rightarrow> int
    \<Rightarrow> int \<Rightarrow> 'f bench_result option" where
  "postgresWrites dsn pool_err create_err exec elapsed rows =
     (if dsn = [] then Some (skipped ''postgres_writes'' rows ''GOXIDIZED_BENCH_POSTGRES_DSN not set'')
      else (case pool_err of
        Some e \<Rightarrow> Some (skipped ''postgres_writes'' rows (error_text e))
      | None \<Rightarrow>
          (case create_err of
             Some e \<Rightarrow> Some (skipped ''postgres_writes'' rows (error_text e))
           | None \<Rightarrow>
               if rows < 0 then None
               else (let (durations, failures) = insert_rows exec 0 (nat rows)
                     in Some (measured ''postgres_writes'' rows elapsed (sort durations) failures [])))))"

section \<open>The report\<close>

text \<open>\<open>json\<close> is the encoding of the additional data.\<close>

definition result_note :: "((string \<times> 'f meta_value) list \<Rightarrow> string) \<Rightarrow> 'f bench_result \<Rightarrow> string" where
  "result_note json r =
     (if bm_Skipped r then ''SKIPPED: '' @ bm_Reason r else if bm_Meta r \<noteq> [] then json (bm_Meta r) else [])"

definition markdown_row :: "((string \<times> 'f meta_value) list \<Rightarrow> string) \<Rightarrow> 'f bench_result \<Rightarrow> string" where
  "markdown_row json r =
     sprintf [] ''| %s | %d | %d | %d | %d | %d | %d | %s |''
       [bm_Name r, Itoa (bm_Count r), Itoa (bm_DurationMS r), Itoa (bm_P50MS r), Itoa (bm_P95MS r), Itoa (bm_P99MS r),
        Itoa (bm_Failures r), result_note json r] @ [CHR 0x0A]"

definition printMarkdown :: "((string \<times> 'f meta_value) list \<Rightarrow> string) \<Rightarrow> string \<Rightarrow> 'f bench_result list \<Rightarrow> string" where
  "printMarkdown json now results =
     ''# GoXidized Production-Core Benchmark Evidence'' @ [CHR 0x0A, CHR 0x0A]
     @ sprintf [] ''Generated: %s'' [now] @ [CHR 0x0A, CHR 0x0A]
     @ ''| Benchmark | Count | Duration ms | p50 ms | p95 ms | p99 ms | Failures | Notes |'' @ [CHR 0x0A]
     @ ''| --- | ---: | ---: | ---: | ---: | ---: | ---: | --- |'' @ [CHR 0x0A]
     @ concat (map (markdown_row json) results)"

section \<open>What the statistics mean\<close>

lemma sorted_count_le:
  assumes "sorted vs" "k < length vs"
  shows "Suc k \<le> length (filter (\<lambda>v. v \<le> vs ! k) vs)" "length (filter (\<lambda>v. v < vs ! k) vs) \<le> k"
proof -
  have "filter (\<lambda>v. v \<le> vs ! k) (take (Suc k) vs) = take (Suc k) vs"
    using assms by (auto simp: filter_id_conv in_set_conv_nth less_Suc_eq_le sorted_nth_mono)
  then have "length (filter (\<lambda>v. v \<le> vs ! k) (take (Suc k) vs @ drop (Suc k) vs)) \<ge> Suc k"
    using assms(2) by (simp del: append_take_drop_id)
  then show "Suc k \<le> length (filter (\<lambda>v. v \<le> vs ! k) vs)" by simp
  have "filter (\<lambda>v. v < vs ! k) (drop k vs) = []"
    using assms by (auto simp: filter_empty_conv in_set_conv_nth not_less sorted_nth_mono)
  then have "length (filter (\<lambda>v. v < vs ! k) (take k vs @ drop k vs)) = length (filter (\<lambda>v. v < vs ! k) (take k vs))"
    by (simp del: append_take_drop_id)
  also have "\<dots> \<le> length (take k vs)" by (rule length_filter_le)
  finally show "length (filter (\<lambda>v. v < vs ! k) vs) \<le> k" using assms(2) by simp
qed

text \<open>
  The nearest rank: of sorted values, a percentile is the least value with at least that share
  of all values below or at it.
\<close>

theorem percentile_nearest_rank:
  assumes "sorted vs" "vs \<noteq> []" "0 < p" "p \<le> 100" "length vs < 2 ^ 56"
  shows "percentile vs p \<in> set vs
    \<and> p * int (length vs) \<le> 100 * int (length (filter (\<lambda>v. v \<le> percentile vs p) vs))
    \<and> 100 * int (length (filter (\<lambda>v. v < percentile vs p) vs)) < p * int (length vs)"
proof -
  let ?n = "int (length vs)"
  define k where "k = (?n * p + 99) div 100"
  have n: "0 < ?n" "?n < 2 ^ 56" using assms(2,5) by auto
  have np: "0 < ?n * p" "?n * p \<le> ?n * 100" using n(1) assms(3,4) by (simp_all add: mult_left_mono)
  then have r: "in_int64 (?n * p)" "in_int64 (?n * p + 99)" using n(2) by simp_all
  have up: "x \<le> 100 * ((x + 99) div 100) \<and> 100 * ((x + 99) div 100 - 1) < x" for x :: int by presburger
  have k: "?n * p \<le> 100 * k" "100 * (k - 1) < ?n * p" using up unfolding k_def by simp_all
  have k1: "1 \<le> k" using k(1) np by linarith
  have k2: "k \<le> ?n" using order.strict_trans2 [OF k(2) np(2)] by simp
  have "go_div (wrap64 (wrap64 (?n * p) + 99)) 100 = k"
    using r np by (simp add: wrap64_id k_def go_div_nonneg)
  then have v: "percentile vs p = vs ! nat (k - 1)" using assms(2) k1 k2 by (simp add: percentile_def Let_def)
  have l: "nat (k - 1) < length vs" using k1 k2 by linarith
  note c = sorted_count_le [OF assms(1) l]
  have "k \<le> int (length (filter (\<lambda>x. x \<le> vs ! nat (k - 1)) vs))"
    "int (length (filter (\<lambda>x. x < vs ! nat (k - 1)) vs)) \<le> k - 1" using c k1 by linarith+
  with k l show ?thesis unfolding v by (auto simp: mult.commute)
qed

lemma last_sort: "xs \<noteq> [] \<Longrightarrow> last (sort xs) = Max (set xs)"
  for xs :: "int list"
proof -
  assume "xs \<noteq> []"
  then have ne: "sort xs \<noteq> []" by (metis set_empty set_sort)
  have "sorted (butlast (sort xs) @ [last (sort xs)])" using ne by simp
  then have "\<forall>x \<in> set (butlast (sort xs) @ [last (sort xs)]). x \<le> last (sort xs)" by (auto simp: sorted_append)
  then have "\<forall>x \<in> set (sort xs). x \<le> last (sort xs)" using append_butlast_last_id [OF ne] by simp
  with ne show ?thesis by (intro Max_eqI [symmetric]) (auto dest: last_in_set)
qed

lemma sweep_loop_length:
  "length (sweep_loop F rate n i ready cs) = length cs + n"
  by (induction F rate n i ready cs rule: sweep_loop.induct) (simp_all add: Let_def)

text \<open>The simulated sweep has one completion for each device, and its wall time is the last of them.\<close>

lemma fullSweep_wall:
  "\<exists>cs. length cs = nat (bm_Count (fullSweep F elapsed devices concurrency rate)) \<and> cs \<noteq> []
     \<and> (''estimated_sweep_wall_ms'', MetaInt (Max (set cs))) \<in> set (bm_Meta (fullSweep F elapsed devices concurrency rate))"
proof -
  let ?d = "if devices \<le> 0 then 1 else devices"
  let ?c = "if concurrency \<le> 0 then 1 else concurrency"
  let ?r = "if fl_le F rate (fl_of_int F 0) then fl_of_int F 1 else rate"
  let ?cs = "sweep_loop F ?r (nat ?d) 0 (replicate (nat ?c) (fl_of_int F 0)) []"
  have l: "length ?cs = nat ?d" by (simp add: sweep_loop_length)
  have ne: "?cs \<noteq> []" using l by (auto simp del: sweep_loop.simps split: if_splits)
  show ?thesis
    by (rule exI [of _ ?cs]) (simp only: fullSweep_def Let_def measured_def bench_result.simps last_sort [OF ne] l ne, simp add: ne)
qed

end
