(* ===== verification/Conformance.thy ===== *)
theory Conformance
  imports Drivers
begin

text \<open>
  pkg/conformance/driver.go: replaying recorded output of a device through a driver. A
  session answers from a map; a run prepares, fetches, normalizes and redacts, and compares
  the commands that were run with the expected ones.
\<close>

section \<open>The replayed session\<close>

record ReplaySession =
  rp_Responses :: "string \<rightharpoonup> string"
  rp_Errors :: "string \<rightharpoonup> go_error"
  rp_Commands :: "string list"

text \<open>\<open>ctx n\<close> is the error of the context when n commands have been run.\<close>

definition replay_Run :: "(nat \<Rightarrow> go_error option) \<Rightarrow> ReplaySession Session" where
  "replay_Run ctx s command =
     (case ctx (length (rp_Commands s)) of
        Some e \<Rightarrow> (([], Some e), s)
      | None \<Rightarrow>
          (let s1 = s\<lparr>rp_Commands := rp_Commands s @ [command]\<rparr> in
           case rp_Errors s command of
             Some e \<Rightarrow> (([], Some e), s1)
           | None \<Rightarrow>
               (case rp_Responses s command of
                  None \<Rightarrow> (([], Some (Errorf ''no replay response for command %q'' [command])), s1)
                | Some out \<Rightarrow> ((out, None), s1))))"

section \<open>Running a fixture\<close>

record DriverFixture =
  df_Target :: Target
  df_Responses :: "string \<rightharpoonup> string"
  df_Errors :: "string \<rightharpoonup> go_error"
  df_ExpectedCommand :: string
  df_ExpectedCommands :: "string list"

record DriverRun =
  dn_Config :: "ConfigResult option"
  dn_Normalized :: "ConfigResult option"
  dn_Redacted :: "RedactedConfig option"
  dn_Report :: RedactionReport
  dn_Commands :: "string list"

text \<open>
  The context as the run sees it: during the commands, when normalizing, when redacting;
  and the two readings of the clock.
\<close>

record run_ctx =
  rx_run :: "nat \<Rightarrow> go_error option"
  rx_normalize :: "go_error option"
  rx_redact :: "go_error option"
  rx_start :: instant
  rx_now :: instant

text \<open>\<open>%q\<close> of a list of strings.\<close>

definition quote_list :: "string list \<Rightarrow> string" where
  "quote_list xs = ''['' @ Join (map quote_q xs) '' '' @ '']''"

definition check_commands :: "DriverFixture \<Rightarrow> string list \<Rightarrow> go_error option" where
  "check_commands f cmds =
     (if df_ExpectedCommand f \<noteq> [] \<and> cmds = []
      then Some (Errorf ''last command = <none>, want %q'' [df_ExpectedCommand f])
      else if df_ExpectedCommand f \<noteq> [] \<and> last cmds \<noteq> df_ExpectedCommand f
      then Some (Errorf ''last command = %q, want %q'' [last cmds, df_ExpectedCommand f])
      else if df_ExpectedCommands f \<noteq> [] \<and> cmds \<noteq> df_ExpectedCommands f
      then Some (Errorf ''commands = %s, want %s'' [quote_list cmds, quote_list (df_ExpectedCommands f)])
      else None)"

definition empty_run :: DriverRun where
  "empty_run = \<lparr>dn_Config = None, dn_Normalized = None, dn_Redacted = None, dn_Report = empty_report, dn_Commands = []\<rparr>"

definition fixture_session :: "DriverFixture \<Rightarrow> ReplaySession" where
  "fixture_session f = \<lparr>rp_Responses = df_Responses f, rp_Errors = df_Errors f, rp_Commands = []\<rparr>"

definition RunDriverFixtureDetailed :: "run_ctx \<Rightarrow> CLIDriver \<Rightarrow> DriverFixture \<Rightarrow> DriverRun \<times> go_error option" where
  "RunDriverFixtureDetailed rx d f =
     (if t_ID (df_Target f) = [] then (empty_run, Some (errors_New ''fixture target id is required''))
      else (case Prepare d (replay_Run (rx_run rx)) (fixture_session f) of
        (Some e, s) \<Rightarrow> (empty_run\<lparr>dn_Commands := rp_Commands s\<rparr>, Some e)
      | (None, s) \<Rightarrow>
      (case FetchConfig d (rx_start rx) (rx_now rx) (df_Target f) (replay_Run (rx_run rx)) s of
        (Inl e, s) \<Rightarrow> (empty_run\<lparr>dn_Commands := rp_Commands s\<rparr>, Some e)
      | (Inr cfg, s) \<Rightarrow>
      (let run = empty_run\<lparr>dn_Config := Some cfg, dn_Commands := rp_Commands s\<rparr> in
      case Driver_Normalize d (rx_normalize rx) cfg of
        Inl e \<Rightarrow> (run, Some e)
      | Inr norm \<Rightarrow>
      (let run = run\<lparr>dn_Normalized := Some norm\<rparr> in
      case Driver_Redact d (rx_redact rx) norm of
        Inl (e, report) \<Rightarrow> (run\<lparr>dn_Report := report\<rparr>, Some e)
      | Inr (redacted, report) \<Rightarrow>
          (run\<lparr>dn_Redacted := Some redacted, dn_Report := report\<rparr>, check_commands f (dn_Commands run)))))))"

definition RunDriverFixture :: "run_ctx \<Rightarrow> CLIDriver \<Rightarrow> DriverFixture
    \<Rightarrow> RedactedConfig option \<times> RedactionReport \<times> go_error option" where
  "RunDriverFixture rx d f =
     (case RunDriverFixtureDetailed rx d f of
        (run, Some e) \<Rightarrow> (None, empty_report, Some e)
      | (run, None) \<Rightarrow> (dn_Redacted run, dn_Report run, None))"

section \<open>What a replay shows\<close>



lemma classifyOutput_nothing [simp]: "classifyOutput d command [] = None"
  by (simp add: classifyOutput_def)



lemma registered_drivers_replay:
  assumes "Get (RegisterDefaults []) name = Inr d"
  shows "pr_StrictMode (dr_processor d)" "list_all (\<lambda>c. \<not> pc_AllowFailure c) (cp_Prepare (dr_profile d))"
proof -
  have c: "list_all (\<lambda>c. \<not> pc_AllowFailure c) (commands xs)" for xs by (simp add: commands_def list_all_iff)
  have g: "Get [] name = Inl (Errorf ''driver %q not registered'' [name])" by (simp add: Get_def)
  from assms have "d \<in> NewCLIProfile ` {zteZXR10Profile, ericssonIPOSProfile, juniperJunosProfile,
      ciscoIOSXRProfile, huaweiVRPProfile, ciscoIOSXEProfile}"
    unfolding RegisterDefaults_def Get_Register g by (auto split: if_splits)
  then show "list_all (\<lambda>c. \<not> pc_AllowFailure c) (cp_Prepare (dr_profile d))"
    by (auto simp: c zteZXR10Profile_def ericssonIPOSProfile_def juniperJunosProfile_def ciscoIOSXRProfile_def
        huaweiVRPProfile_def ciscoIOSXEProfile_def)
  show "pr_StrictMode (dr_processor d)" using registered_driver_facts [of name] assms by (simp add: safe_driver_def)
qed







end
