(* ===== verification/Cli.thy ===== *)
theory Cli
  imports App Conformance
begin

text \<open>
  The command line, internal/cli/root.go: what each command does once cobra has parsed its
  flags and arguments. A command gives what it prints, as values, and the error the process
  ends with. The services of the built application are given by the environment of the
  command; what the construction and the closing do with the data base is the list of calls
  of \<open>App\<close>. The calls of the backups are in the world of \<open>Worker\<close>.
\<close>

section \<open>Commands on an application\<close>

datatype cli_output =
    OutValidTargets int
  | OutResults "JobResult list"
  | OutTarget Target
  | OutText string
  | OutConfig Revision string
  | OutDrivers "string list"
  | OutDriverTest string RedactionReport
  | OutStatusOk
  | OutToken (out_token: string) (out_sha256: string)

type_synonym cli_result = "cli_output list \<times> go_error option"

record ('db, 's) cli_env =
  ce_ReadFile :: "string \<Rightarrow> go_error + string"
  ce_Unmarshal :: "string \<Rightarrow> AppConfig \<Rightarrow> go_error + AppConfig"
  ce_New :: new_env
  ce_Leases :: "'db LeaseStore"
  ce_App :: "AppConfig \<Rightarrow> 'db built \<Rightarrow> 's App"
  ce_Storage :: "'s StorageI"
  ce_Runner :: "'s BackupRunner"
  ce_Source :: "string \<Rightarrow> Target list \<times> go_error option" \<comment> \<open>\<open>invcsv.New(path).Load\<close>\<close>
  ce_write :: "cli_output \<Rightarrow> go_error option"

definition writePretty :: "('db, 's) cli_env \<Rightarrow> cli_output \<Rightarrow> cli_result" where
  "writePretty E v = ([v], ce_write E v)"

definition on_services :: "('a, 's) op \<Rightarrow> 's world \<Rightarrow> 'a \<times> 's world" where
  "on_services f w = (let (x, s) = f (w_state w) in (x, w\<lparr>w_state := s\<rparr>))"

definition withApp :: "('db, 's) cli_env \<Rightarrow> string \<Rightarrow> ('s App \<Rightarrow> 's world \<Rightarrow> cli_result \<times> 's world) \<Rightarrow> 's world
    \<Rightarrow> (cli_result \<times> metadata_call list) \<times> 's world" where
  "withApp E cfgPath fn w =
     (case Configuration.Load (ce_ReadFile E) (ce_Unmarshal E) cfgPath of
        Inl e \<Rightarrow> ((([], Some e), []), w)
      | Inr cfg \<Rightarrow>
          (case New (ce_New E) (ce_Leases E) cfg of
             (Inl e, calls) \<Rightarrow> ((([], Some e), calls), w)
           | (Inr b, calls) \<Rightarrow> (let (r, w1) = fn (ce_App E cfg b) w in ((r, Close calls), w1))))"

definition server_start :: "('db, 's) cli_env \<Rightarrow> string \<Rightarrow> (start_step \<Rightarrow> go_error option) \<Rightarrow> 's world
    \<Rightarrow> (cli_result \<times> metadata_call list) \<times> 's world" where
  "server_start E cfgPath serve =
     withApp E cfgPath (\<lambda>a w. let ((err, steps), w1) = on_services (app_Start (ce_Source E) serve a) w in (([], err), w1))"

section \<open>The commands\<close>

text \<open>\<open>None\<close> is the panic of taking the first of no sources.\<close>

definition inventory_validate :: "('db, 's) cli_env \<Rightarrow> string \<Rightarrow> string \<Rightarrow> cli_result option" where
  "inventory_validate E cfgPath file =
     (let validate = (\<lambda>path. let (targets, err) = ce_Source E path in ([OutValidTargets (int (length targets))], err)) in
      if file \<noteq> [] then Some (validate file)
      else (case Configuration.Load (ce_ReadFile E) (ce_Unmarshal E) cfgPath of
              Inl e \<Rightarrow> Some ([], Some e)
            | Inr cfg \<Rightarrow> (case iv_Sources (ac_Inventory cfg) of [] \<Rightarrow> None | src # _ \<Rightarrow> Some (validate (is_Path src)))))"

definition inventory_reload :: "('db, 's) cli_env \<Rightarrow> string \<Rightarrow> 's world \<Rightarrow> (cli_result \<times> metadata_call list) \<times> 's world" where
  "inventory_reload E cfgPath =
     withApp E cfgPath (\<lambda>a w. let (err, w1) = on_services (ReloadInventory (ce_Source E) a) w in (([], err), w1))"






definition device_status :: "('db, 's) cli_env \<Rightarrow> string \<Rightarrow> string \<Rightarrow> 's world \<Rightarrow> (cli_result \<times> metadata_call list) \<times> 's world" where
  "device_status E cfgPath device =
     withApp E cfgPath (\<lambda>a w.
       case on_services (md_GetDevice (ap_Metadata a) device) w of
         (Inl e, w1) \<Rightarrow> (([], Some e), w1)
       | (Inr t, w1) \<Rightarrow> (writePretty E (OutTarget t), w1))"

text \<open>\<open>latest\<close>: whether the flag was given, with whatever value.\<close>

definition config_show :: "('db, 's) cli_env \<Rightarrow> string \<Rightarrow> bool \<Rightarrow> string \<Rightarrow> 's world \<Rightarrow> (cli_result \<times> metadata_call list) \<times> 's world" where
  "config_show E cfgPath latest device =
     withApp E cfgPath (\<lambda>a w.
       case on_services (st_Latest (ce_Storage E) device) w of
         (Inl e, w1) \<Rightarrow> (([], Some e), w1)
       | (Inr (cfg, rv), w1) \<Rightarrow>
           (if latest then ([OutText (rc_Content cfg)], None) else writePretty E (OutConfig rv (rc_Content cfg)), w1))"

definition diff_show :: "('db, 's) cli_env \<Rightarrow> string \<Rightarrow> string \<Rightarrow> string \<Rightarrow> string \<Rightarrow> 's world
    \<Rightarrow> (cli_result \<times> metadata_call list) \<times> 's world" where
  "diff_show E cfgPath from_rev to_rev device w =
     (if from_rev = [] \<or> to_rev = [] then ((([], Some (errors_New ''--from and --to are required'')), []), w)
      else withApp E cfgPath (\<lambda>a w.
        case on_services (st_Diff (ce_Storage E) device from_rev to_rev) w of
          (Inl e, w1) \<Rightarrow> (([], Some e), w1)
        | (Inr diff, w1) \<Rightarrow> (([OutText diff], None), w1)) w)"

definition driver_list :: "('db, 's) cli_env \<Rightarrow> cli_result" where
  "driver_list E = writePretty E (OutDrivers (List_drivers (RegisterDefaults [])))"




definition verify_target :: Target where
  "verify_target = \<lparr>t_ID = ''_storage_verify'', t_Hostname = ''_storage_verify'', t_IPAddress = ''127.0.0.1'', t_Port = 0,
     t_Vendor = ''verify'', t_Group = ''verify'', t_Site = [], t_Role = ''verify'', t_Tags = [], t_Metadata = Map.empty,
     t_JumpHost = [], t_CredentialRef = ''none'', t_Enabled = True, t_TelnetEnabled = False\<rparr>"

definition verify_meta :: CommitMeta where
  "verify_meta = \<lparr>cm_JobID = [], cm_Trigger = ''cli'', cm_Actor = ''cli'', cm_RulesetVersion = [],
     cm_RedactionReport = empty_report, cm_Risk = None, cm_DeviceMetadata = Map.empty, cm_AdditionalTrails = Map.empty\<rparr>"

text \<open>The store on the disk; \<open>now\<close> and \<open>now'\<close> are its readings of the clock, \<open>None\<close> its panic.\<close>

definition storage_verify :: "('db, 's) cli_env \<Rightarrow> 'r git_lib \<Rightarrow> instant \<Rightarrow> instant \<Rightarrow> go_error option \<Rightarrow> string \<Rightarrow> 'r disk
    \<Rightarrow> (cli_result \<times> 'r disk) option" where
  "storage_verify E lib now now' ctx cfgPath d =
     (case Configuration.Load (ce_ReadFile E) (ce_Unmarshal E) cfgPath of
        Inl e \<Rightarrow> Some (([], Some e), d)
      | Inr cfg \<Rightarrow>
          (let c = st_Config (ac_Storage cfg);
               store = New_store (ne_Cwd (ce_New E)) (cs_BasePath c) (cs_ShardStrategy c) (cs_ShardCount c) (cs_AuthorName c) (cs_AuthorEmail c)
           in case Save lib store now now' ctx verify_target
                     \<lparr>rc_TargetID = ''_storage_verify'', rc_Content = ''storage verify'' @ [CHR 0x0A]\<rparr> verify_meta d of
                None \<Rightarrow> None
              | Some (Inl e, d1) \<Rightarrow> Some (([], Some e), d1)
              | Some (Inr rv, d1) \<Rightarrow> Some (writePretty E OutStatusOk, d1)))"

text \<open>\<open>rand\<close> is what reading 32 random bytes gives.\<close>

definition create_token :: "('db, 's) cli_env \<Rightarrow> go_error + string \<Rightarrow> cli_result" where
  "create_token E rand =
     (case rand of
        Inl e \<Rightarrow> ([], Some e)
      | Inr b \<Rightarrow> (let token = EncodeToString b in writePretty E (OutToken token (EncodeToString (Sum256 token)))))"

definition version_text :: cli_result where
  "version_text = ([OutText (''goxidized dev'' @ [CHR 0x0A])], None)"

section \<open>The pool of connections\<close>

lemma New_calls:
  "New env meta cfg = (res, calls) \<Longrightarrow>
     (case res of Inl e \<Rightarrow> calls = [] \<or> calls = [MOpen, MMigrate, MClose] | Inr b \<Rightarrow> calls = [MOpen, MMigrate])"
  by (auto simp: New_def Let_def split: if_splits option.splits sum.splits)

text \<open>Whatever a command does, the pool it opened is closed when it ends.\<close>

lemma withApp_closes:
  assumes "withApp E cfgPath fn w = (((out, err), calls), w')"
  shows "calls = [] \<or> calls = [MOpen, MMigrate, MClose]"
  using assms New_calls
  by (fastforce simp: withApp_def Close_def split: sum.splits prod.splits)


section \<open>Backups of the command line\<close>














section \<open>Tokens\<close>

text \<open>
  A token that is created is one the server takes. The printed hash is the one the server
  computes of the printed token when it looks the token up, and the token stands for the
  random bytes.
\<close>

theorem create_token_roundtrip:
  "\<exists>token hash. fst (create_token E (Inr b)) = [OutToken token hash] \<and> hash = tokenHash token
     \<and> hex_DecodeString token = Some b \<and> length token = 2 * length b \<and> length hash = 64"
  by (simp add: create_token_def writePretty_def tokenHash_def Let_def)

section \<open>The test of a driver\<close>



section \<open>The check of an inventory file\<close>

text \<open>A configuration that loads has a source, so the first one is always there.\<close>

lemma Load_sources:
  assumes "Configuration.Load read unmarshal path = Inr cfg"
  shows "iv_Sources (ac_Inventory cfg) \<noteq> []"
proof -
  from assms have "Validate cfg = None"
    by (auto simp: Configuration.Load_def Let_def split: if_splits option.splits sum.splits)
  then show ?thesis by (auto simp: Validate_def Let_def first_error_None)
qed

lemma inventory_validate_total: "inventory_validate E cfgPath file \<noteq> None"
  using Load_sources
  by (fastforce simp: inventory_validate_def Let_def split: sum.splits list.splits prod.splits)

section \<open>Examples\<close>








end
